theory Spec2Isabelle
  imports Complex_Main
begin

text \<open>
  A model of the construct \<^verbatim>\<open>OpenNextCdk\<close>, which reads the manifest
  \<^verbatim>\<open>open-next.output.json\<close> of an OpenNext build and asks the AWS CDK for the matching
  resources: server functions, the revalidation queue and consumer, the tag cache
  table and its seeder, and a CloudFront distribution with its routing rules. The
  definitions follow the TypeScript sources file by file; the properties come after
  all definitions.
\<close>

section \<open>JavaScript values read from the manifest file\<close>

text \<open>
  \<^verbatim>\<open>readManifest\<close> works on whatever \<^verbatim>\<open>JSON.parse\<close> returns, before any type is
  known, so its model works on untyped JSON values. A number is kept as a real: the
  code only ever observes whether it is zero. An object is an association list read
  with \<open>map_of\<close>. \<open>None\<close> of \<open>json option\<close> is JavaScript's \<^verbatim>\<open>undefined\<close>.
\<close>

datatype json =
    JNull
  | JBool bool
  | JNum real
  | JStr string
  | JArr "json list"
  | JObj "(string \<times> json) list"

text \<open>
  What a constructor throws. \<open>Error\<close> and \<open>TypeError\<close> are JavaScript's; the other two are
  thrown by the framework: \<open>ValidationError name\<close> by \<^verbatim>\<open>new lambda.Function\<close> for a function
  name it refuses, \<open>ConstructExists id\<close> by \<^verbatim>\<open>new Construct(scope, id)\<close> when the scope
  already has a child with that id.
\<close>

datatype error =
    Error string
  | TypeError
  | ValidationError string
  | ConstructExists string

text \<open>JavaScript truthiness, as the operator \<^verbatim>\<open>!\<close> sees it.\<close>

fun truthy :: "json option \<Rightarrow> bool" where
  "truthy None = False"
| "truthy (Some JNull) = False"
| "truthy (Some (JBool b)) = b"
| "truthy (Some (JNum x)) = (x \<noteq> 0)"
| "truthy (Some (JStr s)) = (s \<noteq> [])"
| "truthy (Some (JArr xs)) = True"
| "truthy (Some (JObj kvs)) = True"

text \<open>\<^verbatim>\<open>typeof v === 'object'\<close>: true of null, arrays and objects.\<close>

fun typeof_object :: "json option \<Rightarrow> bool" where
  "typeof_object (Some JNull) = True"
| "typeof_object (Some (JArr xs)) = True"
| "typeof_object (Some (JObj kvs)) = True"
| "typeof_object v = False"

fun isArray :: "json option \<Rightarrow> bool" where
  "isArray (Some (JArr xs)) = True"
| "isArray v = False"

text \<open>
  Property read \<^verbatim>\<open>v.k\<close>. Reading a property of null or undefined throws a TypeError; on every
  other value it yields the own property or \<^verbatim>\<open>undefined\<close>. The three names read by
  the validation (\<^verbatim>\<open>origins\<close>, \<^verbatim>\<open>behaviors\<close>, \<^verbatim>\<open>default\<close>) are defined on no built-in
  prototype, so only own properties of objects matter.
\<close>

fun get_prop :: "json option \<Rightarrow> string \<Rightarrow> error + json option" where
  "get_prop None k = Inl TypeError"
| "get_prop (Some JNull) k = Inl TypeError"
| "get_prop (Some (JObj kvs)) k = Inr (map_of kvs k)"
| "get_prop (Some v) k = Inr None"

section \<open>manifest-reader.ts\<close>

text \<open>
  What the reader takes from Node: the readable files, \<^verbatim>\<open>JSON.parse\<close> (the message of
  its SyntaxError on the left) and \<^verbatim>\<open>path.join\<close>.
\<close>

record node =
  files :: "string \<rightharpoonup> string"
  JSON_parse :: "string \<Rightarrow> string + json"
  path_join :: "string \<Rightarrow> string \<Rightarrow> string"

definition validateManifest :: "json \<Rightarrow> string \<Rightarrow> error + unit" where
  "validateManifest manifest manifestPath =
     (case get_prop (Some manifest) ''origins'' of
        Inl e \<Rightarrow> Inl e
      | Inr origins \<Rightarrow>
          if \<not> truthy origins \<or> \<not> typeof_object origins then
            Inl (Error (''Invalid OpenNext manifest at '' @ manifestPath @
                        '': missing or invalid \"origins\" field.''))
          else
            (case get_prop (Some manifest) ''behaviors'' of
               Inl e \<Rightarrow> Inl e
             | Inr behaviors \<Rightarrow>
                 if \<not> truthy behaviors \<or> \<not> isArray behaviors then
                   Inl (Error (''Invalid OpenNext manifest at '' @ manifestPath @
                               '': missing or invalid \"behaviors\" field.''))
                 else
                   (case get_prop origins ''default'' of
                      Inl e \<Rightarrow> Inl e
                    | Inr d \<Rightarrow>
                        if \<not> truthy d then
                          Inl (Error (''Invalid OpenNext manifest at '' @ manifestPath @
                                      '': missing \"default\" origin.''))
                        else Inr ())))"

definition manifest_path :: "node \<Rightarrow> string \<Rightarrow> string" where
  "manifest_path env openNextPath = path_join env openNextPath ''open-next.output.json''"

definition not_found_message :: "string \<Rightarrow> string" where
  "not_found_message manifestPath =
     ''OpenNext manifest not found at '' @ manifestPath @ ''. '' @
     ''Run `npx @opennextjs/aws build` before `cdk synth`.''"

definition readManifest :: "node \<Rightarrow> string \<Rightarrow> error + json" where
  "readManifest env openNextPath =
     (let manifestPath = manifest_path env openNextPath in
      case files env manifestPath of
        None \<Rightarrow> Inl (Error (not_found_message manifestPath))
      | Some raw \<Rightarrow>
          (case JSON_parse env raw of
             Inl msg \<Rightarrow>
               Inl (Error (''Failed to parse OpenNext manifest at '' @ manifestPath @
                           '': '' @ msg))
           | Inr manifest \<Rightarrow>
               (case validateManifest manifest manifestPath of
                  Inl e \<Rightarrow> Inl e
                | Inr u \<Rightarrow> Inr manifest)))"

text \<open>\<^verbatim>\<open>p.startsWith(s)\<close> and \<^verbatim>\<open>p.slice(n)\<close> for \<open>0 \<le> n\<close>.\<close>

definition startsWith :: "string \<Rightarrow> string \<Rightarrow> bool" where
  "startsWith p s = (take (length s) p = s)"

definition slice :: "string \<Rightarrow> nat \<Rightarrow> string" where
  "slice p n = drop n p"

definition normalizeBundlePath :: "string \<Rightarrow> string" where
  "normalizeBundlePath p =
     (if startsWith p ''.open-next/'' then slice p (length ''.open-next/'') else p)"

section \<open>types.ts: the typed manifest\<close>

text \<open>
  After \<^verbatim>\<open>readManifest\<close> the construct reads the manifest at its declared type
  \<^verbatim>\<open>OpenNextManifest\<close>. The records keep the fields the construct reads; an optional
  field is an \<open>option\<close>. A \<^verbatim>\<open>Record<string, T>\<close> of the manifest is an association list:
  it denotes the object whose own keys are the first components and whose properties
  are read with \<open>map_of\<close>. The fields \<^verbatim>\<open>from\<close>, \<^verbatim>\<open>to\<close> and \<^verbatim>\<open>bundle\<close> carry a prime, their names
  being keywords here.
\<close>

record OpenNextCopyEntry =
  from' :: string
  to' :: string
  cached :: bool
  versionedSubDir :: "string option"

record OpenNextBaseFunction =
  handler :: string
  bundle' :: string

record OpenNextOrigin =
  type :: string
  copy :: "OpenNextCopyEntry list option"
  streaming :: "bool option"
  originPath :: "string option"

record OpenNextBehavior =
  pattern :: string
  origin :: "string option"
  edgeFunction :: "string option"

record OpenNextAdditionalProps =
  disableTagCache :: "bool option"
  disableIncrementalCache :: "bool option"
  initializationFunction :: "OpenNextBaseFunction option"

record OpenNextManifest =
  origins :: "(string \<times> OpenNextOrigin) list"
  behaviors :: "OpenNextBehavior list"
  additionalProps :: "OpenNextAdditionalProps option"
  edgeFunctions :: "(string \<times> OpenNextBaseFunction) list option"

text \<open>
  \<^verbatim>\<open>Object.keys\<close>: every own key once. JavaScript lists integer-like keys first; the
  model keeps the order of the list, and no statement below depends on the order.
\<close>

definition Object_keys :: "(string \<times> 'v) list \<Rightarrow> string list" where
  "Object_keys kvs = remdups (map fst kvs)"

definition reserved :: "string set" where
  "reserved = {''default'', ''s3'', ''imageOptimizer''}"

definition getSplitFunctionOrigins :: "OpenNextManifest \<Rightarrow> string list" where
  "getSplitFunctionOrigins manifest =
     filter (\<lambda>key. key \<notin> reserved) (Object_keys (origins manifest))"

definition hasInitializationFunction :: "OpenNextManifest \<Rightarrow> bool" where
  "hasInitializationFunction manifest =
     (case additionalProps manifest of
        None \<Rightarrow> False
      | Some a \<Rightarrow> initializationFunction a \<noteq> None)"

definition getAssetCopyEntries :: "OpenNextManifest \<Rightarrow> OpenNextCopyEntry list" where
  "getAssetCopyEntries manifest =
     (case map_of (origins manifest) ''s3'' of
        None \<Rightarrow> []
      | Some s3Origin \<Rightarrow>
          (case copy s3Origin of
             None \<Rightarrow> []
           | Some entries \<Rightarrow>
               map (\<lambda>entry. entry\<lparr>from' := normalizeBundlePath (from' entry)\<rparr>) entries))"

definition getS3OriginPath :: "OpenNextManifest \<Rightarrow> string option" where
  "getS3OriginPath manifest =
     (case map_of (origins manifest) ''s3'' of
        None \<Rightarrow> None
      | Some s3Origin \<Rightarrow> originPath s3Origin)"

section \<open>constants.ts and utils.ts\<close>

definition DEFAULT_PREFIX :: string where
  "DEFAULT_PREFIX = ''opennext''"

definition DEFAULT_CACHE_DEFAULT_TTL_SECONDS :: int where
  "DEFAULT_CACHE_DEFAULT_TTL_SECONDS = 0"

definition DEFAULT_CACHE_MAX_TTL_SECONDS :: int where
  "DEFAULT_CACHE_MAX_TTL_SECONDS = 31536000"

definition DEFAULT_CACHE_MIN_TTL_SECONDS :: int where
  "DEFAULT_CACHE_MIN_TTL_SECONDS = 0"

definition DEFAULT_HSTS_MAX_AGE :: int where
  "DEFAULT_HSTS_MAX_AGE = 63072000"

definition NEXT_CACHE_KEY_HEADERS :: "string list" where
  "NEXT_CACHE_KEY_HEADERS =
     [''rsc'', ''next-router-prefetch'', ''next-router-state-tree'',
      ''x-prerender-revalidate'', ''next-url'']"

text \<open>The construct always passes a prefix, so the \<^verbatim>\<open>??\<close> of \<^verbatim>\<open>resourceName\<close> never fires there.\<close>

definition resourceName :: "string option \<Rightarrow> string \<Rightarrow> string" where
  "resourceName prefix suffix =
     (case prefix of None \<Rightarrow> DEFAULT_PREFIX | Some p \<Rightarrow> p) @ ''-'' @ suffix"

text \<open>
  \<^verbatim>\<open>originKeyToSuffix\<close>: every character that is no letter or digit becomes a hyphen, a run
  of hyphens becomes one hyphen, and one leading and one trailing hyphen are removed.
\<close>

definition alphanumeric :: "char \<Rightarrow> bool" where
  "alphanumeric c =
     (c \<in> set ''abcdefghijklmnopqrstuvwxyzABCDEFGHIJKLMNOPQRSTUVWXYZ0123456789'')"

fun collapse_hyphens :: "string \<Rightarrow> string" where
  "collapse_hyphens (a # b # cs) =
     (if a = CHR ''-'' \<and> b = CHR ''-'' then collapse_hyphens (b # cs)
      else a # collapse_hyphens (b # cs))"
| "collapse_hyphens cs = cs"

definition strip_hyphens :: "string \<Rightarrow> string" where
  "strip_hyphens s =
     (let t = (if s \<noteq> [] \<and> hd s = CHR ''-'' then tl s else s)
      in if t \<noteq> [] \<and> last t = CHR ''-'' then butlast t else t)"

definition originKeyToSuffix :: "string \<Rightarrow> string" where
  "originKeyToSuffix originKey =
     strip_hyphens
       (collapse_hyphens (map (\<lambda>c. if alphanumeric c then c else CHR ''-'') originKey))"

section \<open>The resources the construct asks for\<close>

text \<open>
  The model records what the code asks the CDK to create: which resources, with which
  environment variables, grants and routing rules. A value that is only known at
  deploy time (a CDK token) is a constructor of its own.

  Three refusals of the framework are part of the model, because strings of the
  manifest and objects of the caller reach them unchecked: a Lambda function name that
  \<^verbatim>\<open>new lambda.Function\<close> does not accept, a construct id that is already taken in its
  scope, and a call of \<^verbatim>\<open>addEnvironment\<close> on a function that has no such method. The
  build directory is taken to hold every bundle the manifest names, the prefix to be a
  plain string, and a caller's \<^verbatim>\<open>existingFunction\<close> to be an object of its own with no
  function URL yet. The framework's validation of other resources (queues, policies,
  the distribution) and the properties of a Lambda function that no statement below
  reads (memory, timeout, runtime, architecture, tracing, log group) are left out.
\<close>

datatype bucket =
    AssetsBucket
  | ExistingBucket string

datatype table =
    Table string string
  | ExistingTable string

datatype url_token =
    ServerFunctionUrl string
  | ImageOptimizationUrl

text \<open>
  \<open>LazyJson m\<close> is \<^verbatim>\<open>cdk.Lazy.string({ produce: () => JSON.stringify(originMap) })\<close>: the
  JSON text of the object \<open>m\<close>, whose entry for a key \<open>k\<close> is \<^verbatim>\<open>{ url: ... }\<close>. Decoding
  the text gives \<open>m\<close> back.
\<close>

datatype env_value =
    Str string
  | BucketName bucket
  | StackRegion
  | QueueUrl
  | TableName table
  | LazyJson "string \<rightharpoonup> url_token"

datatype grant =
    BucketReadWrite
  | BucketRead
  | QueueSendMessages
  | TableReadWriteData

text \<open>
  A Lambda function as the construct sees it, a \<^verbatim>\<open>lambda.IFunction\<close>. \<open>imported\<close> tells a
  function that is no \<^verbatim>\<open>lambda.Function\<close> (one obtained by \<^verbatim>\<open>Function.fromFunctionArn\<close> and
  the like, an alias or a version): it has \<^verbatim>\<open>addFunctionUrl\<close> but no \<^verbatim>\<open>addEnvironment\<close>.
  Only a caller's \<^verbatim>\<open>existingFunction\<close> can be imported.
\<close>

record lambda_function =
  functionName :: string
  variables :: "string \<rightharpoonup> env_value"
  grants :: "grant list"
  imported :: bool

text \<open>
  \<^verbatim>\<open>new lambda.Function\<close> throws for a function name, when it is no token, that is longer
  than 64 characters or does not match \<^verbatim>\<open>/^[a-zA-Z0-9-_]+$/\<close>. Every name built here
  holds a hyphen, so the empty name does not occur.
\<close>

definition functionName_ok :: "string \<Rightarrow> bool" where
  "functionName_ok name =
     (length name \<le> 64
      \<and> list_all (\<lambda>c. alphanumeric c \<or> c = CHR ''-'' \<or> c = CHR ''_'') name)"

definition new_lambda_Function :: "lambda_function \<Rightarrow> error + lambda_function" where
  "new_lambda_Function props =
     (if functionName_ok (functionName props) then Inr props
      else Inl (ValidationError (functionName props)))"

datatype invoke_mode = RESPONSE_STREAM | BUFFERED

record function_url =
  url :: url_token
  invokeMode :: invoke_mode

record LambdaFunctionOptions =
  environment :: "(string \<rightharpoonup> string) option"
  existingFunction :: "lambda_function option"

text \<open>The spread \<^verbatim>\<open>...fnOpts?.environment\<close> as a map of variables.\<close>

definition spread_environment :: "LambdaFunctionOptions option \<Rightarrow> (string \<rightharpoonup> env_value)" where
  "spread_environment fnOpts =
     (case fnOpts of
        None \<Rightarrow> Map.empty
      | Some opts \<Rightarrow>
          (case environment opts of
             None \<Rightarrow> Map.empty
           | Some e \<Rightarrow> (\<lambda>k. map_option Str (e k))))"

text \<open>\<^verbatim>\<open>fn.addEnvironment(key, value)\<close> sets or replaces one variable.\<close>

definition addEnvironment :: "lambda_function \<Rightarrow> string \<Rightarrow> env_value \<Rightarrow> lambda_function" where
  "addEnvironment f key v = f\<lparr>variables := (variables f)(key \<mapsto> v)\<rparr>"

text \<open>
  \<^verbatim>\<open>(f as lambda.Function).addEnvironment(key, value)\<close>: the cast checks nothing, so on
  an imported function the call finds no method and throws a TypeError.
\<close>

definition cast_addEnvironment ::
  "lambda_function \<Rightarrow> string \<Rightarrow> env_value \<Rightarrow> error + lambda_function" where
  "cast_addEnvironment f key v =
     (if imported f then Inl TypeError else Inr (addEnvironment f key v))"

text \<open>
  Assignment \<^verbatim>\<open>obj[key] = value\<close> on a plain object used as a dictionary. The key
  \<^verbatim>\<open>__proto__\<close> reaches the setter inherited from \<^verbatim>\<open>Object.prototype\<close> and creates no own
  property; every other key used here does.
\<close>

definition js_set :: "(string \<rightharpoonup> 'v) \<Rightarrow> string \<Rightarrow> 'v \<Rightarrow> (string \<rightharpoonup> 'v)" where
  "js_set obj key v = (if key = ''__proto__'' then obj else obj(key \<mapsto> v))"

text \<open>\<^verbatim>\<open>Object.assign(target, source)\<close> assigns every own property of the source.\<close>

definition Object_assign :: "(string \<rightharpoonup> 'v) \<Rightarrow> (string \<rightharpoonup> 'v) \<Rightarrow> (string \<rightharpoonup> 'v)" where
  "Object_assign target source =
     (\<lambda>k. if k = ''__proto__'' then target k
          else (case source k of None \<Rightarrow> target k | Some v \<Rightarrow> Some v))"

section \<open>components/tag-cache-table.ts\<close>

record TagCacheOptions =
  disabled :: "bool option"
  existingTable :: "string option"
  billingMode :: "string option"

definition new_TagCacheTable :: "string \<Rightarrow> TagCacheOptions option \<Rightarrow> table option" where
  "new_TagCacheTable prefix options =
     (if (case options of None \<Rightarrow> False | Some opts \<Rightarrow> disabled opts = Some True) then None
      else
        (case (case options of None \<Rightarrow> None | Some opts \<Rightarrow> existingTable opts) of
           Some t \<Rightarrow> Some (ExistingTable t)
         | None \<Rightarrow>
             Some (Table (resourceName (Some prefix) ''tag-cache'')
                    (if (case options of None \<Rightarrow> None | Some opts \<Rightarrow> billingMode opts)
                          = Some ''PROVISIONED''
                     then ''PROVISIONED'' else ''PAY_PER_REQUEST''))))"

section \<open>components/server-function.ts\<close>

record ServerFunction =
  fn :: lambda_function
  functionUrl :: function_url

text \<open>
  The constructor. With \<^verbatim>\<open>existingFunction\<close> the caller's function is taken as it is and
  only gets a function URL. Otherwise the constructor calls \<^verbatim>\<open>new lambda.Function\<close> with the
  name \<^verbatim>\<open>prefix-suffix\<close>, where the suffix of a split function is its origin key as the
  manifest spells it, so the framework may refuse the name; then it adds the grants.
  Both paths read \<^verbatim>\<open>props.origin.streaming\<close> for the function URL, which throws a
  TypeError when the origin is \<^verbatim>\<open>undefined\<close>.
\<close>

definition new_ServerFunction ::
  "string \<Rightarrow> string \<Rightarrow> OpenNextOrigin option \<Rightarrow> bucket \<Rightarrow> table option \<Rightarrow>
   LambdaFunctionOptions option \<Rightarrow> bool \<Rightarrow> error + ServerFunction" where
  "new_ServerFunction prefix originKey origin' bucket tagCacheTable fnOpts disableIncrementalCache' =
     (case (case fnOpts of None \<Rightarrow> None | Some opts \<Rightarrow> existingFunction opts) of
        Some existing \<Rightarrow>
          (case origin' of
             None \<Rightarrow> Inl TypeError
           | Some orig \<Rightarrow>
               Inr \<lparr>fn = existing,
                    functionUrl =
                      \<lparr>url = ServerFunctionUrl originKey,
                       invokeMode = (if streaming orig = Some True
                                     then RESPONSE_STREAM else BUFFERED)\<rparr>\<rparr>)
      | None \<Rightarrow>
          (let suffix = (if originKey = ''default'' then ''server'' else originKey)
           in
           case new_lambda_Function
                  \<lparr>functionName = resourceName (Some prefix) suffix,
                   variables =
                     (if disableIncrementalCache' then Map.empty
                      else [''CACHE_BUCKET_NAME'' \<mapsto> BucketName bucket,
                            ''CACHE_BUCKET_KEY_PREFIX'' \<mapsto> Str ''_cache'',
                            ''CACHE_BUCKET_REGION'' \<mapsto> StackRegion])
                     ++ [''REVALIDATION_QUEUE_URL'' \<mapsto> QueueUrl,
                         ''REVALIDATION_QUEUE_REGION'' \<mapsto> StackRegion]
                     ++ (case tagCacheTable of
                           Some t \<Rightarrow> [''CACHE_DYNAMO_TABLE'' \<mapsto> TableName t]
                         | None \<Rightarrow> Map.empty)
                     ++ spread_environment fnOpts,
                   grants = [],
                   imported = False\<rparr> of
             Inl e \<Rightarrow> Inl e
           | Inr f \<Rightarrow>
               (case origin' of
                  None \<Rightarrow> Inl TypeError
                | Some orig \<Rightarrow>
                    Inr \<lparr>fn =
                           f\<lparr>grants :=
                               (if \<not> disableIncrementalCache' then [BucketReadWrite] else [])
                               @ [QueueSendMessages]
                               @ (case tagCacheTable of
                                    Some t \<Rightarrow> [TableReadWriteData]
                                  | None \<Rightarrow> [])\<rparr>,
                         functionUrl =
                           \<lparr>url = ServerFunctionUrl originKey,
                            invokeMode = (if streaming orig = Some True
                                          then RESPONSE_STREAM else BUFFERED)\<rparr>\<rparr>)))"

section \<open>components/revalidation.ts\<close>

record RevalidationQueueOptions =
  functionOptions :: "LambdaFunctionOptions option"

record Revalidation =
  queueName :: string
  dlqName :: string
  revalidationFn :: lambda_function

text \<open>
  The constructor: the two queues, then the consumer function, whose name
  \<^verbatim>\<open>new lambda.Function\<close> may refuse, then its grants and the table variable.
\<close>

definition new_Revalidation ::
  "string \<Rightarrow> bucket \<Rightarrow> table option \<Rightarrow> RevalidationQueueOptions option \<Rightarrow>
   error + Revalidation" where
  "new_Revalidation prefix bucket tagCacheTable options =
     (let fnOpts = (case options of None \<Rightarrow> None | Some opts \<Rightarrow> functionOptions opts)
      in
      case new_lambda_Function
             \<lparr>functionName = resourceName (Some prefix) ''revalidation'',
              variables =
                [''CACHE_BUCKET_NAME'' \<mapsto> BucketName bucket,
                 ''CACHE_BUCKET_KEY_PREFIX'' \<mapsto> Str ''_cache'',
                 ''CACHE_BUCKET_REGION'' \<mapsto> StackRegion]
                ++ spread_environment fnOpts,
              grants = [],
              imported = False\<rparr> of
        Inl e \<Rightarrow> Inl e
      | Inr f \<Rightarrow>
          (let f0 = f\<lparr>grants := [BucketReadWrite]\<rparr>;
               f1 = (case tagCacheTable of
                       None \<Rightarrow> f0
                     | Some t \<Rightarrow>
                         addEnvironment (f0\<lparr>grants := grants f0 @ [TableReadWriteData]\<rparr>)
                           ''CACHE_DYNAMO_TABLE'' (TableName t))
           in Inr \<lparr>queueName = resourceName (Some prefix) ''revalidation'' @ ''.fifo'',
                   dlqName = resourceName (Some prefix) ''revalidation-dlq'' @ ''.fifo'',
                   revalidationFn = f1\<rparr>))"

section \<open>components/tag-cache-seeder.ts\<close>

text \<open>
  \<open>deployTimestamp\<close> is the property of the custom resource, \<^verbatim>\<open>Date.now().toString()\<close>;
  the clock reading is an input of the model.
\<close>

record TagCacheSeeder =
  seederFn :: lambda_function
  deployTimestamp :: int

definition new_TagCacheSeeder ::
  "string \<Rightarrow> table \<Rightarrow> LambdaFunctionOptions option \<Rightarrow> int \<Rightarrow> error + TagCacheSeeder" where
  "new_TagCacheSeeder prefix tagCacheTable fnOpts now =
     (case new_lambda_Function
             \<lparr>functionName = resourceName (Some prefix) ''tag-cache-seeder'',
              variables =
                [''CACHE_DYNAMO_TABLE'' \<mapsto> TableName tagCacheTable,
                 ''CACHE_BUCKET_REGION'' \<mapsto> StackRegion]
                ++ spread_environment fnOpts,
              grants = [],
              imported = False\<rparr> of
        Inl e \<Rightarrow> Inl e
      | Inr f \<Rightarrow>
          Inr \<lparr>seederFn = f\<lparr>grants := [TableReadWriteData]\<rparr>, deployTimestamp = now\<rparr>)"

section \<open>components/image-optimization.ts\<close>

record ImageOptimization =
  imageFn :: lambda_function
  imageFunctionUrl :: url_token

definition new_ImageOptimization ::
  "string \<Rightarrow> bucket \<Rightarrow> LambdaFunctionOptions option \<Rightarrow> string option \<Rightarrow>
   error + ImageOptimization" where
  "new_ImageOptimization prefix bucket fnOpts assetKeyPrefix =
     (case (case fnOpts of None \<Rightarrow> None | Some opts \<Rightarrow> existingFunction opts) of
        Some existing \<Rightarrow> Inr \<lparr>imageFn = existing, imageFunctionUrl = ImageOptimizationUrl\<rparr>
      | None \<Rightarrow>
          (case new_lambda_Function
                  \<lparr>functionName = resourceName (Some prefix) ''image-optimization'',
                   variables =
                     [''BUCKET_NAME'' \<mapsto> BucketName bucket,
                      ''BUCKET_KEY_PREFIX'' \<mapsto>
                         Str (case assetKeyPrefix of None \<Rightarrow> [] | Some k \<Rightarrow> k)]
                     ++ spread_environment fnOpts,
                   grants = [],
                   imported = False\<rparr> of
             Inl e \<Rightarrow> Inl e
           | Inr f \<Rightarrow>
               Inr \<lparr>imageFn = f\<lparr>grants := [BucketRead]\<rparr>,
                    imageFunctionUrl = ImageOptimizationUrl\<rparr>))"

section \<open>components/distribution.ts\<close>

datatype cache_policy =
    CACHING_OPTIMIZED
  | ServerCachePolicy string int int int "string list"

datatype origin_request_policy =
    ServerOriginRequestPolicy string "string list"

text \<open>
  The response headers policy: its name, the HSTS max-age when the security headers
  are on, and the allowed origins when CORS is on.
\<close>

datatype response_headers_policy =
    ResponseHeadersPolicy string "int option" "string list option"

datatype cloudfront_function =
    HostHeaderRewrite string

datatype function_event_type = VIEWER_REQUEST

datatype function_association =
    FunctionAssociation cloudfront_function function_event_type

datatype origin_ref =
    S3BucketOrigin bucket "string option"
  | HttpOrigin url_token
  | CallerOrigin string

datatype viewer_protocol_policy = REDIRECT_TO_HTTPS | HTTPS_ONLY | VIEWER_ALLOW_ALL

datatype allowed_methods = ALLOW_GET_HEAD | ALLOW_GET_HEAD_OPTIONS | ALLOW_ALL

datatype cached_methods = CACHE_GET_HEAD | CACHE_GET_HEAD_OPTIONS

record BehaviorOptions =
  origin :: origin_ref
  viewerProtocolPolicy :: "viewer_protocol_policy option"
  allowedMethods :: "allowed_methods option"
  cachedMethods :: "cached_methods option"
  cachePolicy :: "cache_policy option"
  originRequestPolicy :: "origin_request_policy option"
  responseHeadersPolicy :: "response_headers_policy option"
  compress :: "bool option"
  functionAssociations :: "function_association list option"

record CachePolicyOptions =
  defaultTtl :: "int option"
  maxTtl :: "int option"
  minTtl :: "int option"
  additionalHeaders :: "string list option"

record DistributionOptions =
  hsts :: "bool option"
  hstsMaxAge :: "int option"
  cors :: "bool option"
  corsAllowOrigins :: "string list option"
  cachePolicyOptions :: "CachePolicyOptions option"
  additionalBehaviors :: "(string \<rightharpoonup> BehaviorOptions) option"

record Distribution =
  comment :: string
  defaultBehavior :: BehaviorOptions
  additionalBehaviors :: "string \<rightharpoonup> BehaviorOptions"

definition createCloudFrontFunction :: "string \<Rightarrow> cloudfront_function" where
  "createCloudFrontFunction prefix = HostHeaderRewrite (resourceName (Some prefix) ''host-rewrite'')"

definition createCachePolicy :: "DistributionOptions option \<Rightarrow> string \<Rightarrow> cache_policy" where
  "createCachePolicy opts prefix =
     (let cachePolicyOpts = (case opts of None \<Rightarrow> None | Some opt \<Rightarrow> cachePolicyOptions opt);
          pick = (\<lambda>field dflt. case cachePolicyOpts of
                     None \<Rightarrow> dflt
                   | Some c \<Rightarrow> (case field c of None \<Rightarrow> dflt | Some v \<Rightarrow> v))
      in ServerCachePolicy (resourceName (Some prefix) ''server-cache'')
           (pick defaultTtl DEFAULT_CACHE_DEFAULT_TTL_SECONDS)
           (pick maxTtl DEFAULT_CACHE_MAX_TTL_SECONDS)
           (pick minTtl DEFAULT_CACHE_MIN_TTL_SECONDS)
           (NEXT_CACHE_KEY_HEADERS @
              (case cachePolicyOpts of
                 None \<Rightarrow> []
               | Some c \<Rightarrow> (case additionalHeaders c of None \<Rightarrow> [] | Some hs \<Rightarrow> hs))))"

definition createOriginRequestPolicy :: "string \<Rightarrow> origin_request_policy" where
  "createOriginRequestPolicy prefix =
     ServerOriginRequestPolicy (resourceName (Some prefix) ''server-origin-request'')
       [''x-forwarded-host'', ''accept'', ''accept-language'']"

definition createResponseHeadersPolicy ::
  "string \<Rightarrow> DistributionOptions option \<Rightarrow> response_headers_policy" where
  "createResponseHeadersPolicy prefix opts =
     ResponseHeadersPolicy (resourceName (Some prefix) ''response-headers'')
       (if (case opts of None \<Rightarrow> None | Some opt \<Rightarrow> hsts opt) \<noteq> Some False
        then Some (case (case opts of None \<Rightarrow> None | Some opt \<Rightarrow> hstsMaxAge opt) of
                     None \<Rightarrow> DEFAULT_HSTS_MAX_AGE
                   | Some age \<Rightarrow> age)
        else None)
       (if (case opts of None \<Rightarrow> None | Some opt \<Rightarrow> cors opt) = Some True
        then Some (case (case opts of None \<Rightarrow> None | Some opt \<Rightarrow> corsAllowOrigins opt) of
                     None \<Rightarrow> [''*'']
                   | Some os \<Rightarrow> os)
        else None)"

text \<open>\<^verbatim>\<open>props.s3OriginPath ? { originPath: `/${...}` } : undefined\<close>: an empty path is falsy.\<close>

definition createS3Origin :: "bucket \<Rightarrow> string option \<Rightarrow> origin_ref" where
  "createS3Origin bucket s3OriginPath =
     S3BucketOrigin bucket
       (case s3OriginPath of
          None \<Rightarrow> None
        | Some path \<Rightarrow> (if path = [] then None else Some (''/'' @ path)))"

definition createServerOrigins ::
  "(string \<times> function_url) list \<Rightarrow> (string \<times> origin_ref) list" where
  "createServerOrigins serverFunctionUrls =
     map (\<lambda>(key, fnUrl). (key, HttpOrigin (url fnUrl))) serverFunctionUrls"

definition createImageOptimOrigin :: "url_token \<Rightarrow> origin_ref" where
  "createImageOptimOrigin imageOptimizationFunctionUrl = HttpOrigin imageOptimizationFunctionUrl"

definition createServerBehaviorOptions ::
  "origin_ref \<Rightarrow> cache_policy \<Rightarrow> origin_request_policy \<Rightarrow> response_headers_policy \<Rightarrow>
   cloudfront_function \<Rightarrow> BehaviorOptions" where
  "createServerBehaviorOptions defaultServerOrigin cachePol originRequestPol responseHeadersPol
     cfFunction =
     \<lparr>origin = defaultServerOrigin,
      viewerProtocolPolicy = Some REDIRECT_TO_HTTPS,
      allowedMethods = Some ALLOW_ALL,
      cachedMethods = Some CACHE_GET_HEAD_OPTIONS,
      cachePolicy = Some cachePol,
      originRequestPolicy = Some originRequestPol,
      responseHeadersPolicy = Some responseHeadersPol,
      compress = Some True,
      functionAssociations = Some [FunctionAssociation cfFunction VIEWER_REQUEST]\<rparr>"

text \<open>One turn of the loop of \<^verbatim>\<open>createAdditionalBehaviors\<close> over \<^verbatim>\<open>props.manifest.behaviors\<close>.\<close>

definition additionalBehavior ::
  "origin_ref \<Rightarrow> origin_ref \<Rightarrow> cache_policy \<Rightarrow> origin_request_policy \<Rightarrow> cloudfront_function \<Rightarrow>
   (string \<times> origin_ref) list \<Rightarrow> response_headers_policy \<Rightarrow>
   OpenNextBehavior \<Rightarrow> (string \<rightharpoonup> BehaviorOptions) \<Rightarrow> (string \<rightharpoonup> BehaviorOptions)" where
  "additionalBehavior s3Origin imageOptOrigin cachePol originRequestPol cfFunction serverOrigins
     responseHeadersPol behavior acc =
     (if pattern behavior = ''*'' \<or> pattern behavior = ''/*'' then acc
      else
        (let originName = OpenNextBehavior.origin behavior in
         if originName = Some ''s3'' then
           js_set acc (pattern behavior)
             \<lparr>origin = s3Origin,
              viewerProtocolPolicy = Some REDIRECT_TO_HTTPS,
              allowedMethods = Some ALLOW_GET_HEAD,
              cachedMethods = Some CACHE_GET_HEAD,
              cachePolicy = Some CACHING_OPTIMIZED,
              originRequestPolicy = None,
              responseHeadersPolicy = None,
              compress = Some True,
              functionAssociations = None\<rparr>
         else if originName = Some ''imageOptimizer'' then
           js_set acc (pattern behavior)
             \<lparr>origin = imageOptOrigin,
              viewerProtocolPolicy = Some REDIRECT_TO_HTTPS,
              allowedMethods = Some ALLOW_GET_HEAD_OPTIONS,
              cachedMethods = Some CACHE_GET_HEAD_OPTIONS,
              cachePolicy = Some cachePol,
              originRequestPolicy = Some originRequestPol,
              responseHeadersPolicy = None,
              compress = Some True,
              functionAssociations = Some [FunctionAssociation cfFunction VIEWER_REQUEST]\<rparr>
         else
           (case originName of
              None \<Rightarrow> acc
            | Some name \<Rightarrow>
                if name = [] then acc
                else
                  (case map_of serverOrigins name of
                     None \<Rightarrow> acc
                   | Some splitOrigin \<Rightarrow>
                       js_set acc (pattern behavior)
                         \<lparr>origin = splitOrigin,
                          viewerProtocolPolicy = Some REDIRECT_TO_HTTPS,
                          allowedMethods = Some ALLOW_ALL,
                          cachedMethods = Some CACHE_GET_HEAD_OPTIONS,
                          cachePolicy = Some cachePol,
                          originRequestPolicy = Some originRequestPol,
                          responseHeadersPolicy = Some responseHeadersPol,
                          compress = Some True,
                          functionAssociations =
                            Some [FunctionAssociation cfFunction VIEWER_REQUEST]\<rparr>))))"

definition createAdditionalBehaviors ::
  "OpenNextBehavior list \<Rightarrow> origin_ref \<Rightarrow> origin_ref \<Rightarrow> cache_policy \<Rightarrow> origin_request_policy \<Rightarrow>
   cloudfront_function \<Rightarrow> (string \<times> origin_ref) list \<Rightarrow> response_headers_policy \<Rightarrow>
   (string \<rightharpoonup> BehaviorOptions)" where
  "createAdditionalBehaviors manifestBehaviors s3Origin imageOptOrigin cachePol originRequestPol
     cfFunction serverOrigins responseHeadersPol =
     fold (additionalBehavior s3Origin imageOptOrigin cachePol originRequestPol cfFunction
             serverOrigins responseHeadersPol)
       manifestBehaviors Map.empty"

text \<open>
  The constructor of \<^verbatim>\<open>DistributionComponent\<close>. The message of its only throw is
  shortened here.
\<close>

definition new_DistributionComponent ::
  "string \<Rightarrow> OpenNextManifest \<Rightarrow> bucket \<Rightarrow> (string \<times> function_url) list \<Rightarrow> url_token \<Rightarrow>
   DistributionOptions option \<Rightarrow> string option \<Rightarrow> error + Distribution" where
  "new_DistributionComponent prefix manifest bucket serverFunctionUrls
     imageOptimizationFunctionUrl options s3OriginPath =
     (let cfFunction = createCloudFrontFunction prefix;
          cachePol = createCachePolicy options prefix;
          originRequestPol = createOriginRequestPolicy prefix;
          responseHeadersPol = createResponseHeadersPolicy prefix options;
          s3Origin = createS3Origin bucket s3OriginPath;
          serverOrigins = createServerOrigins serverFunctionUrls
      in
      case map_of serverOrigins ''default'' of
        None \<Rightarrow> Inl (Error ''Missing default server origin'')
      | Some defaultServerOrigin \<Rightarrow>
          (let imageOptOrigin = createImageOptimOrigin imageOptimizationFunctionUrl;
               serverBehaviorOptions =
                 createServerBehaviorOptions defaultServerOrigin cachePol originRequestPol
                   responseHeadersPol cfFunction;
               fromManifest =
                 createAdditionalBehaviors (behaviors manifest) s3Origin imageOptOrigin cachePol
                   originRequestPol cfFunction serverOrigins responseHeadersPol;
               merged =
                 (case (case options of
                          None \<Rightarrow> None
                        | Some opt \<Rightarrow> DistributionOptions.additionalBehaviors opt) of
                    None \<Rightarrow> fromManifest
                  | Some extra \<Rightarrow> Object_assign fromManifest extra)
           in Inr \<lparr>comment = resourceName (Some prefix) ''distribution'',
                   defaultBehavior = serverBehaviorOptions,
                   additionalBehaviors = merged\<rparr>))"

section \<open>index.ts: the construct\<close>

record InitializationFunctionOptions =
  functionOptions :: "LambdaFunctionOptions option"

record OpenNextCdkProps =
  prefix :: "string option"
  serverFunction :: "LambdaFunctionOptions option"
  imageOptimizationFunction :: "LambdaFunctionOptions option"
  splitFunctions :: "(string \<rightharpoonup> LambdaFunctionOptions) option"
  distribution :: "DistributionOptions option"
  revalidation :: "RevalidationQueueOptions option"
  tagCache :: "TagCacheOptions option"
  initializationFunction :: "InitializationFunctionOptions option"
  assetsBucket :: "string option"

text \<open>
  The construct after its constructor has run: the resources it holds. \<open>servers\<close> is the
  content of the two maps \<^verbatim>\<open>serverFunctions\<close> and \<^verbatim>\<open>serverFunctionUrls\<close>, which have the
  same keys in the same order; \<open>warnings\<close> are the annotations added to the construct.
\<close>

record OpenNextCdk =
  bucket :: bucket
  tagCacheTable :: "table option"
  revalidation :: Revalidation
  tagCacheSeeder :: "TagCacheSeeder option"
  warnings :: "(string \<times> string) list"
  servers :: "(string \<times> ServerFunction) list"
  imageOptimization :: ImageOptimization
  distribution :: Distribution

text \<open>\<^verbatim>\<open>map.set(key, value)\<close> on a JavaScript \<^verbatim>\<open>Map\<close>, kept in insertion order.\<close>

fun Map_set :: "string \<Rightarrow> 'v \<Rightarrow> (string \<times> 'v) list \<Rightarrow> (string \<times> 'v) list" where
  "Map_set k v [] = [(k, v)]"
| "Map_set k v ((k', v') # rest) =
     (if k' = k then (k, v) # rest else (k', v') # Map_set k v rest)"

definition createAssetsBucket :: "OpenNextCdkProps \<Rightarrow> bucket" where
  "createAssetsBucket props =
     (case assetsBucket props of Some b \<Rightarrow> ExistingBucket b | None \<Rightarrow> AssetsBucket)"

text \<open>
  \<^verbatim>\<open>props.splitFunctions?.[originKey]\<close>. A key that only \<^verbatim>\<open>Object.prototype\<close> defines
  yields an object with none of the option fields, which the callee treats like
  \<^verbatim>\<open>undefined\<close>.
\<close>

definition splitFnOpts :: "OpenNextCdkProps \<Rightarrow> string \<Rightarrow> LambdaFunctionOptions option" where
  "splitFnOpts props originKey =
     (case splitFunctions props of None \<Rightarrow> None | Some sf \<Rightarrow> sf originKey)"

text \<open>
  The id under which the construct creates the server function of a split origin,
  \<^verbatim>\<open>`ServerFunction-${suffix}`\<close>. The default server function has the id
  \<^verbatim>\<open>ServerFunction\<close>, and no other child of the construct has an id that begins with
  \<^verbatim>\<open>ServerFunction-\<close>, so such an id can only be taken by an earlier turn of the loop.
\<close>

definition split_id :: "string \<Rightarrow> string" where
  "split_id originKey = ''ServerFunction-'' @ originKeyToSuffix originKey"

text \<open>
  The loop over \<^verbatim>\<open>splitOriginKeys\<close>; \<open>ids\<close> are the ids of the server functions created so
  far and \<open>acc\<close> is the content of the two maps so far. \<^verbatim>\<open>new ServerFunction(this, id, ...)\<close>
  first registers the id with the scope, which throws when the id is taken.
\<close>

fun split_functions ::
  "string \<Rightarrow> OpenNextManifest \<Rightarrow> OpenNextCdkProps \<Rightarrow> bucket \<Rightarrow> table option \<Rightarrow> bool \<Rightarrow>
   string list \<Rightarrow> string list \<Rightarrow> (string \<times> ServerFunction) list \<Rightarrow>
   error + (string \<times> ServerFunction) list" where
  "split_functions pre manifest props bkt tbl noIncremental [] ids acc = Inr acc"
| "split_functions pre manifest props bkt tbl noIncremental (originKey # rest) ids acc =
     (case map_of (origins manifest) originKey of
        None \<Rightarrow> Inl TypeError
      | Some orig \<Rightarrow>
          if type orig \<noteq> ''function'' then
            split_functions pre manifest props bkt tbl noIncremental rest ids acc
          else if split_id originKey \<in> set ids then
            Inl (ConstructExists (split_id originKey))
          else
            (case new_ServerFunction pre originKey (Some orig) bkt tbl
                    (splitFnOpts props originKey) noIncremental of
               Inl e \<Rightarrow> Inl e
             | Inr splitServer \<Rightarrow>
                 split_functions pre manifest props bkt tbl noIncremental rest
                   (split_id originKey # ids) (Map_set originKey splitServer acc)))"

text \<open>The \<^verbatim>\<open>forEach\<close> that fills \<^verbatim>\<open>originMap\<close> from \<^verbatim>\<open>serverFunctionUrls\<close>.\<close>

definition originMap :: "(string \<times> ServerFunction) list \<Rightarrow> (string \<rightharpoonup> url_token)" where
  "originMap serverFunctionUrls =
     fold (\<lambda>(key, s) m. if key \<noteq> ''default'' then js_set m key (url (functionUrl s)) else m)
       serverFunctionUrls Map.empty"

definition edge_functions_warning :: "string \<times> string" where
  "edge_functions_warning =
     (''@open-next-cdk/edge-functions-unsupported'',
      ''Edge functions found in manifest but not yet supported. '' @
      ''Behaviors referencing edge functions will be skipped.'')"

text \<open>The constants the constructor computes before it creates the server functions.\<close>

definition prefix_of :: "OpenNextCdkProps \<Rightarrow> string" where
  "prefix_of props = (case prefix props of None \<Rightarrow> DEFAULT_PREFIX | Some p \<Rightarrow> p)"

definition disableTagCache_of :: "OpenNextManifest \<Rightarrow> OpenNextCdkProps \<Rightarrow> bool" where
  "disableTagCache_of manifest props =
     ((case tagCache props of None \<Rightarrow> None | Some tc \<Rightarrow> disabled tc) = Some True
      \<or> (case additionalProps manifest of None \<Rightarrow> None | Some a \<Rightarrow> disableTagCache a)
          = Some True)"

definition disableIncrementalCache_of :: "OpenNextManifest \<Rightarrow> bool" where
  "disableIncrementalCache_of manifest =
     ((case additionalProps manifest of None \<Rightarrow> None | Some a \<Rightarrow> disableIncrementalCache a)
        = Some True)"

text \<open>Step 1: \<^verbatim>\<open>{ ...props.tagCache, disabled: true }\<close> when the tag cache is disabled.\<close>

definition tagCache_table :: "OpenNextManifest \<Rightarrow> OpenNextCdkProps \<Rightarrow> table option" where
  "tagCache_table manifest props =
     new_TagCacheTable (prefix_of props)
       (if disableTagCache_of manifest props then
          Some (case tagCache props of
                  None \<Rightarrow> \<lparr>disabled = Some True, existingTable = None, billingMode = None\<rparr>
                | Some tc \<Rightarrow> tc\<lparr>disabled := Some True\<rparr>)
        else tagCache props)"

text \<open>Step 3b: the seeder, when there is a table and an initialization function.\<close>

definition tagCache_seeder ::
  "OpenNextManifest \<Rightarrow> OpenNextCdkProps \<Rightarrow> int \<Rightarrow> error + TagCacheSeeder option" where
  "tagCache_seeder manifest props now =
     (case tagCache_table manifest props of
        None \<Rightarrow> Inr None
      | Some t \<Rightarrow>
          if hasInitializationFunction manifest then
            (case new_TagCacheSeeder (prefix_of props) t
                    (case OpenNextCdkProps.initializationFunction props of
                       None \<Rightarrow> None
                     | Some i \<Rightarrow> InitializationFunctionOptions.functionOptions i)
                    now of
               Inl e \<Rightarrow> Inl e
             | Inr seeder \<Rightarrow> Inr (Some seeder))
          else Inr None)"

text \<open>Step 3c: the warning about edge functions.\<close>

definition edge_warnings :: "OpenNextManifest \<Rightarrow> (string \<times> string) list" where
  "edge_warnings manifest =
     (if (case edgeFunctions manifest of
            None \<Rightarrow> False
          | Some ef \<Rightarrow> length (Object_keys ef) > 0)
      then [edge_functions_warning] else [])"

text \<open>
  The constructor of \<^verbatim>\<open>OpenNextCdk\<close>, from the manifest that \<^verbatim>\<open>readManifest\<close> returned,
  the caller's props and the reading of the clock. Each step that can throw ends the
  constructor with what it throws. The parts that no statement below reads (WAF, log
  pipeline, asset upload, alarms, DNS, warmer, stack outputs) are left out.
\<close>

definition new_OpenNextCdk :: "OpenNextManifest \<Rightarrow> OpenNextCdkProps \<Rightarrow> int \<Rightarrow> error + OpenNextCdk" where
  "new_OpenNextCdk manifest props now =
     (let pre = prefix_of props;
          s3OriginPath = getS3OriginPath manifest;
          tbl = tagCache_table manifest props;
          bkt = createAssetsBucket props;
          warns = edge_warnings manifest;
          disableIncrementalCache' = disableIncrementalCache_of manifest;
          splitOriginKeys = getSplitFunctionOrigins manifest
      in
      case new_Revalidation pre bkt tbl (OpenNextCdkProps.revalidation props) of
        Inl e \<Rightarrow> Inl e
      | Inr reval \<Rightarrow>
     (case tagCache_seeder manifest props now of
        Inl e \<Rightarrow> Inl e
      | Inr seeder \<Rightarrow>
     (case new_ServerFunction pre ''default'' (map_of (origins manifest) ''default'') bkt tbl
             (serverFunction props) disableIncrementalCache' of
        Inl e \<Rightarrow> Inl e
      | Inr defaultServer \<Rightarrow>
     (case split_functions pre manifest props bkt tbl disableIncrementalCache'
             splitOriginKeys [''ServerFunction''] (Map_set ''default'' defaultServer []) of
        Inl e \<Rightarrow> Inl e
      | Inr serverFunctionUrls \<Rightarrow>
     (case (if length splitOriginKeys > 0 then
              (case cast_addEnvironment (fn defaultServer) ''OPEN_NEXT_ORIGIN''
                      (LazyJson (originMap serverFunctionUrls)) of
                 Inl e \<Rightarrow> Inl e
               | Inr f \<Rightarrow>
                   Inr (Map_set ''default'' (defaultServer\<lparr>fn := f\<rparr>) serverFunctionUrls))
            else Inr serverFunctionUrls) of
        Inl e \<Rightarrow> Inl e
      | Inr injected \<Rightarrow>
     (case new_ImageOptimization pre bkt (imageOptimizationFunction props) s3OriginPath of
        Inl e \<Rightarrow> Inl e
      | Inr imageOpt \<Rightarrow>
     (case new_DistributionComponent pre manifest bkt
             (map (\<lambda>(key, s). (key, functionUrl s)) serverFunctionUrls)
             (imageFunctionUrl imageOpt) (OpenNextCdkProps.distribution props)
             s3OriginPath of
        Inl e \<Rightarrow> Inl e
      | Inr distr \<Rightarrow>
          Inr \<lparr>bucket = bkt,
               tagCacheTable = tbl,
               revalidation = reval,
               tagCacheSeeder = seeder,
               warnings = warns,
               servers = injected,
               imageOptimization = imageOpt,
               distribution = distr\<rparr>)))))))"

section \<open>Notions used to state the properties\<close>

text \<open>A manifest that \<^verbatim>\<open>readManifest\<close> accepts has a default origin.\<close>

definition valid_manifest :: "OpenNextManifest \<Rightarrow> bool" where
  "valid_manifest manifest = (map_of (origins manifest) ''default'' \<noteq> None)"

text \<open>
  What the constructors of the components return when they return: the function as
  \<^verbatim>\<open>new lambda.Function\<close> was asked for it, with the grants added, or the caller's
  \<^verbatim>\<open>existingFunction\<close>. The lemmas \<open>new_ServerFunction_Some\<close>, \<open>new_Revalidation_eq\<close>,
  \<open>tagCache_seeder_eq\<close> and \<open>new_ImageOptimization_eq\<close> below tie them to the constructors.
\<close>

definition ServerFunction_fields ::
  "string \<Rightarrow> string \<Rightarrow> OpenNextOrigin \<Rightarrow> bucket \<Rightarrow> table option \<Rightarrow>
   LambdaFunctionOptions option \<Rightarrow> bool \<Rightarrow> ServerFunction" where
  "ServerFunction_fields pre originKey orig bkt tbl fnOpts disableIncrementalCache' =
     (let furl = \<lparr>url = ServerFunctionUrl originKey,
                  invokeMode = (if streaming orig = Some True
                                then RESPONSE_STREAM else BUFFERED)\<rparr>
      in
      case (case fnOpts of None \<Rightarrow> None | Some opts \<Rightarrow> existingFunction opts) of
        Some existing \<Rightarrow> \<lparr>fn = existing, functionUrl = furl\<rparr>
      | None \<Rightarrow>
          (let suffix = (if originKey = ''default'' then ''server'' else originKey)
           in
           \<lparr>fn =
              \<lparr>functionName = resourceName (Some pre) suffix,
               variables =
                 (if disableIncrementalCache' then Map.empty
                  else [''CACHE_BUCKET_NAME'' \<mapsto> BucketName bkt,
                        ''CACHE_BUCKET_KEY_PREFIX'' \<mapsto> Str ''_cache'',
                        ''CACHE_BUCKET_REGION'' \<mapsto> StackRegion])
                 ++ [''REVALIDATION_QUEUE_URL'' \<mapsto> QueueUrl,
                     ''REVALIDATION_QUEUE_REGION'' \<mapsto> StackRegion]
                 ++ (case tbl of
                       Some t \<Rightarrow> [''CACHE_DYNAMO_TABLE'' \<mapsto> TableName t]
                     | None \<Rightarrow> Map.empty)
                 ++ spread_environment fnOpts,
               grants =
                 (if \<not> disableIncrementalCache' then [BucketReadWrite] else [])
                 @ [QueueSendMessages]
                 @ (case tbl of
                      Some t \<Rightarrow> [TableReadWriteData]
                    | None \<Rightarrow> []),
               imported = False\<rparr>,
            functionUrl = furl\<rparr>))"

definition Revalidation_fields ::
  "string \<Rightarrow> bucket \<Rightarrow> table option \<Rightarrow> RevalidationQueueOptions option \<Rightarrow> Revalidation" where
  "Revalidation_fields pre bkt tbl options =
     (let fnOpts = (case options of
                      None \<Rightarrow> None
                    | Some opts \<Rightarrow> RevalidationQueueOptions.functionOptions opts);
          f0 = \<lparr>functionName = resourceName (Some pre) ''revalidation'',
                variables =
                  [''CACHE_BUCKET_NAME'' \<mapsto> BucketName bkt,
                   ''CACHE_BUCKET_KEY_PREFIX'' \<mapsto> Str ''_cache'',
                   ''CACHE_BUCKET_REGION'' \<mapsto> StackRegion]
                  ++ spread_environment fnOpts,
                grants = [BucketReadWrite],
                imported = False\<rparr>;
          f1 = (case tbl of
                  None \<Rightarrow> f0
                | Some t \<Rightarrow>
                    addEnvironment (f0\<lparr>grants := grants f0 @ [TableReadWriteData]\<rparr>)
                      ''CACHE_DYNAMO_TABLE'' (TableName t))
      in \<lparr>queueName = resourceName (Some pre) ''revalidation'' @ ''.fifo'',
          dlqName = resourceName (Some pre) ''revalidation-dlq'' @ ''.fifo'',
          revalidationFn = f1\<rparr>)"

definition TagCacheSeeder_fields ::
  "string \<Rightarrow> table \<Rightarrow> LambdaFunctionOptions option \<Rightarrow> int \<Rightarrow> TagCacheSeeder" where
  "TagCacheSeeder_fields pre tbl fnOpts now =
     \<lparr>seederFn =
        \<lparr>functionName = resourceName (Some pre) ''tag-cache-seeder'',
         variables =
           [''CACHE_DYNAMO_TABLE'' \<mapsto> TableName tbl,
            ''CACHE_BUCKET_REGION'' \<mapsto> StackRegion]
           ++ spread_environment fnOpts,
         grants = [TableReadWriteData],
         imported = False\<rparr>,
      deployTimestamp = now\<rparr>"

definition ImageOptimization_fields ::
  "string \<Rightarrow> bucket \<Rightarrow> LambdaFunctionOptions option \<Rightarrow> string option \<Rightarrow> ImageOptimization" where
  "ImageOptimization_fields pre bkt fnOpts assetKeyPrefix =
     (case (case fnOpts of None \<Rightarrow> None | Some opts \<Rightarrow> existingFunction opts) of
        Some existing \<Rightarrow> \<lparr>imageFn = existing, imageFunctionUrl = ImageOptimizationUrl\<rparr>
      | None \<Rightarrow>
          \<lparr>imageFn =
             \<lparr>functionName = resourceName (Some pre) ''image-optimization'',
              variables =
                [''BUCKET_NAME'' \<mapsto> BucketName bkt,
                 ''BUCKET_KEY_PREFIX'' \<mapsto>
                    Str (case assetKeyPrefix of None \<Rightarrow> [] | Some k \<Rightarrow> k)]
                ++ spread_environment fnOpts,
              grants = [BucketRead],
              imported = False\<rparr>,
           imageFunctionUrl = ImageOptimizationUrl\<rparr>)"

text \<open>
  What one turn of the loop over \<^verbatim>\<open>splitOriginKeys\<close> adds to the maps when it does not
  throw: an entry when the key's origin is of type \<^verbatim>\<open>function\<close>, nothing otherwise.
\<close>

definition split_entry ::
  "string \<Rightarrow> OpenNextManifest \<Rightarrow> OpenNextCdkProps \<Rightarrow> bucket \<Rightarrow> table option \<Rightarrow> bool \<Rightarrow>
   string \<Rightarrow> (string \<times> ServerFunction) option" where
  "split_entry pre manifest props bkt tbl noIncremental originKey =
     (case map_of (origins manifest) originKey of
        None \<Rightarrow> None
      | Some orig \<Rightarrow>
          if type orig = ''function''
          then Some (originKey,
                     ServerFunction_fields pre originKey orig bkt tbl
                       (splitFnOpts props originKey) noIncremental)
          else None)"

text \<open>
  The server functions the constructor builds when nothing throws: the default one
  before the origin map is injected, and the entries the loop adds in the order of
  \<^verbatim>\<open>splitOriginKeys\<close>.
\<close>

definition default_server :: "OpenNextManifest \<Rightarrow> OpenNextCdkProps \<Rightarrow> OpenNextOrigin \<Rightarrow> ServerFunction" where
  "default_server m p d0 =
     ServerFunction_fields (prefix_of p) ''default'' d0 (createAssetsBucket p)
       (tagCache_table m p) (serverFunction p) (disableIncrementalCache_of m)"

definition split_servers :: "OpenNextManifest \<Rightarrow> OpenNextCdkProps \<Rightarrow> (string \<times> ServerFunction) list" where
  "split_servers m p =
     List.map_filter
       (split_entry (prefix_of p) m p (createAssetsBucket p) (tagCache_table m p)
          (disableIncrementalCache_of m))
       (getSplitFunctionOrigins m)"

text \<open>The content of \<^verbatim>\<open>serverOrigins\<close> in the distribution component.\<close>

definition server_origins :: "OpenNextManifest \<Rightarrow> OpenNextCdkProps \<Rightarrow> (string \<times> origin_ref) list" where
  "server_origins m p =
     (''default'', HttpOrigin (ServerFunctionUrl ''default''))
       # map (\<lambda>(k, s). (k, HttpOrigin (url (functionUrl s)))) (split_servers m p)"

text \<open>The rules made from the manifest, and the rules the caller passes in.\<close>

definition manifest_rules :: "OpenNextManifest \<Rightarrow> OpenNextCdkProps \<Rightarrow> (string \<rightharpoonup> BehaviorOptions)" where
  "manifest_rules m p =
     createAdditionalBehaviors (behaviors m)
       (createS3Origin (createAssetsBucket p) (getS3OriginPath m))
       (createImageOptimOrigin ImageOptimizationUrl)
       (createCachePolicy (OpenNextCdkProps.distribution p) (prefix_of p))
       (createOriginRequestPolicy (prefix_of p))
       (createCloudFrontFunction (prefix_of p))
       (server_origins m p)
       (createResponseHeadersPolicy (prefix_of p) (OpenNextCdkProps.distribution p))"

definition caller_rules :: "OpenNextCdkProps \<Rightarrow> (string \<rightharpoonup> BehaviorOptions)" where
  "caller_rules p =
     (case OpenNextCdkProps.distribution p of
        None \<Rightarrow> Map.empty
      | Some opt \<Rightarrow>
          (case DistributionOptions.additionalBehaviors opt of
             None \<Rightarrow> Map.empty
           | Some extra \<Rightarrow> extra))"

definition default_rule :: "OpenNextCdkProps \<Rightarrow> BehaviorOptions" where
  "default_rule p =
     \<lparr>origin = HttpOrigin (ServerFunctionUrl ''default''),
      viewerProtocolPolicy = Some REDIRECT_TO_HTTPS,
      allowedMethods = Some ALLOW_ALL,
      cachedMethods = Some CACHE_GET_HEAD_OPTIONS,
      cachePolicy = Some (createCachePolicy (OpenNextCdkProps.distribution p) (prefix_of p)),
      originRequestPolicy = Some (createOriginRequestPolicy (prefix_of p)),
      responseHeadersPolicy =
        Some (createResponseHeadersPolicy (prefix_of p) (OpenNextCdkProps.distribution p)),
      compress = Some True,
      functionAssociations =
        Some [FunctionAssociation (createCloudFrontFunction (prefix_of p)) VIEWER_REQUEST]\<rparr>"

definition catch_all :: "OpenNextBehavior \<Rightarrow> bool" where
  "catch_all b = (pattern b = ''*'' \<or> pattern b = ''/*'')"

text \<open>
  The origin keys of the spec: the compute-typed keys beyond the three reserved ones,
  and all keys beyond the three reserved ones.
\<close>

definition compute_split_keys :: "OpenNextManifest \<Rightarrow> string set" where
  "compute_split_keys manifest =
     {k. k \<notin> reserved
         \<and> (\<exists>orig. map_of (origins manifest) k = Some orig \<and> type orig = ''function'')}"

definition non_reserved_keys :: "OpenNextManifest \<Rightarrow> string set" where
  "non_reserved_keys m = {k \<in> fst ` set (origins m). k \<notin> reserved}"

definition compute_typed :: "OpenNextManifest \<Rightarrow> string \<Rightarrow> bool" where
  "compute_typed m k = (\<exists>orig. map_of (origins m) k = Some orig \<and> type orig = ''function'')"

text \<open>
  The role the spec's classifier gives an origin key (spec 4.2), and the role a
  behavior entry resolves to through its \<^verbatim>\<open>origin\<close> reference. An entry that only names an
  edge function has no \<^verbatim>\<open>origin\<close>; a name that is only an edge function is no origin key.
\<close>

datatype OriginRole = StaticAssets | ImageOptimizer | DefaultCompute | SplitCompute string

definition origin_role :: "OpenNextManifest \<Rightarrow> string \<Rightarrow> OriginRole option" where
  "origin_role m key =
     (if key = ''s3'' then Some StaticAssets
      else if key = ''imageOptimizer'' then Some ImageOptimizer
      else if key = ''default'' then Some DefaultCompute
      else (case map_of (origins m) key of
              None \<Rightarrow> None
            | Some orig \<Rightarrow> if type orig = ''function'' then Some (SplitCompute key) else None))"

definition behavior_role :: "OpenNextManifest \<Rightarrow> OpenNextBehavior \<Rightarrow> OriginRole option" where
  "behavior_role m b =
     (case OpenNextBehavior.origin b of None \<Rightarrow> None | Some key \<Rightarrow> origin_role m key)"

definition edge_functions_declared :: "OpenNextManifest \<Rightarrow> bool" where
  "edge_functions_declared m =
     (case edgeFunctions m of None \<Rightarrow> False | Some ef \<Rightarrow> ef \<noteq> [])"

text \<open>The resolved flags in the words of the spec (4.3).\<close>

definition tagCacheDisabled :: "OpenNextManifest \<Rightarrow> OpenNextCdkProps \<Rightarrow> bool" where
  "tagCacheDisabled m p =
     ((case tagCache p of None \<Rightarrow> False | Some tc \<Rightarrow> disabled tc = Some True)
      \<or> (case additionalProps m of None \<Rightarrow> False | Some a \<Rightarrow> disableTagCache a = Some True))"

definition seederEligible :: "OpenNextManifest \<Rightarrow> OpenNextCdkProps \<Rightarrow> bool" where
  "seederEligible m p =
     (\<not> tagCacheDisabled m p
      \<and> (case additionalProps m of
            None \<Rightarrow> False
          | Some a \<Rightarrow> OpenNextAdditionalProps.initializationFunction a \<noteq> None))"

text \<open>The seeder of a build in which nothing throws.\<close>

definition seeder_fields ::
  "OpenNextManifest \<Rightarrow> OpenNextCdkProps \<Rightarrow> int \<Rightarrow> TagCacheSeeder option" where
  "seeder_fields manifest props now =
     (case tagCache_table manifest props of
        None \<Rightarrow> None
      | Some t \<Rightarrow>
          if hasInitializationFunction manifest then
            Some (TagCacheSeeder_fields (prefix_of props) t
                    (case OpenNextCdkProps.initializationFunction props of
                       None \<Rightarrow> None
                     | Some i \<Rightarrow> InitializationFunctionOptions.functionOptions i)
                    now)
          else None)"

text \<open>
  The inputs on which none of the framework's three refusals strikes. The construct
  creates a function itself unless the caller passes an \<^verbatim>\<open>existingFunction\<close> for it;
  \<open>names_accepted\<close> says that every function it creates gets a name that
  \<^verbatim>\<open>new lambda.Function\<close> accepts, \<open>ids_distinct\<close> that no two split functions get the same
  construct id, and \<open>origin_map_settable\<close> that the default function is no imported one
  when the origin map is to be set on it.
\<close>

definition creates_function :: "LambdaFunctionOptions option \<Rightarrow> bool" where
  "creates_function fnOpts =
     ((case fnOpts of None \<Rightarrow> None | Some opts \<Rightarrow> existingFunction opts) = None)"

definition names_accepted :: "OpenNextManifest \<Rightarrow> OpenNextCdkProps \<Rightarrow> bool" where
  "names_accepted m p =
     (functionName_ok (resourceName (Some (prefix_of p)) ''revalidation'')
      \<and> (seederEligible m p \<longrightarrow>
            functionName_ok (resourceName (Some (prefix_of p)) ''tag-cache-seeder''))
      \<and> (creates_function (serverFunction p) \<longrightarrow>
            functionName_ok (resourceName (Some (prefix_of p)) ''server''))
      \<and> (\<forall>k \<in> compute_split_keys m.
            creates_function (splitFnOpts p k) \<longrightarrow>
              functionName_ok (resourceName (Some (prefix_of p)) k))
      \<and> (creates_function (imageOptimizationFunction p) \<longrightarrow>
            functionName_ok (resourceName (Some (prefix_of p)) ''image-optimization'')))"

definition ids_distinct :: "OpenNextManifest \<Rightarrow> bool" where
  "ids_distinct m = inj_on split_id (compute_split_keys m)"

definition origin_map_settable :: "OpenNextManifest \<Rightarrow> OpenNextCdkProps \<Rightarrow> bool" where
  "origin_map_settable m p =
     (non_reserved_keys m \<noteq> {} \<longrightarrow>
        \<not> (case serverFunction p of
             None \<Rightarrow> False
           | Some opts \<Rightarrow>
               (case existingFunction opts of None \<Rightarrow> False | Some f \<Rightarrow> imported f)))"

definition framework_accepts :: "OpenNextManifest \<Rightarrow> OpenNextCdkProps \<Rightarrow> bool" where
  "framework_accepts m p = (names_accepted m p \<and> ids_distinct m \<and> origin_map_settable m p)"

text \<open>
  What the caller's own function options put under a variable name: the variable of an
  \<^verbatim>\<open>existingFunction\<close>, or else the entry of \<^verbatim>\<open>environment\<close>.
\<close>

definition caller_variable :: "LambdaFunctionOptions option \<Rightarrow> string \<Rightarrow> env_value option" where
  "caller_variable fnOpts key =
     (case fnOpts of
        None \<Rightarrow> None
      | Some opts \<Rightarrow>
          (case existingFunction opts of
             Some f \<Rightarrow> variables f key
           | None \<Rightarrow> spread_environment fnOpts key))"

definition server_options :: "OpenNextCdkProps \<Rightarrow> string \<Rightarrow> LambdaFunctionOptions option" where
  "server_options p k = (if k = ''default'' then serverFunction p else splitFnOpts p k)"

definition revalidation_options :: "OpenNextCdkProps \<Rightarrow> LambdaFunctionOptions option" where
  "revalidation_options p =
     (case OpenNextCdkProps.revalidation p of
        None \<Rightarrow> None
      | Some r \<Rightarrow> RevalidationQueueOptions.functionOptions r)"

text \<open>Observations on the built construct.\<close>

definition default_function :: "OpenNextCdk \<Rightarrow> lambda_function option" where
  "default_function g = map_option fn (map_of (servers g) ''default'')"

definition split_resources :: "OpenNextCdk \<Rightarrow> (string \<times> ServerFunction) list" where
  "split_resources g = filter (\<lambda>(k, s). k \<noteq> ''default'') (servers g)"

definition default_variable :: "error + OpenNextCdk \<Rightarrow> string \<Rightarrow> env_value option" where
  "default_variable r key =
     (case r of
        Inl e \<Rightarrow> None
      | Inr g \<Rightarrow> (case default_function g of None \<Rightarrow> None | Some f \<Rightarrow> variables f key))"

definition omits_bucket :: "lambda_function \<Rightarrow> bool" where
  "omits_bucket f =
     (variables f ''CACHE_BUCKET_NAME'' = None
      \<and> variables f ''CACHE_BUCKET_KEY_PREFIX'' = None
      \<and> variables f ''CACHE_BUCKET_REGION'' = None
      \<and> BucketReadWrite \<notin> set (grants f))"

definition receives_bucket :: "lambda_function \<Rightarrow> bool" where
  "receives_bucket f =
     (variables f ''CACHE_BUCKET_NAME'' \<noteq> None
      \<and> variables f ''CACHE_BUCKET_KEY_PREFIX'' \<noteq> None
      \<and> variables f ''CACHE_BUCKET_REGION'' \<noteq> None
      \<and> BucketReadWrite \<in> set (grants f))"

definition receives_queue :: "lambda_function \<Rightarrow> bool" where
  "receives_queue f =
     (variables f ''REVALIDATION_QUEUE_URL'' = Some QueueUrl
      \<and> variables f ''REVALIDATION_QUEUE_REGION'' = Some StackRegion
      \<and> QueueSendMessages \<in> set (grants f))"

text \<open>The built construct with the seeder's trigger property blanked.\<close>

definition erase_deployTimestamp :: "error + OpenNextCdk \<Rightarrow> error + OpenNextCdk" where
  "erase_deployTimestamp r =
     (case r of
        Inl e \<Rightarrow> Inl e
      | Inr g \<Rightarrow>
          Inr (g\<lparr>tagCacheSeeder :=
                   map_option (\<lambda>s. s\<lparr>deployTimestamp := 0\<rparr>) (tagCacheSeeder g)\<rparr>))"

text \<open>
  The conditions under which the spec (4.1) says \<^verbatim>\<open>readManifest\<close> fails, each in its
  words, on the parsed JSON value. \<open>stated_failure\<close> is their disjunction as the spec
  states it; \<open>actual_failure\<close> differs in the last condition, where a default origin that
  is present but falsy counts like an absent one.
\<close>

definition file_absent :: "node \<Rightarrow> string \<Rightarrow> bool" where
  "file_absent env openNextPath = (files env (manifest_path env openNextPath) = None)"

definition json_unparsable :: "node \<Rightarrow> string \<Rightarrow> bool" where
  "json_unparsable env openNextPath =
     (case files env (manifest_path env openNextPath) of
        None \<Rightarrow> False
      | Some raw \<Rightarrow> isl (JSON_parse env raw))"

definition parsed_manifest :: "node \<Rightarrow> string \<Rightarrow> json option" where
  "parsed_manifest env openNextPath =
     (case files env (manifest_path env openNextPath) of
        None \<Rightarrow> None
      | Some raw \<Rightarrow> (case JSON_parse env raw of Inl msg \<Rightarrow> None | Inr j \<Rightarrow> Some j))"

definition field :: "json \<Rightarrow> string \<Rightarrow> json option" where
  "field j k = (case j of JObj kvs \<Rightarrow> map_of kvs k | _ \<Rightarrow> None)"

definition origins_missing_or_not_mapping :: "json \<Rightarrow> bool" where
  "origins_missing_or_not_mapping j =
     (case field j ''origins'' of Some (JObj kvs) \<Rightarrow> False | _ \<Rightarrow> True)"

definition behaviors_missing_or_not_list :: "json \<Rightarrow> bool" where
  "behaviors_missing_or_not_list j =
     (case field j ''behaviors'' of Some (JArr xs) \<Rightarrow> False | _ \<Rightarrow> True)"

definition default_origin :: "json \<Rightarrow> json option" where
  "default_origin j =
     (case field j ''origins'' of Some (JObj kvs) \<Rightarrow> map_of kvs ''default'' | _ \<Rightarrow> None)"

definition stated_failure :: "node \<Rightarrow> string \<Rightarrow> bool" where
  "stated_failure env openNextPath =
     (file_absent env openNextPath \<or> json_unparsable env openNextPath \<or>
      (case parsed_manifest env openNextPath of
         None \<Rightarrow> False
       | Some j \<Rightarrow> origins_missing_or_not_mapping j \<or> behaviors_missing_or_not_list j
                  \<or> default_origin j = None))"

definition actual_failure :: "node \<Rightarrow> string \<Rightarrow> bool" where
  "actual_failure env openNextPath =
     (file_absent env openNextPath \<or> json_unparsable env openNextPath \<or>
      (case parsed_manifest env openNextPath of
         None \<Rightarrow> False
       | Some j \<Rightarrow> origins_missing_or_not_mapping j \<or> behaviors_missing_or_not_list j
                  \<or> \<not> truthy (default_origin j)))"

section \<open>Concrete inputs\<close>

definition function_origin :: OpenNextOrigin where
  "function_origin =
     \<lparr>type = ''function'', copy = None, streaming = Some True, originPath = None\<rparr>"

definition static_origin :: OpenNextOrigin where
  "static_origin = \<lparr>type = ''s3'', copy = None, streaming = None, originPath = None\<rparr>"

text \<open>The smallest manifest: the default origin and the catch-all behavior.\<close>

definition basic_manifest :: OpenNextManifest where
  "basic_manifest =
     \<lparr>origins = [(''default'', function_origin)],
      behaviors = [\<lparr>pattern = ''*'', origin = Some ''default'', edgeFunction = None\<rparr>],
      additionalProps = None,
      edgeFunctions = None\<rparr>"

text \<open>A manifest whose only key beyond the reserved ones is not compute-typed.\<close>

definition static_extra_manifest :: OpenNextManifest where
  "static_extra_manifest =
     \<lparr>origins = [(''default'', function_origin), (''extra'', static_origin)],
      behaviors = [\<lparr>pattern = ''*'', origin = Some ''default'', edgeFunction = None\<rparr>],
      additionalProps = None,
      edgeFunctions = None\<rparr>"

text \<open>
  A manifest with a split function \<^verbatim>\<open>api\<close>, a behavior that only names an edge function,
  the incremental cache disabled and an initialization function.
\<close>

definition split_manifest :: OpenNextManifest where
  "split_manifest =
     \<lparr>origins = [(''s3'', static_origin), (''default'', function_origin),
                 (''api'', function_origin), (''extra'', static_origin)],
      behaviors = [\<lparr>pattern = ''assets/*'', origin = Some ''s3'', edgeFunction = None\<rparr>,
                   \<lparr>pattern = ''api/*'', origin = Some ''api'', edgeFunction = None\<rparr>,
                   \<lparr>pattern = ''edge/*'', origin = None, edgeFunction = Some ''middleware''\<rparr>,
                   \<lparr>pattern = ''*'', origin = Some ''default'', edgeFunction = None\<rparr>],
      additionalProps =
        Some \<lparr>disableTagCache = None, disableIncrementalCache = Some True,
              initializationFunction =
                Some \<lparr>handler = ''index.handler'', bundle' = ''.open-next/dynamodb-provider''\<rparr>\<rparr>,
      edgeFunctions =
        Some [(''middleware'', \<lparr>handler = ''handler'', bundle' = ''.open-next/middleware''\<rparr>)]\<rparr>"

text \<open>
  Two manifests with split functions whose keys the construct does not survive: the
  key \<^verbatim>\<open>api/trpc\<close>, which makes the function name \<^verbatim>\<open>opennext-api/trpc\<close>, and the keys
  \<^verbatim>\<open>api_x\<close> and \<^verbatim>\<open>api-x\<close>, which both make the construct id \<^verbatim>\<open>ServerFunction-api-x\<close>.
\<close>

definition trpc_manifest :: OpenNextManifest where
  "trpc_manifest =
     \<lparr>origins = [(''default'', function_origin), (''api/trpc'', function_origin)],
      behaviors = [\<lparr>pattern = ''*'', origin = Some ''default'', edgeFunction = None\<rparr>],
      additionalProps = None,
      edgeFunctions = None\<rparr>"

definition clash_manifest :: OpenNextManifest where
  "clash_manifest =
     \<lparr>origins = [(''default'', function_origin), (''api_x'', function_origin),
                 (''api-x'', function_origin)],
      behaviors = [\<lparr>pattern = ''*'', origin = Some ''default'', edgeFunction = None\<rparr>],
      additionalProps = None,
      edgeFunctions = None\<rparr>"

definition no_props :: OpenNextCdkProps where
  "no_props =
     \<lparr>prefix = None, serverFunction = None, imageOptimizationFunction = None,
      splitFunctions = None, distribution = None, revalidation = None, tagCache = None,
      initializationFunction = None, assetsBucket = None\<rparr>"

definition disabled_props :: OpenNextCdkProps where
  "disabled_props =
     no_props\<lparr>tagCache := Some \<lparr>disabled = Some True, existingTable = None, billingMode = None\<rparr>\<rparr>"

definition table_variable_props :: OpenNextCdkProps where
  "table_variable_props =
     disabled_props\<lparr>serverFunction :=
       Some \<lparr>environment = Some [''CACHE_DYNAMO_TABLE'' \<mapsto> ''my-table''],
             existingFunction = None\<rparr>\<rparr>"

definition origin_variable_props :: OpenNextCdkProps where
  "origin_variable_props =
     no_props\<lparr>serverFunction :=
       Some \<lparr>environment = Some [''OPEN_NEXT_ORIGIN'' \<mapsto> ''mine''],
             existingFunction = None\<rparr>\<rparr>"

text \<open>A caller who passes an imported function as the default server function.\<close>

definition imported_props :: OpenNextCdkProps where
  "imported_props =
     no_props\<lparr>serverFunction :=
       Some \<lparr>environment = None,
             existingFunction =
               Some \<lparr>functionName = ''legacy-server'', variables = Map.empty, grants = [],
                     imported = True\<rparr>\<rparr>\<rparr>"

text \<open>
  Three states of the build directory \<^verbatim>\<open>out\<close>: no manifest file, a manifest whose
  default origin is \<^verbatim>\<open>false\<close>, and a well-formed manifest. \<^verbatim>\<open>JSON.parse\<close> is fixed on the
  two texts that occur.
\<close>

definition falsy_default_text :: string where
  "falsy_default_text = ''{\"origins\":{\"default\":false},\"behaviors\":[]}''"

definition falsy_default_json :: json where
  "falsy_default_json =
     JObj [(''origins'', JObj [(''default'', JBool False)]), (''behaviors'', JArr [])]"

definition well_formed_text :: string where
  "well_formed_text = ''{\"origins\":{\"default\":{\"type\":\"function\"}},\"behaviors\":[]}''"

definition well_formed_json :: json where
  "well_formed_json =
     JObj [(''origins'', JObj [(''default'', JObj [(''type'', JStr ''function'')])]),
           (''behaviors'', JArr [])]"

definition parse_known :: "string \<Rightarrow> string + json" where
  "parse_known raw =
     (if raw = falsy_default_text then Inr falsy_default_json
      else if raw = well_formed_text then Inr well_formed_json
      else Inl ''Unexpected token'')"

definition empty_node :: node where
  "empty_node =
     \<lparr>files = Map.empty, JSON_parse = parse_known, path_join = (\<lambda>a b. a @ ''/'' @ b)\<rparr>"

definition falsy_default_node :: node where
  "falsy_default_node =
     empty_node\<lparr>files := [''out/open-next.output.json'' \<mapsto> falsy_default_text]\<rparr>"

definition well_formed_node :: node where
  "well_formed_node =
     empty_node\<lparr>files := [''out/open-next.output.json'' \<mapsto> well_formed_text]\<rparr>"

section \<open>Path normalization\<close>

lemma startsWith_append: "startsWith (s @ q) s"
  by (simp add: startsWith_def)

lemma startsWith_iff: "startsWith p s \<longleftrightarrow> (\<exists>q. p = s @ q)"
  unfolding startsWith_def
  by (metis append_eq_conv_conj)

lemma normalize_strip: "normalizeBundlePath (''.open-next/'' @ q) = q"
  by (simp add: normalizeBundlePath_def startsWith_def slice_def)

lemma normalize_keep: "\<not> startsWith p ''.open-next/'' \<Longrightarrow> normalizeBundlePath p = p"
  by (simp add: normalizeBundlePath_def)

lemma normalize_shorter:
  assumes "startsWith p ''.open-next/''"
  shows "length (normalizeBundlePath p) < length p"
proof -
  from assms obtain q where p: "p = ''.open-next/'' @ q" by (auto simp: startsWith_iff)
  have "normalizeBundlePath p = q" unfolding p by (rule normalize_strip)
  then show ?thesis by (simp add: p)
qed

lemma double_prefix:
  "startsWith p ''.open-next/.open-next/'' \<longleftrightarrow>
     startsWith p ''.open-next/'' \<and> startsWith (normalizeBundlePath p) ''.open-next/''"
proof
  assume "startsWith p ''.open-next/.open-next/''"
  then obtain q where "p = ''.open-next/.open-next/'' @ q" by (auto simp: startsWith_iff)
  then have p: "p = ''.open-next/'' @ (''.open-next/'' @ q)" by simp
  show "startsWith p ''.open-next/'' \<and> startsWith (normalizeBundlePath p) ''.open-next/''"
    unfolding p normalize_strip using startsWith_append by blast
next
  assume a: "startsWith p ''.open-next/'' \<and> startsWith (normalizeBundlePath p) ''.open-next/''"
  then obtain q where p: "p = ''.open-next/'' @ q" by (auto simp: startsWith_iff)
  with a have "startsWith q ''.open-next/''" by (simp only: normalize_strip)
  then obtain r where "q = ''.open-next/'' @ r" by (auto simp: startsWith_iff)
  with p have "p = ''.open-next/.open-next/'' @ r" by simp
  then show "startsWith p ''.open-next/.open-next/''" using startsWith_append by blast
qed

lemma normalize_twice_iff:
  "(normalizeBundlePath (normalizeBundlePath p) = normalizeBundlePath p)
     = (\<not> startsWith p ''.open-next/.open-next/'')"
proof (cases "startsWith p ''.open-next/''")
  case False
  then have "normalizeBundlePath p = p" by (rule normalize_keep)
  with False show ?thesis by (simp add: double_prefix)
next
  case True
  show ?thesis
  proof (cases "startsWith (normalizeBundlePath p) ''.open-next/''")
    case False
    then show ?thesis using normalize_keep[OF False] by (simp add: double_prefix)
  next
    case again: True
    from normalize_shorter[OF again]
    have "normalizeBundlePath (normalizeBundlePath p) \<noteq> normalizeBundlePath p" by auto
    with True again show ?thesis by (simp add: double_prefix)
  qed
qed

lemma getAssetCopyEntries_from:
  "map_of (origins m) ''s3'' = Some s3Origin \<Longrightarrow> copy s3Origin = Some entries \<Longrightarrow>
     map from' (getAssetCopyEntries m) = map (\<lambda>entry. normalizeBundlePath (from' entry)) entries"
  by (simp add: getAssetCopyEntries_def)

text \<open>
  C8, as the spec states it, fails: a path that begins with the prefix twice loses one
  prefix at each normalization, so the second normalization changes the result of the
  first.
\<close>

theorem normalize_not_idempotent:
  "normalizeBundlePath (normalizeBundlePath ''.open-next/.open-next/assets'')
     \<noteq> normalizeBundlePath ''.open-next/.open-next/assets''"
  by (simp add: normalizeBundlePath_def startsWith_def slice_def)

text \<open>
  C8, amended: normalization strips one leading \<^verbatim>\<open>.open-next/\<close> and leaves a path without
  that prefix unchanged; normalizing twice equals normalizing once exactly for the
  paths that do not begin with \<^verbatim>\<open>.open-next/.open-next/\<close>.
\<close>

theorem normalize_idempotent_iff:
  "normalizeBundlePath (''.open-next/'' @ q) = q
   \<and> (\<not> startsWith p ''.open-next/'' \<longrightarrow> normalizeBundlePath p = p)
   \<and> ((normalizeBundlePath (normalizeBundlePath p) = normalizeBundlePath p)
        = (\<not> startsWith p ''.open-next/.open-next/''))"
  using normalize_strip normalize_keep normalize_twice_iff by blast

theorem normalize_idempotent_witness:
  "normalizeBundlePath (''.open-next/'' @ ''assets'') = ''assets''
   \<and> \<not> startsWith ''assets'' ''.open-next/''
   \<and> normalizeBundlePath ''assets'' = ''assets''
   \<and> \<not> startsWith ''.open-next/cache'' ''.open-next/.open-next/''
   \<and> normalizeBundlePath (normalizeBundlePath ''.open-next/cache'')
        = normalizeBundlePath ''.open-next/cache''"
proof -
  have a: "\<not> startsWith ''assets'' ''.open-next/''"
    by (simp add: startsWith_def)
  have b: "\<not> startsWith ''.open-next/cache'' ''.open-next/.open-next/''"
    by (simp add: startsWith_def)
  from normalize_idempotent_iff[of "''assets''" "''assets''"] a
  have 1: "normalizeBundlePath (''.open-next/'' @ ''assets'') = ''assets''"
    and 2: "normalizeBundlePath ''assets'' = ''assets''" by blast+
  from normalize_idempotent_iff[of "''assets''" "''.open-next/cache''"] b
  have 3: "normalizeBundlePath (normalizeBundlePath ''.open-next/cache'')
        = normalizeBundlePath ''.open-next/cache''" by blast
  from a b 1 2 3 show ?thesis by blast
qed

section \<open>Reading the manifest\<close>

lemma validate_iff:
  "isl (validateManifest j path) \<longleftrightarrow>
     origins_missing_or_not_mapping j \<or> behaviors_missing_or_not_list j
     \<or> \<not> truthy (default_origin j)"
proof (cases j)
  case (JObj kvs)
  show ?thesis
  proof (cases "map_of kvs ''origins''")
    case None
    with JObj show ?thesis
      by (simp add: validateManifest_def origins_missing_or_not_mapping_def field_def)
  next
    case (Some ov)
    note ov = Some
    show ?thesis
    proof (cases "map_of kvs ''behaviors''")
      case None
      with JObj ov show ?thesis
        by (cases ov) (simp_all add: validateManifest_def origins_missing_or_not_mapping_def
              behaviors_missing_or_not_list_def field_def)
    next
      case (Some bv)
      with JObj ov show ?thesis
        by (cases ov; cases bv)
           (simp_all add: validateManifest_def origins_missing_or_not_mapping_def
              behaviors_missing_or_not_list_def default_origin_def field_def)
    qed
  qed
qed (simp_all add: validateManifest_def origins_missing_or_not_mapping_def field_def)

lemma readManifest_fails_iff: "isl (readManifest env dir) = actual_failure env dir"
proof (cases "files env (manifest_path env dir)")
  case None
  then show ?thesis
    by (simp add: readManifest_def actual_failure_def file_absent_def Let_def)
next
  case (Some raw)
  show ?thesis
  proof (cases "JSON_parse env raw")
    case (Inl msg)
    with Some show ?thesis
      by (simp add: readManifest_def actual_failure_def json_unparsable_def Let_def)
  next
    case (Inr j)
    have "isl (readManifest env dir) = isl (validateManifest j (manifest_path env dir))"
      using Some Inr by (simp add: readManifest_def Let_def split: sum.splits)
    moreover have "actual_failure env dir =
        (origins_missing_or_not_mapping j \<or> behaviors_missing_or_not_list j
         \<or> \<not> truthy (default_origin j))"
      using Some Inr
      by (simp add: actual_failure_def file_absent_def json_unparsable_def parsed_manifest_def)
    ultimately show ?thesis by (simp add: validate_iff)
  qed
qed

lemma readManifest_returns:
  "\<not> actual_failure env dir \<Longrightarrow>
     \<exists>j. parsed_manifest env dir = Some j \<and> readManifest env dir = Inr j"
  unfolding readManifest_fails_iff[symmetric]
  by (auto simp: readManifest_def parsed_manifest_def Let_def split: option.splits sum.splits)

lemma readManifest_absent:
  "file_absent env dir \<Longrightarrow>
     readManifest env dir = Inl (Error (not_found_message (manifest_path env dir)))"
  by (simp add: readManifest_def file_absent_def Let_def)

lemma out_path: "manifest_path (empty_node\<lparr>files := fs\<rparr>) ''out'' = ''out/open-next.output.json''"
  by (simp add: manifest_path_def empty_node_def)

lemma texts_differ: "well_formed_text \<noteq> falsy_default_text"
  by (simp add: well_formed_text_def falsy_default_text_def)

text \<open>
  C7, as the spec states it, fails: a manifest whose \<^verbatim>\<open>origins.default\<close> is present but
  falsy (here \<^verbatim>\<open>false\<close>) is rejected with the message for a missing default origin,
  although the file exists, parses, has a mapping \<^verbatim>\<open>origins\<close> with the key \<^verbatim>\<open>default\<close>, and
  has a list \<^verbatim>\<open>behaviors\<close>.
\<close>

theorem readManifest_rejects_falsy_default:
  "readManifest falsy_default_node ''out'' =
     Inl (Error (''Invalid OpenNext manifest at out/open-next.output.json'' @
                 '': missing \"default\" origin.''))
   \<and> \<not> stated_failure falsy_default_node ''out''"
proof -
  have f: "files falsy_default_node ''out/open-next.output.json'' = Some falsy_default_text"
    and p: "JSON_parse falsy_default_node falsy_default_text = Inr falsy_default_json"
    by (simp_all add: falsy_default_node_def empty_node_def parse_known_def)
  have mp: "manifest_path falsy_default_node ''out'' = ''out/open-next.output.json''"
    unfolding falsy_default_node_def by (rule out_path)
  have "readManifest falsy_default_node ''out'' =
     Inl (Error (''Invalid OpenNext manifest at out/open-next.output.json'' @
                 '': missing \"default\" origin.''))"
    by (simp add: readManifest_def mp f p validateManifest_def falsy_default_json_def)
  moreover have "\<not> stated_failure falsy_default_node ''out''"
    by (simp add: stated_failure_def file_absent_def json_unparsable_def parsed_manifest_def mp f p
          origins_missing_or_not_mapping_def behaviors_missing_or_not_list_def default_origin_def
          field_def falsy_default_json_def)
  ultimately show ?thesis by simp
qed

text \<open>
  C7, amended: \<^verbatim>\<open>readManifest\<close> fails if and only if the manifest file is absent (then
  with the message that tells the caller to run the build step first), the JSON is
  unparsable, \<^verbatim>\<open>origins\<close> is missing or not a mapping, \<^verbatim>\<open>behaviors\<close> is missing or not a
  list, or \<^verbatim>\<open>origins.default\<close> is absent or falsy (null, false, zero or the empty
  string); otherwise it returns the parsed manifest.
\<close>

theorem readManifest_fails_exactly:
  "isl (readManifest env dir) = actual_failure env dir
   \<and> (\<not> actual_failure env dir \<longrightarrow>
        (\<exists>j. parsed_manifest env dir = Some j \<and> readManifest env dir = Inr j))
   \<and> (file_absent env dir \<longrightarrow>
        readManifest env dir =
          Inl (Error (''OpenNext manifest not found at '' @ manifest_path env dir @ ''. '' @
                      ''Run `npx @opennextjs/aws build` before `cdk synth`.'')))"
  using readManifest_fails_iff readManifest_returns readManifest_absent
  by (simp add: not_found_message_def)

theorem readManifest_fails_exactly_witness:
  "file_absent empty_node ''out''
   \<and> readManifest empty_node ''out'' =
       Inl (Error (''OpenNext manifest not found at out/open-next.output.json. '' @
                   ''Run `npx @opennextjs/aws build` before `cdk synth`.''))
   \<and> \<not> actual_failure well_formed_node ''out''
   \<and> readManifest well_formed_node ''out'' = Inr well_formed_json"
proof -
  have a: "file_absent empty_node ''out''"
    by (simp add: file_absent_def empty_node_def)
  have mp0: "manifest_path empty_node ''out'' = ''out/open-next.output.json''"
    by (simp add: manifest_path_def empty_node_def)
  have mp: "manifest_path well_formed_node ''out'' = ''out/open-next.output.json''"
    unfolding well_formed_node_def by (rule out_path)
  have f: "files well_formed_node ''out/open-next.output.json'' = Some well_formed_text"
    and p: "JSON_parse well_formed_node well_formed_text = Inr well_formed_json"
    using texts_differ by (simp_all add: well_formed_node_def empty_node_def parse_known_def)
  have pm: "parsed_manifest well_formed_node ''out'' = Some well_formed_json"
    by (simp add: parsed_manifest_def mp f p)
  have b: "\<not> actual_failure well_formed_node ''out''"
    by (simp add: actual_failure_def file_absent_def json_unparsable_def pm mp f p
          origins_missing_or_not_mapping_def behaviors_missing_or_not_list_def default_origin_def
          field_def well_formed_json_def)
  from readManifest_fails_exactly[of empty_node "''out''"] a mp0
  have 1: "readManifest empty_node ''out'' =
       Inl (Error (''OpenNext manifest not found at out/open-next.output.json. '' @
                   ''Run `npx @opennextjs/aws build` before `cdk synth`.''))" by simp
  from readManifest_fails_exactly[of well_formed_node "''out''"] b pm
  have 2: "readManifest well_formed_node ''out'' = Inr well_formed_json" by auto
  from a b 1 2 show ?thesis by blast
qed

section \<open>The loop over the split origins\<close>

lemma Map_set_fresh: "k \<notin> fst ` set acc \<Longrightarrow> Map_set k v acc = acc @ [(k, v)]"
  by (induction acc) auto

lemma split_entry_fst: "split_entry pre m p b t d k = Some e \<Longrightarrow> fst e = k"
  by (auto simp: split_entry_def split: option.splits if_splits)

lemma body_url:
  "url (functionUrl (ServerFunction_fields pre k orig b t f d)) = ServerFunctionUrl k"
  by (simp add: ServerFunction_fields_def Let_def split: option.splits)

lemma split_entry_url:
  "split_entry pre m p b t d k = Some (k', s) \<Longrightarrow>
     k' = k \<and> url (functionUrl s) = ServerFunctionUrl k"
  by (auto simp: split_entry_def body_url split: option.splits if_splits)

lemma split_entry_Some_iff:
  "(\<exists>e. split_entry pre m p b t d k = Some e) \<longleftrightarrow>
     (\<exists>orig. map_of (origins m) k = Some orig \<and> type orig = ''function'')"
  by (auto simp: split_entry_def split: option.splits)

lemma new_ServerFunction_Some:
  "new_ServerFunction pre k (Some orig) b t f d =
     (if creates_function f \<and>
         \<not> functionName_ok (resourceName (Some pre) (if k = ''default'' then ''server'' else k))
      then Inl (ValidationError
                  (resourceName (Some pre) (if k = ''default'' then ''server'' else k)))
      else Inr (ServerFunction_fields pre k orig b t f d))"
  by (simp add: new_ServerFunction_def ServerFunction_fields_def creates_function_def
        new_lambda_Function_def Let_def
        split: option.splits)

lemma split_functions_entries:
  assumes "distinct ks" and "set ks \<inter> fst ` set acc = {}"
      and "set ks \<subseteq> fst ` set (origins m)"
      and "''default'' \<notin> set ks"
      and "\<forall>k \<in> set ks. compute_typed m k \<longrightarrow> creates_function (splitFnOpts p k) \<longrightarrow>
             functionName_ok (resourceName (Some pre) k)"
      and "inj_on split_id {k \<in> set ks. compute_typed m k}"
      and "split_id ` {k \<in> set ks. compute_typed m k} \<inter> set ids = {}"
  shows "split_functions pre m p b t d ks ids acc
           = Inr (acc @ List.map_filter (split_entry pre m p b t d) ks)"
  using assms
proof (induction ks arbitrary: acc ids)
  case Nil
  then show ?case by (simp add: List.map_filter_simps)
next
  case (Cons k ks)
  from Cons.prems(3) obtain orig where o: "map_of (origins m) k = Some orig"
    by (metis list.set_intros(1) map_of_eq_None_iff not_Some_eq subsetD)
  have sub: "{x \<in> set ks. compute_typed m x} \<subseteq> {x \<in> set (k # ks). compute_typed m x}"
    by auto
  have inj: "inj_on split_id {x \<in> set ks. compute_typed m x}"
    using Cons.prems(6) sub by (rule inj_on_subset)
  show ?case
  proof (cases "type orig = ''function''")
    case False
    have "split_functions pre m p b t d ks ids acc
            = Inr (acc @ List.map_filter (split_entry pre m p b t d) ks)"
      using Cons.prems inj by (intro Cons.IH) auto
    moreover have "split_entry pre m p b t d k = None"
      using o False by (simp add: split_entry_def)
    ultimately show ?thesis using o False
      by (simp add: List.map_filter_simps)
  next
    case True
    let ?s = "ServerFunction_fields pre k orig b t (splitFnOpts p k) d"
    have ct: "compute_typed m k" using o True by (simp add: compute_typed_def)
    have fresh: "k \<notin> fst ` set acc" using Cons.prems(2) by auto
    have kd: "k \<noteq> ''default''" using Cons.prems(4) by auto
    have nid: "split_id k \<notin> set ids" using Cons.prems(7) ct by auto
    have nm: "creates_function (splitFnOpts p k) \<longrightarrow> functionName_ok (resourceName (Some pre) k)"
      using Cons.prems(5) ct by simp
    have new: "new_ServerFunction pre k (Some orig) b t (splitFnOpts p k) d = Inr ?s"
      using nm kd by (simp add: new_ServerFunction_Some)
    have knot: "k \<notin> set ks" using Cons.prems(1) by simp
    have nk: "split_id k \<notin> split_id ` {x \<in> set ks. compute_typed m x}"
    proof
      assume "split_id k \<in> split_id ` {x \<in> set ks. compute_typed m x}"
      then obtain x where x: "x \<in> set ks" "compute_typed m x" "split_id k = split_id x"
        by auto
      have "k \<in> {x \<in> set (k # ks). compute_typed m x}" using ct by simp
      moreover have "x \<in> {x \<in> set (k # ks). compute_typed m x}" using x by simp
      ultimately have "k = x" using Cons.prems(6) x(3) by (rule inj_onD[rotated 2])
      with x(1) knot show False by simp
    qed
    have disj: "split_id ` {x \<in> set ks. compute_typed m x} \<inter> set (split_id k # ids) = {}"
      using nk Cons.prems(7) by auto
    have "split_functions pre m p b t d ks (split_id k # ids) (acc @ [(k, ?s)])
            = Inr ((acc @ [(k, ?s)]) @ List.map_filter (split_entry pre m p b t d) ks)"
      using Cons.prems(1,2,3,4,5) inj disj by (intro Cons.IH) auto
    moreover have "split_entry pre m p b t d k = Some (k, ?s)"
      using o True by (simp add: split_entry_def)
    ultimately show ?thesis using o True fresh nid new
      by (simp add: List.map_filter_simps Map_set_fresh)
  qed
qed

lemma split_functions_Inr:
  assumes "split_functions pre m p b t d ks ids acc = Inr r"
      and "distinct ks" and "''default'' \<notin> set ks"
  shows "(\<forall>k \<in> set ks. compute_typed m k \<longrightarrow> creates_function (splitFnOpts p k) \<longrightarrow>
             functionName_ok (resourceName (Some pre) k))
       \<and> inj_on split_id {k \<in> set ks. compute_typed m k}
       \<and> split_id ` {k \<in> set ks. compute_typed m k} \<inter> set ids = {}"
  using assms
proof (induction ks arbitrary: acc ids)
  case Nil
  then show ?case by simp
next
  case (Cons k ks)
  show ?case
  proof (cases "map_of (origins m) k")
    case None
    with Cons.prems(1) show ?thesis by simp
  next
    case (Some orig)
    show ?thesis
    proof (cases "type orig = ''function''")
      case False
      then have nc: "\<not> compute_typed m k" using Some by (simp add: compute_typed_def)
      from Cons.prems(1) Some False
      have "split_functions pre m p b t d ks ids acc = Inr r" by simp
      from Cons.IH[OF this] Cons.prems(2,3)
      have IH: "(\<forall>k \<in> set ks. compute_typed m k \<longrightarrow> creates_function (splitFnOpts p k) \<longrightarrow>
             functionName_ok (resourceName (Some pre) k))"
        "inj_on split_id {k \<in> set ks. compute_typed m k}"
        "split_id ` {k \<in> set ks. compute_typed m k} \<inter> set ids = {}" by auto
      have eq: "{x \<in> set (k # ks). compute_typed m x} = {x \<in> set ks. compute_typed m x}"
        using nc by auto
      show ?thesis unfolding eq using IH nc by auto
    next
      case True
      then have ct: "compute_typed m k" using Some by (simp add: compute_typed_def)
      have kd: "k \<noteq> ''default''" using Cons.prems(3) by auto
      from Cons.prems(1) Some True have nid: "split_id k \<notin> set ids"
        by (auto split: if_splits)
      from Cons.prems(1) Some True nid obtain s where
        s: "new_ServerFunction pre k (Some orig) b t (splitFnOpts p k) d = Inr s" and
        rest: "split_functions pre m p b t d ks (split_id k # ids) (Map_set k s acc) = Inr r"
        by (auto split: sum.splits)
      from s kd have nm: "creates_function (splitFnOpts p k) \<longrightarrow>
             functionName_ok (resourceName (Some pre) k)"
        by (auto simp: new_ServerFunction_Some split: if_splits)
      from Cons.IH[OF rest] Cons.prems(2,3)
      have IH: "(\<forall>k \<in> set ks. compute_typed m k \<longrightarrow> creates_function (splitFnOpts p k) \<longrightarrow>
             functionName_ok (resourceName (Some pre) k))"
        "inj_on split_id {k \<in> set ks. compute_typed m k}"
        "split_id ` {k \<in> set ks. compute_typed m k} \<inter> set (split_id k # ids) = {}" by auto
      have eq: "{x \<in> set (k # ks). compute_typed m x}
                  = insert k {x \<in> set ks. compute_typed m x}"
        using ct by auto
      have "split_id k \<notin> split_id ` {x \<in> set ks. compute_typed m x}" using IH(3) by auto
      then have "split_id k \<notin> split_id ` ({x \<in> set ks. compute_typed m x} - {k})" by blast
      then have "inj_on split_id (insert k {x \<in> set ks. compute_typed m x})"
        using IH(2) by simp
      moreover have "split_id ` insert k {x \<in> set ks. compute_typed m x} \<inter> set ids = {}"
        using IH(3) nid by auto
      ultimately show ?thesis unfolding eq using IH(1) nm by auto
    qed
  qed
qed

lemma split_keys_props:
  "distinct (getSplitFunctionOrigins m)"
  "set (getSplitFunctionOrigins m) = fst ` set (origins m) - reserved"
  by (auto simp: getSplitFunctionOrigins_def Object_keys_def)

lemma split_keys_nonempty: "(getSplitFunctionOrigins m \<noteq> []) = (non_reserved_keys m \<noteq> {})"
proof -
  have "set (getSplitFunctionOrigins m) = non_reserved_keys m"
    by (auto simp: split_keys_props(2) non_reserved_keys_def)
  then show ?thesis by (metis set_empty)
qed

lemma loop_compute_keys:
  "{k \<in> set (getSplitFunctionOrigins m). compute_typed m k} = compute_split_keys m"
  by (auto simp: split_keys_props(2) compute_split_keys_def compute_typed_def
           dest: map_of_SomeD intro: rev_image_eqI)

lemma default_not_key: "''default'' \<notin> set (getSplitFunctionOrigins m)"
  by (simp add: split_keys_props(2) reserved_def)

lemma split_loop:
  assumes "\<forall>k \<in> compute_split_keys m.
             creates_function (splitFnOpts p k) \<longrightarrow> functionName_ok (resourceName (Some pre) k)"
      and "ids_distinct m"
  shows "split_functions pre m p b t d (getSplitFunctionOrigins m) [''ServerFunction'']
           [(''default'', s0)]
     = Inr ((''default'', s0)
             # List.map_filter (split_entry pre m p b t d) (getSplitFunctionOrigins m))"
proof -
  let ?ks = "getSplitFunctionOrigins m"
  have 1: "set ?ks \<inter> fst ` set [(''default'', s0)] = {}"
    using default_not_key[of m] by simp
  have 2: "set ?ks \<subseteq> fst ` set (origins m)"
    by (auto simp: split_keys_props)
  have 3: "\<forall>k \<in> set ?ks. compute_typed m k \<longrightarrow> creates_function (splitFnOpts p k) \<longrightarrow>
             functionName_ok (resourceName (Some pre) k)"
    using assms(1) loop_compute_keys[of m] by blast
  have 4: "inj_on split_id {k \<in> set ?ks. compute_typed m k}"
    using assms(2) by (simp add: ids_distinct_def loop_compute_keys)
  have 5: "split_id ` {k \<in> set ?ks. compute_typed m k} \<inter> set [''ServerFunction''] = {}"
    by (auto simp: split_id_def)
  from split_functions_entries[OF split_keys_props(1) 1 2 default_not_key 3 4 5]
  show ?thesis by simp
qed

lemma split_loop_Inr:
  assumes "split_functions pre m p b t d (getSplitFunctionOrigins m) ids acc = Inr r"
  shows "(\<forall>k \<in> compute_split_keys m.
            creates_function (splitFnOpts p k) \<longrightarrow> functionName_ok (resourceName (Some pre) k))
       \<and> ids_distinct m"
proof -
  let ?ks = "getSplitFunctionOrigins m"
  from split_functions_Inr[OF assms split_keys_props(1) default_not_key]
  have a: "\<forall>k \<in> set ?ks. compute_typed m k \<longrightarrow> creates_function (splitFnOpts p k) \<longrightarrow>
             functionName_ok (resourceName (Some pre) k)"
   and b: "inj_on split_id {k \<in> set ?ks. compute_typed m k}" by blast+
  have c: "k \<in> set ?ks \<and> compute_typed m k" if "k \<in> compute_split_keys m" for k
    using that loop_compute_keys[of m] by blast
  have "creates_function (splitFnOpts p k) \<longrightarrow> functionName_ok (resourceName (Some pre) k)"
    if "k \<in> compute_split_keys m" for k
    using a c[OF that] by blast
  moreover have "ids_distinct m" using b by (simp add: ids_distinct_def loop_compute_keys)
  ultimately show ?thesis by blast
qed

lemma map_filter_fst:
  assumes "\<And>k e. f k = Some e \<Longrightarrow> fst e = k"
  shows "map fst (List.map_filter f ks) = filter (\<lambda>k. f k \<noteq> None) ks"
  using assms by (induction ks) (auto simp: List.map_filter_simps split: option.splits)

lemma split_servers_keys:
  "map fst (split_servers m p) =
     filter (\<lambda>k. \<exists>orig. map_of (origins m) k = Some orig \<and> type orig = ''function'')
       (getSplitFunctionOrigins m)"
proof -
  have "map fst (split_servers m p) =
      filter (\<lambda>k. split_entry (prefix_of p) m p (createAssetsBucket p) (tagCache_table m p)
                     (disableIncrementalCache_of m) k \<noteq> None) (getSplitFunctionOrigins m)"
    unfolding split_servers_def by (rule map_filter_fst) (rule split_entry_fst)
  also have "\<dots> =
      filter (\<lambda>k. \<exists>orig. map_of (origins m) k = Some orig \<and> type orig = ''function'')
       (getSplitFunctionOrigins m)"
    using split_entry_Some_iff by (intro filter_cong) auto
  finally show ?thesis .
qed

lemma split_servers_distinct: "distinct (map fst (split_servers m p))"
  by (simp add: split_servers_keys split_keys_props(1))

lemma split_servers_set: "fst ` set (split_servers m p) = compute_split_keys m"
proof -
  have "fst ` set (split_servers m p) = set (map fst (split_servers m p))" by simp
  also have "\<dots> = compute_split_keys m"
    unfolding split_servers_keys compute_split_keys_def
    by (auto simp: split_keys_props(2) dest: map_of_SomeD intro: rev_image_eqI)
  finally show ?thesis .
qed

lemma split_servers_length: "length (split_servers m p) = card (compute_split_keys m)"
proof -
  have "card (compute_split_keys m) = card (set (map fst (split_servers m p)))"
    using split_servers_set[of m p] by simp
  also have "\<dots> = length (map fst (split_servers m p))"
    by (rule distinct_card) (rule split_servers_distinct)
  finally show ?thesis by simp
qed

lemma split_servers_url:
  "(k, s) \<in> set (split_servers m p) \<Longrightarrow> url (functionUrl s) = ServerFunctionUrl k"
  unfolding split_servers_def
  by (auto simp: List.map_filter_def dest: split_entry_url)

lemma split_servers_body:
  assumes "(k, s) \<in> set (split_servers m p)"
  shows "\<exists>orig. map_of (origins m) k = Some orig \<and>
           s = ServerFunction_fields (prefix_of p) k orig (createAssetsBucket p)
                 (tagCache_table m p) (splitFnOpts p k) (disableIncrementalCache_of m)"
  using assms unfolding split_servers_def
  by (auto simp: List.map_filter_def split_entry_def split: option.splits if_splits)

lemma default_not_split: "''default'' \<notin> compute_split_keys m"
  by (simp add: compute_split_keys_def reserved_def)

lemma server_options_split: "k \<in> compute_split_keys m \<Longrightarrow> server_options p k = splitFnOpts p k"
  using default_not_split[of m] by (auto simp: server_options_def)

lemma originMap_fold:
  assumes "\<And>k s. (k, s) \<in> set xs \<Longrightarrow> url (functionUrl s) = ServerFunctionUrl k"
  shows "fold (\<lambda>(key, s) m. if key \<noteq> ''default'' then js_set m key (url (functionUrl s)) else m)
           xs acc
       = (\<lambda>k. if k \<in> fst ` set xs \<and> k \<noteq> ''default'' \<and> k \<noteq> ''__proto__''
               then Some (ServerFunctionUrl k) else acc k)"
  using assms
proof (induction xs arbitrary: acc)
  case Nil
  then show ?case by simp
next
  case (Cons x xs)
  obtain k s where x: "x = (k, s)" by (cases x)
  have u: "url (functionUrl s) = ServerFunctionUrl k" using Cons.prems x by simp
  have IH: "\<And>acc. fold (\<lambda>(key, s) m. if key \<noteq> ''default''
                                      then js_set m key (url (functionUrl s)) else m) xs acc
       = (\<lambda>k. if k \<in> fst ` set xs \<and> k \<noteq> ''default'' \<and> k \<noteq> ''__proto__''
               then Some (ServerFunctionUrl k) else acc k)"
    using Cons.prems by (intro Cons.IH) auto
  show ?case
    unfolding x by (simp only: fold_simps IH) (auto simp: js_set_def u fun_eq_iff)
qed

lemma originMap_servers:
  "originMap ((''default'', d) # split_servers m p)
     = (\<lambda>k. if k \<in> compute_split_keys m \<and> k \<noteq> ''__proto__''
             then Some (ServerFunctionUrl k) else None)"
proof -
  have "originMap ((''default'', d) # split_servers m p)
     = (\<lambda>k. if k \<in> fst ` set (split_servers m p) \<and> k \<noteq> ''default'' \<and> k \<noteq> ''__proto__''
               then Some (ServerFunctionUrl k) else None)"
    unfolding originMap_def
    by (simp only: fold_simps) (simp add: originMap_fold[OF split_servers_url])
  then show ?thesis
    using default_not_split[of m] by (auto simp: split_servers_set fun_eq_iff)
qed

section \<open>The construct that a valid manifest builds\<close>

text \<open>
  The constructor returns exactly when the manifest has a default origin and the
  framework accepts the input (\<open>build_Inr_iff\<close> below); the statements about the built
  construct are made for these inputs.
\<close>

lemma image_url: "imageFunctionUrl (ImageOptimization_fields pre b f k) = ImageOptimizationUrl"
  by (simp add: ImageOptimization_fields_def split: option.splits)

lemma default_server_url: "url (functionUrl (default_server m p d0)) = ServerFunctionUrl ''default''"
  by (simp add: default_server_def body_url)

lemma Object_assign_empty: "Object_assign t Map.empty = t"
  by (simp add: Object_assign_def fun_eq_iff)

lemma distribution_Inr:
  "new_DistributionComponent pre m b ((''default'', u) # rest) iu opts sp =
     Inr \<lparr>comment = resourceName (Some pre) ''distribution'',
          defaultBehavior =
            createServerBehaviorOptions (HttpOrigin (url u)) (createCachePolicy opts pre)
              (createOriginRequestPolicy pre) (createResponseHeadersPolicy pre opts)
              (createCloudFrontFunction pre),
          additionalBehaviors =
            (let fromManifest =
                   createAdditionalBehaviors (behaviors m) (createS3Origin b sp)
                     (createImageOptimOrigin iu) (createCachePolicy opts pre)
                     (createOriginRequestPolicy pre) (createCloudFrontFunction pre)
                     (createServerOrigins ((''default'', u) # rest))
                     (createResponseHeadersPolicy pre opts)
             in case (case opts of
                        None \<Rightarrow> None
                      | Some opt \<Rightarrow> DistributionOptions.additionalBehaviors opt) of
                  None \<Rightarrow> fromManifest
                | Some extra \<Rightarrow> Object_assign fromManifest extra)\<rparr>"
  by (simp add: new_DistributionComponent_def Let_def createServerOrigins_def)

lemma disableTagCache_of_eq: "disableTagCache_of m p = tagCacheDisabled m p"
  by (auto simp: disableTagCache_of_def tagCacheDisabled_def split: option.splits)

lemma tagCache_table_None: "(tagCache_table m p = None) = tagCacheDisabled m p"
  by (auto simp: tagCache_table_def new_TagCacheTable_def disableTagCache_of_eq tagCacheDisabled_def
           split: option.splits)

lemma seeder_fields_iff: "(seeder_fields m p now \<noteq> None) = seederEligible m p"
proof (cases "tagCache_table m p")
  case None
  then show ?thesis
    using tagCache_table_None[of m p] by (simp add: seeder_fields_def seederEligible_def)
next
  case (Some t)
  then have "\<not> tagCacheDisabled m p" using tagCache_table_None[of m p] by simp
  with Some show ?thesis
    by (simp add: seeder_fields_def seederEligible_def hasInitializationFunction_def)
qed

lemma tagCache_seeder_eq:
  "tagCache_seeder m p now =
     (if seederEligible m p
         \<and> \<not> functionName_ok (resourceName (Some (prefix_of p)) ''tag-cache-seeder'')
      then Inl (ValidationError (resourceName (Some (prefix_of p)) ''tag-cache-seeder''))
      else Inr (seeder_fields m p now))"
proof (cases "seeder_fields m p now")
  case None
  then have "\<not> seederEligible m p" using seeder_fields_iff[of m p now] by simp
  with None show ?thesis
    by (auto simp: tagCache_seeder_def seeder_fields_def split: option.splits if_splits)
next
  case (Some s)
  then have "seederEligible m p" using seeder_fields_iff[of m p now] by simp
  with Some show ?thesis
    by (auto simp: tagCache_seeder_def seeder_fields_def new_TagCacheSeeder_def
          TagCacheSeeder_fields_def new_lambda_Function_def split: option.splits if_splits)
qed

lemma new_Revalidation_eq:
  "new_Revalidation pre b t opts =
     (if functionName_ok (resourceName (Some pre) ''revalidation'')
      then Inr (Revalidation_fields pre b t opts)
      else Inl (ValidationError (resourceName (Some pre) ''revalidation'')))"
  by (simp add: new_Revalidation_def Revalidation_fields_def new_lambda_Function_def Let_def
        split: option.splits)

lemma new_ImageOptimization_eq:
  "new_ImageOptimization pre b f k =
     (if creates_function f \<and> \<not> functionName_ok (resourceName (Some pre) ''image-optimization'')
      then Inl (ValidationError (resourceName (Some pre) ''image-optimization''))
      else Inr (ImageOptimization_fields pre b f k))"
  by (simp add: new_ImageOptimization_def ImageOptimization_fields_def new_lambda_Function_def
        creates_function_def
        split: option.splits)

lemma fields_imported:
  "imported (fn (ServerFunction_fields pre k orig b t f d)) =
     (case f of
        None \<Rightarrow> False
      | Some opts \<Rightarrow> (case existingFunction opts of None \<Rightarrow> False | Some x \<Rightarrow> imported x))"
  by (simp add: ServerFunction_fields_def Let_def split: option.splits)

lemma new_ServerFunction_None: "isl (new_ServerFunction pre k None b t f d)"
  by (simp add: new_ServerFunction_def new_lambda_Function_def Let_def split: option.splits)

lemma accepts_names:
  assumes "framework_accepts m p"
  shows "functionName_ok (resourceName (Some (prefix_of p)) ''revalidation'')"
    and "seederEligible m p \<longrightarrow>
           functionName_ok (resourceName (Some (prefix_of p)) ''tag-cache-seeder'')"
    and "creates_function (serverFunction p) \<longrightarrow>
           functionName_ok (resourceName (Some (prefix_of p)) ''server'')"
    and "\<forall>k \<in> compute_split_keys m.
           creates_function (splitFnOpts p k) \<longrightarrow>
             functionName_ok (resourceName (Some (prefix_of p)) k)"
    and "creates_function (imageOptimizationFunction p) \<longrightarrow>
           functionName_ok (resourceName (Some (prefix_of p)) ''image-optimization'')"
    and "ids_distinct m"
    and "origin_map_settable m p"
  using assms by (simp_all add: framework_accepts_def names_accepted_def)

lemma default_server_imported:
  "imported (fn (default_server m p d0)) =
     (case serverFunction p of
        None \<Rightarrow> False
      | Some opts \<Rightarrow> (case existingFunction opts of None \<Rightarrow> False | Some x \<Rightarrow> imported x))"
  by (simp add: default_server_def fields_imported)

lemma build_Inr:
  assumes "map_of (origins m) ''default'' = Some d0" and "framework_accepts m p"
  shows "\<exists>distr.
     new_DistributionComponent (prefix_of p) m (createAssetsBucket p)
       (map (\<lambda>(key, s). (key, functionUrl s))
          ((''default'', default_server m p d0) # split_servers m p))
       (imageFunctionUrl
          (ImageOptimization_fields (prefix_of p) (createAssetsBucket p)
             (imageOptimizationFunction p) (getS3OriginPath m)))
       (OpenNextCdkProps.distribution p) (getS3OriginPath m) = Inr distr \<and>
     new_OpenNextCdk m p now =
       Inr \<lparr>bucket = createAssetsBucket p,
            tagCacheTable = tagCache_table m p,
            revalidation =
              Revalidation_fields (prefix_of p) (createAssetsBucket p) (tagCache_table m p)
                (OpenNextCdkProps.revalidation p),
            tagCacheSeeder = seeder_fields m p now,
            warnings = edge_warnings m,
            servers =
              (if getSplitFunctionOrigins m \<noteq> [] then
                 (''default'',
                  (default_server m p d0)\<lparr>fn :=
                     addEnvironment (fn (default_server m p d0)) ''OPEN_NEXT_ORIGIN''
                       (LazyJson (originMap ((''default'', default_server m p d0)
                                               # split_servers m p)))\<rparr>)
                 # split_servers m p
               else (''default'', default_server m p d0) # split_servers m p),
            imageOptimization =
              ImageOptimization_fields (prefix_of p) (createAssetsBucket p)
                (imageOptimizationFunction p) (getS3OriginPath m),
            distribution = distr\<rparr>"
proof -
  note n = accepts_names[OF assms(2)]
  have r: "new_Revalidation (prefix_of p) (createAssetsBucket p) (tagCache_table m p)
             (OpenNextCdkProps.revalidation p)
           = Inr (Revalidation_fields (prefix_of p) (createAssetsBucket p) (tagCache_table m p)
                    (OpenNextCdkProps.revalidation p))"
    using n(1) by (simp add: new_Revalidation_eq)
  have sd: "tagCache_seeder m p now = Inr (seeder_fields m p now)"
    using n(2) by (auto simp: tagCache_seeder_eq)
  have ds: "new_ServerFunction (prefix_of p) ''default'' (map_of (origins m) ''default'')
              (createAssetsBucket p) (tagCache_table m p) (serverFunction p)
              (disableIncrementalCache_of m) = Inr (default_server m p d0)"
    using assms(1) n(3) by (simp add: new_ServerFunction_Some default_server_def)
  have lp: "split_functions (prefix_of p) m p (createAssetsBucket p) (tagCache_table m p)
              (disableIncrementalCache_of m) (getSplitFunctionOrigins m) [''ServerFunction'']
              [(''default'', default_server m p d0)]
            = Inr ((''default'', default_server m p d0) # split_servers m p)"
    unfolding split_servers_def by (rule split_loop[OF n(4) n(6)])
  have ni: "getSplitFunctionOrigins m \<noteq> [] \<Longrightarrow> \<not> imported (fn (default_server m p d0))"
    using n(7) by (simp add: origin_map_settable_def split_keys_nonempty default_server_imported)
  have im: "new_ImageOptimization (prefix_of p) (createAssetsBucket p)
              (imageOptimizationFunction p) (getS3OriginPath m)
            = Inr (ImageOptimization_fields (prefix_of p) (createAssetsBucket p)
                     (imageOptimizationFunction p) (getS3OriginPath m))"
    using n(5) by (auto simp: new_ImageOptimization_eq)
  show ?thesis
    using ni
    by (simp add: new_OpenNextCdk_def Let_def r sd ds lp im cast_addEnvironment_def
          distribution_Inr)
qed

text \<open>
  The fields of the construct built from a manifest with a default origin on an input
  that the framework accepts. Every later statement about the build goes through this
  lemma.
\<close>

lemma build_servers:
  assumes "map_of (origins m) ''default'' = Some d0" and "framework_accepts m p"
  shows "\<exists>g. new_OpenNextCdk m p now = Inr g
     \<and> bucket g = createAssetsBucket p
     \<and> tagCacheTable g = tagCache_table m p
     \<and> revalidation g =
         Revalidation_fields (prefix_of p) (createAssetsBucket p) (tagCache_table m p)
           (OpenNextCdkProps.revalidation p)
     \<and> tagCacheSeeder g = seeder_fields m p now
     \<and> warnings g = edge_warnings m
     \<and> servers g =
          (if getSplitFunctionOrigins m \<noteq> [] then
             (''default'',
              (default_server m p d0)\<lparr>fn :=
                 addEnvironment (fn (default_server m p d0)) ''OPEN_NEXT_ORIGIN''
                   (LazyJson (originMap ((''default'', default_server m p d0)
                                           # split_servers m p)))\<rparr>)
             # split_servers m p
           else (''default'', default_server m p d0) # split_servers m p)
     \<and> imageOptimization g =
         ImageOptimization_fields (prefix_of p) (createAssetsBucket p)
           (imageOptimizationFunction p) (getS3OriginPath m)
     \<and> distribution g =
          \<lparr>comment = resourceName (Some (prefix_of p)) ''distribution'',
           defaultBehavior = default_rule p,
           additionalBehaviors = Object_assign (manifest_rules m p) (caller_rules p)\<rparr>"
proof -
  let ?urls = "map (\<lambda>(key, s). (key, functionUrl s))
                 ((''default'', default_server m p d0) # split_servers m p)"
  from build_Inr[OF assms, of now] obtain distr g where
    d: "new_DistributionComponent (prefix_of p) m (createAssetsBucket p) ?urls
          (imageFunctionUrl
             (ImageOptimization_fields (prefix_of p) (createAssetsBucket p)
                (imageOptimizationFunction p) (getS3OriginPath m)))
          (OpenNextCdkProps.distribution p) (getS3OriginPath m) = Inr distr"
    and g: "new_OpenNextCdk m p now = Inr g"
    and fields: "bucket g = createAssetsBucket p" "tagCacheTable g = tagCache_table m p"
      "revalidation g =
         Revalidation_fields (prefix_of p) (createAssetsBucket p) (tagCache_table m p)
           (OpenNextCdkProps.revalidation p)"
      "tagCacheSeeder g = seeder_fields m p now"
      "warnings g = edge_warnings m"
      "servers g =
          (if getSplitFunctionOrigins m \<noteq> [] then
             (''default'',
              (default_server m p d0)\<lparr>fn :=
                 addEnvironment (fn (default_server m p d0)) ''OPEN_NEXT_ORIGIN''
                   (LazyJson (originMap ((''default'', default_server m p d0)
                                           # split_servers m p)))\<rparr>)
             # split_servers m p
           else (''default'', default_server m p d0) # split_servers m p)"
      "imageOptimization g =
         ImageOptimization_fields (prefix_of p) (createAssetsBucket p)
           (imageOptimizationFunction p) (getS3OriginPath m)"
      "distribution g = distr"
    by fastforce
  have so: "createServerOrigins ?urls = server_origins m p"
    by (simp add: createServerOrigins_def server_origins_def case_prod_unfold default_server_url)
  have "distr =
          \<lparr>comment = resourceName (Some (prefix_of p)) ''distribution'',
           defaultBehavior = default_rule p,
           additionalBehaviors = Object_assign (manifest_rules m p) (caller_rules p)\<rparr>"
  proof (cases "case OpenNextCdkProps.distribution p of
                  None \<Rightarrow> None
                | Some opt \<Rightarrow> DistributionOptions.additionalBehaviors opt")
    case None
    then have "caller_rules p = Map.empty"
      by (auto simp: caller_rules_def split: option.splits)
    with d so None show ?thesis
      by (auto simp: distribution_Inr createServerBehaviorOptions_def default_rule_def
            manifest_rules_def Let_def image_url default_server_url Object_assign_empty)
  next
    case (Some extra)
    then have "caller_rules p = extra"
      by (auto simp: caller_rules_def split: option.splits)
    with d so Some show ?thesis
      by (auto simp: distribution_Inr createServerBehaviorOptions_def default_rule_def
            manifest_rules_def Let_def image_url default_server_url)
  qed
  with g fields show ?thesis by simp
qed

lemma valid_obtain:
  assumes "valid_manifest m"
  obtains d0 where "map_of (origins m) ''default'' = Some d0"
  using assms by (auto simp: valid_manifest_def)

text \<open>
  Conversely, a build that returns has passed every step that can throw, so its manifest
  has a default origin and its input is one that the framework accepts.
\<close>

lemma build_steps:
  assumes "new_OpenNextCdk m p now = Inr g"
  shows "\<exists>reval seeder ds urls img.
       new_Revalidation (prefix_of p) (createAssetsBucket p) (tagCache_table m p)
         (OpenNextCdkProps.revalidation p) = Inr reval
     \<and> tagCache_seeder m p now = Inr seeder
     \<and> new_ServerFunction (prefix_of p) ''default'' (map_of (origins m) ''default'')
         (createAssetsBucket p) (tagCache_table m p) (serverFunction p)
         (disableIncrementalCache_of m) = Inr ds
     \<and> split_functions (prefix_of p) m p (createAssetsBucket p) (tagCache_table m p)
         (disableIncrementalCache_of m) (getSplitFunctionOrigins m) [''ServerFunction'']
         (Map_set ''default'' ds []) = Inr urls
     \<and> (getSplitFunctionOrigins m \<noteq> [] \<longrightarrow> \<not> imported (fn ds))
     \<and> new_ImageOptimization (prefix_of p) (createAssetsBucket p)
         (imageOptimizationFunction p) (getS3OriginPath m) = Inr img"
  using assms
  by (auto simp: new_OpenNextCdk_def Let_def cast_addEnvironment_def
           split: sum.splits if_splits)

lemma build_accepts:
  assumes "new_OpenNextCdk m p now = Inr g"
  shows "valid_manifest m" and "framework_accepts m p"
proof -
  from build_steps[OF assms] obtain reval seeder ds urls img where
    r: "new_Revalidation (prefix_of p) (createAssetsBucket p) (tagCache_table m p)
          (OpenNextCdkProps.revalidation p) = Inr reval" and
    sd: "tagCache_seeder m p now = Inr seeder" and
    ds: "new_ServerFunction (prefix_of p) ''default'' (map_of (origins m) ''default'')
          (createAssetsBucket p) (tagCache_table m p) (serverFunction p)
          (disableIncrementalCache_of m) = Inr ds" and
    lp: "split_functions (prefix_of p) m p (createAssetsBucket p) (tagCache_table m p)
          (disableIncrementalCache_of m) (getSplitFunctionOrigins m) [''ServerFunction'']
          (Map_set ''default'' ds []) = Inr urls" and
    ni: "getSplitFunctionOrigins m \<noteq> [] \<longrightarrow> \<not> imported (fn ds)" and
    im: "new_ImageOptimization (prefix_of p) (createAssetsBucket p)
          (imageOptimizationFunction p) (getS3OriginPath m) = Inr img" by blast
  have "map_of (origins m) ''default'' \<noteq> None"
  proof
    assume "map_of (origins m) ''default'' = None"
    with ds new_ServerFunction_None[of "prefix_of p" "''default''" "createAssetsBucket p"
                 "tagCache_table m p" "serverFunction p" "disableIncrementalCache_of m"]
    show False by simp
  qed
  then obtain d0 where d0: "map_of (origins m) ''default'' = Some d0" by blast
  then show "valid_manifest m" by (simp add: valid_manifest_def)
  have n1: "functionName_ok (resourceName (Some (prefix_of p)) ''revalidation'')"
    using r by (auto simp: new_Revalidation_eq split: if_splits)
  have n2: "seederEligible m p \<longrightarrow>
           functionName_ok (resourceName (Some (prefix_of p)) ''tag-cache-seeder'')"
    using sd by (auto simp: tagCache_seeder_eq split: if_splits)
  have n3: "creates_function (serverFunction p) \<longrightarrow>
           functionName_ok (resourceName (Some (prefix_of p)) ''server'')"
    and dsv: "ds = default_server m p d0"
    using ds d0 by (auto simp: new_ServerFunction_Some default_server_def split: if_splits)
  have n5: "creates_function (imageOptimizationFunction p) \<longrightarrow>
           functionName_ok (resourceName (Some (prefix_of p)) ''image-optimization'')"
    using im by (auto simp: new_ImageOptimization_eq split: if_splits)
  have o: "origin_map_settable m p"
    using ni unfolding dsv
    by (simp add: origin_map_settable_def split_keys_nonempty default_server_imported)
  from split_loop_Inr[OF lp] n1 n2 n3 n5 o show "framework_accepts m p"
    by (simp add: framework_accepts_def names_accepted_def)
qed

lemma build_Inr_iff:
  "(\<exists>g. new_OpenNextCdk m p now = Inr g) = (valid_manifest m \<and> framework_accepts m p)"
proof
  assume "\<exists>g. new_OpenNextCdk m p now = Inr g"
  then show "valid_manifest m \<and> framework_accepts m p" using build_accepts by blast
next
  assume a: "valid_manifest m \<and> framework_accepts m p"
  then obtain d0 where "map_of (origins m) ''default'' = Some d0" by (auto elim: valid_obtain)
  from build_Inr[OF this, of p now] a show "\<exists>g. new_OpenNextCdk m p now = Inr g" by blast
qed

text \<open>A build that throws does so whatever the clock reads.\<close>

lemma build_clock_error:
  "new_OpenNextCdk m p t1 = Inl e \<Longrightarrow> new_OpenNextCdk m p t2 = Inl e"
  by (auto simp: new_OpenNextCdk_def Let_def tagCache_seeder_eq split: sum.splits if_splits)

lemma servers_cases:
  assumes "map_of (origins m) ''default'' = Some d0"
      and "new_OpenNextCdk m p now = Inr g"
      and "(k, s) \<in> set (servers g)"
  shows "(k = ''default'' \<and>
          (s = default_server m p d0 \<or>
           s = (default_server m p d0)\<lparr>fn :=
                  addEnvironment (fn (default_server m p d0)) ''OPEN_NEXT_ORIGIN''
                    (LazyJson (originMap ((''default'', default_server m p d0)
                                            # split_servers m p)))\<rparr>))
         \<or> (k \<in> compute_split_keys m \<and> (k, s) \<in> set (split_servers m p))"
proof -
  from build_servers[OF assms(1) build_accepts(2)[OF assms(2)], of now] assms(2)
  have "servers g =
          (if getSplitFunctionOrigins m \<noteq> [] then
             (''default'',
              (default_server m p d0)\<lparr>fn :=
                 addEnvironment (fn (default_server m p d0)) ''OPEN_NEXT_ORIGIN''
                   (LazyJson (originMap ((''default'', default_server m p d0)
                                           # split_servers m p)))\<rparr>)
             # split_servers m p
           else (''default'', default_server m p d0) # split_servers m p)" by auto
  with assms(3) have "(k = ''default'' \<and>
          (s = default_server m p d0 \<or>
           s = (default_server m p d0)\<lparr>fn :=
                  addEnvironment (fn (default_server m p d0)) ''OPEN_NEXT_ORIGIN''
                    (LazyJson (originMap ((''default'', default_server m p d0)
                                            # split_servers m p)))\<rparr>))
         \<or> (k, s) \<in> set (split_servers m p)"
    by (auto split: if_splits)
  moreover have "(k, s) \<in> set (split_servers m p) \<Longrightarrow> k \<in> compute_split_keys m"
    using split_servers_set[of m p] by force
  ultimately show ?thesis by blast
qed

lemma default_entry:
  assumes "map_of (origins m) ''default'' = Some d0" and "new_OpenNextCdk m p now = Inr g"
  shows "\<exists>s. map_of (servers g) ''default'' = Some s
           \<and> url (functionUrl s) = ServerFunctionUrl ''default''"
proof -
  from build_servers[OF assms(1) build_accepts(2)[OF assms(2)], of now] assms(2)
  have "servers g =
          (if getSplitFunctionOrigins m \<noteq> [] then
             (''default'',
              (default_server m p d0)\<lparr>fn :=
                 addEnvironment (fn (default_server m p d0)) ''OPEN_NEXT_ORIGIN''
                   (LazyJson (originMap ((''default'', default_server m p d0)
                                           # split_servers m p)))\<rparr>)
             # split_servers m p
           else (''default'', default_server m p d0) # split_servers m p)" by auto
  then show ?thesis
    by (cases "getSplitFunctionOrigins m = []") (simp_all add: default_server_url)
qed

section \<open>Concrete inputs that the framework accepts\<close>

lemma split_valid: "valid_manifest split_manifest"
  by (simp add: valid_manifest_def split_manifest_def)

lemma basic_default: "map_of (origins basic_manifest) ''default'' = Some function_origin"
  by (simp add: basic_manifest_def)

lemma basic_valid: "valid_manifest basic_manifest"
  by (simp add: valid_manifest_def basic_default)

lemma basic_no_keys: "non_reserved_keys basic_manifest = {}"
  by (auto simp: non_reserved_keys_def basic_manifest_def reserved_def)

lemma split_manifest_keys:
  "compute_split_keys split_manifest = {''api''}"
  "non_reserved_keys split_manifest \<noteq> {}"
proof -
  show "compute_split_keys split_manifest = {''api''}"
    by (auto simp: compute_split_keys_def split_manifest_def reserved_def function_origin_def
          static_origin_def split: if_splits)
  have "''api'' \<in> non_reserved_keys split_manifest"
    by (simp add: non_reserved_keys_def split_manifest_def reserved_def)
  then show "non_reserved_keys split_manifest \<noteq> {}" by blast
qed

lemma basic_compute_keys: "compute_split_keys basic_manifest = {}"
  by (auto simp: compute_split_keys_def basic_manifest_def reserved_def)

lemma static_extra_keys:
  "valid_manifest static_extra_manifest"
  "non_reserved_keys static_extra_manifest \<noteq> {}"
  "compute_split_keys static_extra_manifest = {}"
proof -
  show "valid_manifest static_extra_manifest"
    by (simp add: valid_manifest_def static_extra_manifest_def)
  have "''extra'' \<in> non_reserved_keys static_extra_manifest"
    by (simp add: non_reserved_keys_def static_extra_manifest_def reserved_def)
  then show "non_reserved_keys static_extra_manifest \<noteq> {}" by blast
  show "compute_split_keys static_extra_manifest = {}"
    by (auto simp: compute_split_keys_def static_extra_manifest_def reserved_def
          function_origin_def static_origin_def split: if_splits)
qed

lemma names_plain:
  assumes "prefix p = None"
      and "\<forall>k \<in> compute_split_keys m. functionName_ok (''opennext-'' @ k)"
  shows "names_accepted m p"
proof -
  have ok: "functionName_ok ''opennext-revalidation''" "functionName_ok ''opennext-tag-cache-seeder''"
    "functionName_ok ''opennext-server''" "functionName_ok ''opennext-image-optimization''"
    by (simp_all add: functionName_ok_def alphanumeric_def)
  show ?thesis
    using assms ok
    by (simp add: names_accepted_def prefix_of_def DEFAULT_PREFIX_def resourceName_def)
qed

lemma accepts_plain:
  assumes "prefix p = None"
      and "serverFunction p = None \<or>
           (\<exists>opts. serverFunction p = Some opts \<and> existingFunction opts = None)"
      and "\<forall>k \<in> compute_split_keys m. functionName_ok (''opennext-'' @ k)"
      and "ids_distinct m"
  shows "framework_accepts m p"
proof -
  have "names_accepted m p" using assms(1,3) by (rule names_plain)
  moreover have "origin_map_settable m p"
    using assms(2) by (auto simp: origin_map_settable_def)
  ultimately show ?thesis using assms(4) by (simp add: framework_accepts_def)
qed

lemma api_name: "functionName_ok ''opennext-api''"
  by (simp add: functionName_ok_def alphanumeric_def)

lemma split_accepts: "framework_accepts split_manifest no_props"
  by (rule accepts_plain)
     (simp_all add: no_props_def split_manifest_keys(1) ids_distinct_def api_name)

lemma split_accepts_disabled: "framework_accepts split_manifest disabled_props"
  by (rule accepts_plain)
     (simp_all add: disabled_props_def no_props_def split_manifest_keys(1) ids_distinct_def
        api_name)

lemma basic_accepts: "framework_accepts basic_manifest no_props"
  by (rule accepts_plain) (simp_all add: no_props_def basic_compute_keys ids_distinct_def)

lemma basic_accepts_table_variable: "framework_accepts basic_manifest table_variable_props"
  by (rule accepts_plain)
     (simp_all add: table_variable_props_def disabled_props_def no_props_def basic_compute_keys
        ids_distinct_def)

lemma basic_accepts_origin_variable: "framework_accepts basic_manifest origin_variable_props"
  by (rule accepts_plain)
     (simp_all add: origin_variable_props_def no_props_def basic_compute_keys ids_distinct_def)

lemma static_extra_accepts: "framework_accepts static_extra_manifest no_props"
  by (rule accepts_plain)
     (simp_all add: no_props_def static_extra_keys(3) ids_distinct_def)

section \<open>Inputs on which the constructor throws\<close>

text \<open>
  The three refusals at work. A split key with a slash makes a function name that
  \<^verbatim>\<open>new lambda.Function\<close> refuses; two split keys that differ only in a character that
  \<^verbatim>\<open>originKeyToSuffix\<close> turns into a hyphen ask for the same construct id; and the origin
  map cannot be set on an imported default function.
\<close>

lemma suffix_examples:
  "originKeyToSuffix ''api/trpc'' = ''api-trpc''"
  "originKeyToSuffix ''api_x'' = ''api-x''"
  "originKeyToSuffix ''api-x'' = ''api-x''"
  "originKeyToSuffix ''/'' = []"
  "originKeyToSuffix ''--a//b--'' = ''a-b''"
  by (simp_all add: originKeyToSuffix_def strip_hyphens_def alphanumeric_def)

lemma default_steps:
  assumes "prefix p = None" and "OpenNextCdkProps.revalidation p = None"
      and "\<not> seederEligible m p" and "map_of (origins m) ''default'' = Some d0"
      and "creates_function (serverFunction p)"
  shows "new_Revalidation (prefix_of p) (createAssetsBucket p) (tagCache_table m p)
           (OpenNextCdkProps.revalidation p)
         = Inr (Revalidation_fields (prefix_of p) (createAssetsBucket p) (tagCache_table m p)
                  (OpenNextCdkProps.revalidation p))"
    and "tagCache_seeder m p now = Inr (seeder_fields m p now)"
    and "new_ServerFunction (prefix_of p) ''default'' (Some d0)
           (createAssetsBucket p) (tagCache_table m p) (serverFunction p)
           (disableIncrementalCache_of m) = Inr (default_server m p d0)"
  using assms
  by (simp_all add: new_Revalidation_eq tagCache_seeder_eq new_ServerFunction_Some
        default_server_def prefix_of_def DEFAULT_PREFIX_def resourceName_def functionName_ok_def
        alphanumeric_def)

lemma trpc_facts:
  "map_of (origins trpc_manifest) ''default'' = Some function_origin"
  "\<not> seederEligible trpc_manifest no_props"
  "getSplitFunctionOrigins trpc_manifest = [''api/trpc'']"
  "map_of (origins trpc_manifest) ''api/trpc'' = Some function_origin"
  by (simp_all add: trpc_manifest_def seederEligible_def getSplitFunctionOrigins_def
        Object_keys_def reserved_def)

lemma function_type: "type function_origin = ''function''"
  by (simp add: function_origin_def)

lemma no_props_facts:
  "prefix no_props = None" "OpenNextCdkProps.revalidation no_props = None"
  "creates_function (serverFunction no_props)" "splitFnOpts no_props k = None"
  by (simp_all add: no_props_def creates_function_def splitFnOpts_def)

lemma build_refuses_name:
  "new_OpenNextCdk trpc_manifest no_props now = Inl (ValidationError ''opennext-api/trpc'')"
proof -
  note st = default_steps[OF no_props_facts(1,2) trpc_facts(2,1) no_props_facts(3)]
  have "new_ServerFunction (prefix_of no_props) ''api/trpc'' (Some function_origin)
          (createAssetsBucket no_props) (tagCache_table trpc_manifest no_props)
          (splitFnOpts no_props ''api/trpc'') (disableIncrementalCache_of trpc_manifest)
        = Inl (ValidationError ''opennext-api/trpc'')"
    by (simp add: new_ServerFunction_Some no_props_facts creates_function_def prefix_of_def
          DEFAULT_PREFIX_def resourceName_def functionName_ok_def alphanumeric_def)
  then show ?thesis
    by (simp add: new_OpenNextCdk_def Let_def st trpc_facts function_type split_id_def)
qed

lemma clash_facts:
  "map_of (origins clash_manifest) ''default'' = Some function_origin"
  "\<not> seederEligible clash_manifest no_props"
  "getSplitFunctionOrigins clash_manifest = [''api_x'', ''api-x'']"
  "map_of (origins clash_manifest) ''api_x'' = Some function_origin"
  "map_of (origins clash_manifest) ''api-x'' = Some function_origin"
  by (simp_all add: clash_manifest_def seederEligible_def getSplitFunctionOrigins_def
        Object_keys_def reserved_def)

lemma build_refuses_id:
  "new_OpenNextCdk clash_manifest no_props now = Inl (ConstructExists ''ServerFunction-api-x'')"
proof -
  note st = default_steps[OF no_props_facts(1,2) clash_facts(2,1) no_props_facts(3)]
  have "new_ServerFunction (prefix_of no_props) ''api_x'' (Some function_origin)
          (createAssetsBucket no_props) (tagCache_table clash_manifest no_props)
          (splitFnOpts no_props ''api_x'') (disableIncrementalCache_of clash_manifest)
        = Inr (ServerFunction_fields (prefix_of no_props) ''api_x'' function_origin
                 (createAssetsBucket no_props) (tagCache_table clash_manifest no_props)
                 (splitFnOpts no_props ''api_x'') (disableIncrementalCache_of clash_manifest))"
    by (simp add: new_ServerFunction_Some no_props_facts creates_function_def prefix_of_def
          DEFAULT_PREFIX_def resourceName_def functionName_ok_def alphanumeric_def)
  then show ?thesis
    by (simp add: new_OpenNextCdk_def Let_def st clash_facts function_type split_id_def
          suffix_examples)
qed

lemma build_imported:
  assumes "map_of (origins m) ''default'' = Some d0" and "names_accepted m p"
      and "ids_distinct m" and "\<not> origin_map_settable m p"
  shows "new_OpenNextCdk m p now = Inl TypeError"
proof -
  have n: "functionName_ok (resourceName (Some (prefix_of p)) ''revalidation'')"
      "seederEligible m p \<longrightarrow>
           functionName_ok (resourceName (Some (prefix_of p)) ''tag-cache-seeder'')"
      "creates_function (serverFunction p) \<longrightarrow>
           functionName_ok (resourceName (Some (prefix_of p)) ''server'')"
      "\<forall>k \<in> compute_split_keys m.
           creates_function (splitFnOpts p k) \<longrightarrow>
             functionName_ok (resourceName (Some (prefix_of p)) k)"
    using assms(2) by (simp_all add: names_accepted_def)
  have r: "new_Revalidation (prefix_of p) (createAssetsBucket p) (tagCache_table m p)
             (OpenNextCdkProps.revalidation p)
           = Inr (Revalidation_fields (prefix_of p) (createAssetsBucket p) (tagCache_table m p)
                    (OpenNextCdkProps.revalidation p))"
    using n(1) by (simp add: new_Revalidation_eq)
  have sd: "tagCache_seeder m p now = Inr (seeder_fields m p now)"
    using n(2) by (auto simp: tagCache_seeder_eq)
  have ds: "new_ServerFunction (prefix_of p) ''default'' (map_of (origins m) ''default'')
              (createAssetsBucket p) (tagCache_table m p) (serverFunction p)
              (disableIncrementalCache_of m) = Inr (default_server m p d0)"
    using assms(1) n(3) by (simp add: new_ServerFunction_Some default_server_def)
  have lp: "split_functions (prefix_of p) m p (createAssetsBucket p) (tagCache_table m p)
              (disableIncrementalCache_of m) (getSplitFunctionOrigins m) [''ServerFunction'']
              [(''default'', default_server m p d0)]
            = Inr ((''default'', default_server m p d0) # split_servers m p)"
    unfolding split_servers_def by (rule split_loop[OF n(4) assms(3)])
  have ni: "getSplitFunctionOrigins m \<noteq> []" "imported (fn (default_server m p d0))"
    using assms(4)
    by (simp_all add: origin_map_settable_def split_keys_nonempty default_server_imported)
  show ?thesis
    using ni by (simp add: new_OpenNextCdk_def Let_def r sd ds lp cast_addEnvironment_def)
qed

lemma build_refuses_imported:
  "new_OpenNextCdk split_manifest imported_props now = Inl TypeError"
proof (rule build_imported)
  show "map_of (origins split_manifest) ''default'' = Some function_origin"
    by (simp add: split_manifest_def)
  show "names_accepted split_manifest imported_props"
    by (rule names_plain)
       (simp_all add: imported_props_def no_props_def split_manifest_keys(1) api_name)
  show "ids_distinct split_manifest"
    by (simp add: ids_distinct_def split_manifest_keys(1))
  show "\<not> origin_map_settable split_manifest imported_props"
    using split_manifest_keys(2)
    by (simp add: origin_map_settable_def imported_props_def no_props_def)
qed

section \<open>Routing rules\<close>

lemma fold_filter_noop:
  assumes "\<And>b acc. b \<in> set bs \<Longrightarrow> \<not> P b \<Longrightarrow> f b acc = acc"
  shows "fold f (filter P bs) acc = fold f bs acc"
  using assms by (induction bs arbitrary: acc) auto

lemma catch_all_noop:
  "catch_all b \<Longrightarrow> additionalBehavior s3 img cp orp cf so rhp b acc = acc"
  by (simp add: additionalBehavior_def catch_all_def)

lemma additionalBehavior_other_pattern:
  "pat \<noteq> pattern b \<Longrightarrow> additionalBehavior s3 img cp orp cf so rhp b acc pat = acc pat"
  by (auto simp: additionalBehavior_def js_set_def Let_def split: option.splits)

lemma additionalBehavior_catch_all_key:
  assumes "pat = ''*'' \<or> pat = ''/*''"
  shows "additionalBehavior s3 img cp orp cf so rhp b acc pat = acc pat"
proof (cases "pat = pattern b")
  case True
  with assms have "catch_all b" by (auto simp: catch_all_def)
  then show ?thesis by (simp add: catch_all_noop)
next
  case False
  then show ?thesis by (rule additionalBehavior_other_pattern)
qed

lemma createAdditionalBehaviors_catch_all_key:
  assumes "pat = ''*'' \<or> pat = ''/*''"
  shows "createAdditionalBehaviors bs s3 img cp orp cf so rhp pat = None"
proof -
  have "fold (additionalBehavior s3 img cp orp cf so rhp) bs acc pat = acc pat" for acc
    by (induction bs arbitrary: acc) (simp_all add: additionalBehavior_catch_all_key[OF assms])
  then show ?thesis by (simp add: createAdditionalBehaviors_def)
qed

lemma createAdditionalBehaviors_without_catch_all:
  "createAdditionalBehaviors (filter (\<lambda>b. \<not> catch_all b) bs) s3 img cp orp cf so rhp
     = createAdditionalBehaviors bs s3 img cp orp cf so rhp"
  unfolding createAdditionalBehaviors_def
  by (rule fold_filter_noop) (simp add: catch_all_noop)

lemma manifest_rules_catch_all:
  "pat = ''*'' \<or> pat = ''/*'' \<Longrightarrow> manifest_rules m p pat = None"
  unfolding manifest_rules_def by (rule createAdditionalBehaviors_catch_all_key)

lemma assign_catch_all:
  assumes "pat = ''*'' \<or> pat = ''/*''"
  shows "Object_assign (manifest_rules m p) (caller_rules p) pat = caller_rules p pat"
  using assms manifest_rules_catch_all[OF assms, of m p]
  by (auto simp: Object_assign_def split: option.splits)

lemma server_origins_lookup:
  "map_of (server_origins m p) name =
     (if name = ''default'' \<or> name \<in> compute_split_keys m
      then Some (HttpOrigin (ServerFunctionUrl name)) else None)"
proof (cases "name = ''default''")
  case True
  then show ?thesis by (simp add: server_origins_def)
next
  case False
  let ?xs = "map (\<lambda>(k, s). (k, HttpOrigin (url (functionUrl s)))) (split_servers m p)"
  have keys: "fst ` set ?xs = compute_split_keys m"
    using split_servers_set[of m p] by (force simp: image_iff)
  show ?thesis
  proof (cases "name \<in> compute_split_keys m")
    case True
    then obtain s where s: "(name, s) \<in> set (split_servers m p)"
      using split_servers_set[of m p] by force
    have d: "distinct (map fst ?xs)"
      using split_servers_distinct[of m p] by (simp add: comp_def case_prod_unfold)
    have "(name, HttpOrigin (url (functionUrl s))) \<in> set ?xs" using s by force
    then have "map_of ?xs name = Some (HttpOrigin (url (functionUrl s)))"
      using d by (rule map_of_is_SomeI[rotated])
    with False True split_servers_url[OF s] show ?thesis by (simp add: server_origins_def)
  next
    case nk: False
    then have "map_of ?xs name = None" using keys by (simp add: map_of_eq_None_iff)
    with False nk show ?thesis by (simp add: server_origins_def)
  qed
qed

lemma unresolved_noop:
  assumes "behavior_role m b = None"
  shows "additionalBehavior s3 img cp orp cf (server_origins m p) rhp b acc = acc"
proof (cases "OpenNextBehavior.origin b")
  case None
  then show ?thesis by (simp add: additionalBehavior_def Let_def)
next
  case (Some name)
  with assms have r: "origin_role m name = None" by (simp add: behavior_role_def)
  then have n: "name \<noteq> ''s3''" "name \<noteq> ''imageOptimizer''" "name \<noteq> ''default''"
    by (auto simp: origin_role_def split: if_splits)
  from r n have "name \<notin> compute_split_keys m"
    by (auto simp: origin_role_def compute_split_keys_def split: option.splits if_splits)
  with n have "map_of (server_origins m p) name = None" by (simp add: server_origins_lookup)
  with Some n show ?thesis by (simp add: additionalBehavior_def Let_def)
qed

lemma manifest_rules_resolved:
  "createAdditionalBehaviors (filter (\<lambda>b. behavior_role m b \<noteq> None) bs) s3 img cp orp cf
       (server_origins m p) rhp
     = createAdditionalBehaviors bs s3 img cp orp cf (server_origins m p) rhp"
  unfolding createAdditionalBehaviors_def
  by (rule fold_filter_noop) (simp add: unresolved_noop)

lemma edge_warnings_declared:
  "edge_warnings m = (if edge_functions_declared m then [edge_functions_warning] else [])"
  by (auto simp: edge_warnings_def edge_functions_declared_def Object_keys_def split: option.splits)

text \<open>Nothing but the rules made from the manifest depends on the list of behaviors.\<close>

lemma upd_table: "tagCache_table (m\<lparr>behaviors := bs\<rparr>) p = tagCache_table m p"
  by (simp add: tagCache_table_def disableTagCache_of_def)

lemma upd_seeder: "seeder_fields (m\<lparr>behaviors := bs\<rparr>) p now = seeder_fields m p now"
  by (simp add: seeder_fields_def upd_table hasInitializationFunction_def split: option.splits)

lemma upd_warnings: "edge_warnings (m\<lparr>behaviors := bs\<rparr>) = edge_warnings m"
  by (simp add: edge_warnings_def)

lemma upd_keys: "getSplitFunctionOrigins (m\<lparr>behaviors := bs\<rparr>) = getSplitFunctionOrigins m"
  by (simp add: getSplitFunctionOrigins_def)

lemma upd_path: "getS3OriginPath (m\<lparr>behaviors := bs\<rparr>) = getS3OriginPath m"
  by (simp add: getS3OriginPath_def)

lemma upd_incremental:
  "disableIncrementalCache_of (m\<lparr>behaviors := bs\<rparr>) = disableIncrementalCache_of m"
  by (simp add: disableIncrementalCache_of_def)

lemma upd_default_server: "default_server (m\<lparr>behaviors := bs\<rparr>) p d0 = default_server m p d0"
  by (simp add: default_server_def upd_table upd_incremental)

lemma upd_split_entry:
  "split_entry pre (m\<lparr>behaviors := bs\<rparr>) p b t d = split_entry pre m p b t d"
  by (simp add: split_entry_def fun_eq_iff split: option.splits)

lemma upd_split_servers: "split_servers (m\<lparr>behaviors := bs\<rparr>) p = split_servers m p"
  by (simp add: split_servers_def upd_table upd_incremental upd_split_entry upd_keys)

lemma upd_server_origins: "server_origins (m\<lparr>behaviors := bs\<rparr>) p = server_origins m p"
  by (simp add: server_origins_def upd_split_servers)

lemmas upd_simps =
  upd_table upd_seeder upd_warnings upd_keys upd_path upd_incremental upd_default_server
  upd_split_servers upd_server_origins

lemma upd_accepts: "framework_accepts (m\<lparr>behaviors := bs\<rparr>) p = framework_accepts m p"
  by (simp add: framework_accepts_def names_accepted_def ids_distinct_def
        origin_map_settable_def compute_split_keys_def non_reserved_keys_def seederEligible_def
        tagCacheDisabled_def)

lemma build_behaviors_eq:
  assumes d0: "map_of (origins m) ''default'' = Some d0"
      and acc: "framework_accepts m p"
      and r: "createAdditionalBehaviors bs
                (createS3Origin (createAssetsBucket p) (getS3OriginPath m))
                (createImageOptimOrigin ImageOptimizationUrl)
                (createCachePolicy (OpenNextCdkProps.distribution p) (prefix_of p))
                (createOriginRequestPolicy (prefix_of p))
                (createCloudFrontFunction (prefix_of p))
                (server_origins m p)
                (createResponseHeadersPolicy (prefix_of p) (OpenNextCdkProps.distribution p))
              = manifest_rules m p"
  shows "new_OpenNextCdk (m\<lparr>behaviors := bs\<rparr>) p now = new_OpenNextCdk m p now"
proof -
  let ?m = "m\<lparr>behaviors := bs\<rparr>"
  have d0': "map_of (origins ?m) ''default'' = Some d0" using d0 by simp
  have mr: "manifest_rules ?m p = manifest_rules m p"
    using r by (simp add: manifest_rules_def upd_simps)
  have acc': "framework_accepts ?m p" using acc by (simp add: upd_accepts)
  from build_servers[OF d0 acc, of now] obtain g where g: "new_OpenNextCdk m p now = Inr g"
     and gf: "bucket g = createAssetsBucket p"
       "tagCacheTable g = tagCache_table m p"
       "revalidation g =
          Revalidation_fields (prefix_of p) (createAssetsBucket p) (tagCache_table m p)
            (OpenNextCdkProps.revalidation p)"
       "tagCacheSeeder g = seeder_fields m p now"
       "warnings g = edge_warnings m"
       "servers g =
          (if getSplitFunctionOrigins m \<noteq> [] then
             (''default'',
              (default_server m p d0)\<lparr>fn :=
                 addEnvironment (fn (default_server m p d0)) ''OPEN_NEXT_ORIGIN''
                   (LazyJson (originMap ((''default'', default_server m p d0)
                                           # split_servers m p)))\<rparr>)
             # split_servers m p
           else (''default'', default_server m p d0) # split_servers m p)"
       "imageOptimization g =
          ImageOptimization_fields (prefix_of p) (createAssetsBucket p)
            (imageOptimizationFunction p) (getS3OriginPath m)"
       "distribution g =
          \<lparr>comment = resourceName (Some (prefix_of p)) ''distribution'',
           defaultBehavior = default_rule p,
           additionalBehaviors = Object_assign (manifest_rules m p) (caller_rules p)\<rparr>"
    by blast
  from build_servers[OF d0' acc', of now] obtain h where h: "new_OpenNextCdk ?m p now = Inr h"
     and hf: "bucket h = createAssetsBucket p"
       "tagCacheTable h = tagCache_table ?m p"
       "revalidation h =
          Revalidation_fields (prefix_of p) (createAssetsBucket p) (tagCache_table ?m p)
            (OpenNextCdkProps.revalidation p)"
       "tagCacheSeeder h = seeder_fields ?m p now"
       "warnings h = edge_warnings ?m"
       "servers h =
          (if getSplitFunctionOrigins ?m \<noteq> [] then
             (''default'',
              (default_server ?m p d0)\<lparr>fn :=
                 addEnvironment (fn (default_server ?m p d0)) ''OPEN_NEXT_ORIGIN''
                   (LazyJson (originMap ((''default'', default_server ?m p d0)
                                           # split_servers ?m p)))\<rparr>)
             # split_servers ?m p
           else (''default'', default_server ?m p d0) # split_servers ?m p)"
       "imageOptimization h =
          ImageOptimization_fields (prefix_of p) (createAssetsBucket p)
            (imageOptimizationFunction p) (getS3OriginPath ?m)"
       "distribution h =
          \<lparr>comment = resourceName (Some (prefix_of p)) ''distribution'',
           defaultBehavior = default_rule p,
           additionalBehaviors = Object_assign (manifest_rules ?m p) (caller_rules p)\<rparr>"
    by blast
  have "h = g"
  proof (rule OpenNextCdk.equality)
    show "bucket h = bucket g" by (simp add: gf(1) hf(1))
    show "tagCacheTable h = tagCacheTable g" by (simp add: gf(2) hf(2) upd_simps)
    show "revalidation h = revalidation g" by (simp add: gf(3) hf(3) upd_simps)
    show "tagCacheSeeder h = tagCacheSeeder g" by (simp add: gf(4) hf(4) upd_simps)
    show "warnings h = warnings g" by (simp add: gf(5) hf(5) upd_simps)
    show "servers h = servers g" unfolding gf(6) hf(6) by (simp add: upd_simps)
    show "imageOptimization h = imageOptimization g" by (simp add: gf(7) hf(7) upd_simps)
    show "distribution h = distribution g" by (simp add: gf(8) hf(8) mr)
    show "OpenNextCdk.more h = OpenNextCdk.more g" by simp
  qed
  with g h show ?thesis by simp
qed

text \<open>
  C1: for every valid manifest on which the constructor returns (the framework accepts
  the input) the built distribution has a default rule whose origin is the function URL of the default server function, which allows
  all HTTP methods and carries the server cache policy, the origin-request policy, the
  response-headers policy and the host-rewrite function on viewer requests. No
  behavior entry of the manifest with the pattern \<^verbatim>\<open>*\<close> or \<^verbatim>\<open>/*\<close> makes an additional
  rule: under these two patterns the distribution holds only what the caller passed in,
  and the build is the same as for the manifest without those entries.
\<close>

theorem default_rule_all_methods:
  assumes "valid_manifest m" and "framework_accepts m p"
  shows "\<exists>g s. new_OpenNextCdk m p now = Inr g
     \<and> map_of (servers g) ''default'' = Some s
     \<and> defaultBehavior (distribution g) =
         \<lparr>origin = HttpOrigin (url (functionUrl s)),
          viewerProtocolPolicy = Some REDIRECT_TO_HTTPS,
          allowedMethods = Some ALLOW_ALL,
          cachedMethods = Some CACHE_GET_HEAD_OPTIONS,
          cachePolicy = Some (createCachePolicy (OpenNextCdkProps.distribution p) (prefix_of p)),
          originRequestPolicy = Some (createOriginRequestPolicy (prefix_of p)),
          responseHeadersPolicy =
            Some (createResponseHeadersPolicy (prefix_of p) (OpenNextCdkProps.distribution p)),
          compress = Some True,
          functionAssociations =
            Some [FunctionAssociation (createCloudFrontFunction (prefix_of p)) VIEWER_REQUEST]\<rparr>
     \<and> additionalBehaviors (distribution g) ''*'' = caller_rules p ''*''
     \<and> additionalBehaviors (distribution g) ''/*'' = caller_rules p ''/*''
     \<and> new_OpenNextCdk (m\<lparr>behaviors := filter (\<lambda>b. \<not> catch_all b) (behaviors m)\<rparr>) p now
         = Inr g"
proof -
  from assms(1) obtain d0 where d0: "map_of (origins m) ''default'' = Some d0"
    by (rule valid_obtain)
  from build_servers[OF d0 assms(2), of now] obtain g where
    g: "new_OpenNextCdk m p now = Inr g" and
    d: "distribution g =
          \<lparr>comment = resourceName (Some (prefix_of p)) ''distribution'',
           defaultBehavior = default_rule p,
           additionalBehaviors = Object_assign (manifest_rules m p) (caller_rules p)\<rparr>"
    by blast
  from default_entry[OF d0 g] obtain s where
    s: "map_of (servers g) ''default'' = Some s"
       "url (functionUrl s) = ServerFunctionUrl ''default''"
    by blast
  have "new_OpenNextCdk (m\<lparr>behaviors := filter (\<lambda>b. \<not> catch_all b) (behaviors m)\<rparr>) p now
          = new_OpenNextCdk m p now"
    by (rule build_behaviors_eq[OF d0 assms(2)])
       (unfold manifest_rules_def, rule createAdditionalBehaviors_without_catch_all)
  with g s d show ?thesis
    by (simp add: default_rule_def assign_catch_all)
qed

theorem default_rule_all_methods_witness:
  "valid_manifest split_manifest \<and> framework_accepts split_manifest no_props
   \<and> (\<exists>g s. new_OpenNextCdk split_manifest no_props 0 = Inr g
         \<and> map_of (servers g) ''default'' = Some s
         \<and> BehaviorOptions.origin (defaultBehavior (distribution g))
             = HttpOrigin (url (functionUrl s))
         \<and> allowedMethods (defaultBehavior (distribution g)) = Some ALLOW_ALL
         \<and> additionalBehaviors (distribution g) ''*'' = None
         \<and> additionalBehaviors (distribution g) ''/*'' = None)"
proof -
  have c: "caller_rules no_props = Map.empty"
    by (simp add: caller_rules_def no_props_def)
  from default_rule_all_methods[OF split_valid split_accepts, of 0] obtain g s where
    "new_OpenNextCdk split_manifest no_props 0 = Inr g"
    "map_of (servers g) ''default'' = Some s"
    "BehaviorOptions.origin (defaultBehavior (distribution g)) = HttpOrigin (url (functionUrl s))"
    "allowedMethods (defaultBehavior (distribution g)) = Some ALLOW_ALL"
    "additionalBehaviors (distribution g) ''*'' = caller_rules no_props ''*''"
    "additionalBehaviors (distribution g) ''/*'' = caller_rules no_props ''/*''"
    by fastforce
  with split_valid split_accepts c show ?thesis by auto
qed

text \<open>
  C6: for every valid manifest on which the constructor returns (the framework accepts
  the input) it returns whatever the behaviors are, and the build is the same as for
  the manifest without the behavior entries whose origin
  reference resolves to no origin role (no \<^verbatim>\<open>origin\<close>, as for an entry that only names an
  edge function, or an \<^verbatim>\<open>origin\<close> that is neither reserved nor a compute-typed origin
  key): such an entry emits no rule and raises no error. The build carries exactly
  one warning when the manifest's \<^verbatim>\<open>edgeFunctions\<close> map is non-empty and none otherwise,
  and the warnings do not depend on the behaviors.
\<close>

theorem unresolved_behaviors_dropped:
  assumes "valid_manifest m" and "framework_accepts m p"
  shows "\<exists>g. new_OpenNextCdk m p now = Inr g
     \<and> new_OpenNextCdk
           (m\<lparr>behaviors := filter (\<lambda>b. behavior_role m b \<noteq> None) (behaviors m)\<rparr>) p now
         = Inr g
     \<and> warnings g = (if edge_functions_declared m then [edge_functions_warning] else [])
     \<and> (\<forall>bs. \<exists>g'. new_OpenNextCdk (m\<lparr>behaviors := bs\<rparr>) p now = Inr g'
                   \<and> warnings g' = warnings g)"
proof -
  from assms(1) obtain d0 where d0: "map_of (origins m) ''default'' = Some d0"
    by (rule valid_obtain)
  from build_servers[OF d0 assms(2), of now] obtain g where
    g: "new_OpenNextCdk m p now = Inr g" and w: "warnings g = edge_warnings m" by blast
  have f: "new_OpenNextCdk
             (m\<lparr>behaviors := filter (\<lambda>b. behavior_role m b \<noteq> None) (behaviors m)\<rparr>) p now
          = new_OpenNextCdk m p now"
    by (rule build_behaviors_eq[OF d0 assms(2)]) (unfold manifest_rules_def, rule manifest_rules_resolved)
  have any: "\<exists>g'. new_OpenNextCdk (m\<lparr>behaviors := bs\<rparr>) p now = Inr g'
                 \<and> warnings g' = warnings g" for bs
  proof -
    have "map_of (origins (m\<lparr>behaviors := bs\<rparr>)) ''default'' = Some d0" using d0 by simp
    moreover have "framework_accepts (m\<lparr>behaviors := bs\<rparr>) p"
      using assms(2) by (simp add: upd_accepts)
    ultimately obtain g' where
      "new_OpenNextCdk (m\<lparr>behaviors := bs\<rparr>) p now = Inr g'"
      "warnings g' = edge_warnings (m\<lparr>behaviors := bs\<rparr>)"
      using build_servers[of "m\<lparr>behaviors := bs\<rparr>" d0 p now] by blast
    then show ?thesis using w by (simp add: upd_warnings)
  qed
  from g f w any show ?thesis by (simp add: edge_warnings_declared)
qed

theorem unresolved_behaviors_dropped_witness:
  "valid_manifest split_manifest \<and> framework_accepts split_manifest no_props
   \<and> behavior_role split_manifest
        \<lparr>pattern = ''edge/*'', origin = None, edgeFunction = Some ''middleware''\<rparr> = None
   \<and> (\<exists>g. new_OpenNextCdk split_manifest no_props 0 = Inr g
         \<and> new_OpenNextCdk
              (split_manifest\<lparr>behaviors :=
                 [\<lparr>pattern = ''assets/*'', origin = Some ''s3'', edgeFunction = None\<rparr>,
                  \<lparr>pattern = ''api/*'', origin = Some ''api'', edgeFunction = None\<rparr>,
                  \<lparr>pattern = ''*'', origin = Some ''default'', edgeFunction = None\<rparr>]\<rparr>)
              no_props 0 = Inr g
         \<and> warnings g = [edge_functions_warning])"
proof -
  have r: "behavior_role split_manifest
        \<lparr>pattern = ''edge/*'', origin = None, edgeFunction = Some ''middleware''\<rparr> = None"
    by (simp add: behavior_role_def)
  have f: "filter (\<lambda>b. behavior_role split_manifest b \<noteq> None) (behaviors split_manifest) =
       [\<lparr>pattern = ''assets/*'', origin = Some ''s3'', edgeFunction = None\<rparr>,
        \<lparr>pattern = ''api/*'', origin = Some ''api'', edgeFunction = None\<rparr>,
        \<lparr>pattern = ''*'', origin = Some ''default'', edgeFunction = None\<rparr>]"
    by (simp add: split_manifest_def behavior_role_def origin_role_def function_origin_def)
  have e: "edge_functions_declared split_manifest"
    by (simp add: edge_functions_declared_def split_manifest_def)
  from unresolved_behaviors_dropped[OF split_valid split_accepts, of 0] obtain g where
    "new_OpenNextCdk split_manifest no_props 0 = Inr g"
    "new_OpenNextCdk
       (split_manifest\<lparr>behaviors :=
          filter (\<lambda>b. behavior_role split_manifest b \<noteq> None) (behaviors split_manifest)\<rparr>)
       no_props 0 = Inr g"
    "warnings g = (if edge_functions_declared split_manifest
                   then [edge_functions_warning] else [])"
    by blast
  with split_valid split_accepts r e show ?thesis unfolding f by auto
qed

section \<open>Feature flags, environment variables and grants\<close>

lemma seeder_none: "\<not> seederEligible m p \<Longrightarrow> seeder_fields m p t = None"
  using seeder_fields_iff[of m p t] by simp

lemma body_table_variable:
  "variables (fn (ServerFunction_fields pre k orig b None f d)) ''CACHE_DYNAMO_TABLE''
     = caller_variable f ''CACHE_DYNAMO_TABLE''"
proof (cases f)
  case None
  then show ?thesis
    by (simp add: ServerFunction_fields_def caller_variable_def Let_def spread_environment_def
          map_add_def)
next
  case (Some opts)
  then show ?thesis
    by (cases "existingFunction opts")
       (simp_all add: ServerFunction_fields_def caller_variable_def Let_def map_add_def
          split: option.splits)
qed

lemma revalidation_table_variable:
  "variables (revalidationFn (Revalidation_fields pre b None opts)) ''CACHE_DYNAMO_TABLE''
     = spread_environment
         (case opts of None \<Rightarrow> None | Some r \<Rightarrow> RevalidationQueueOptions.functionOptions r)
         ''CACHE_DYNAMO_TABLE''"
  by (simp add: Revalidation_fields_def Let_def map_add_def split: option.splits)

lemma image_table_variable:
  "variables (imageFn (ImageOptimization_fields pre b f k)) ''CACHE_DYNAMO_TABLE''
     = caller_variable f ''CACHE_DYNAMO_TABLE''"
proof (cases f)
  case None
  then show ?thesis
    by (simp add: ImageOptimization_fields_def caller_variable_def map_add_def spread_environment_def)
next
  case (Some opts)
  then show ?thesis
    by (cases "existingFunction opts")
       (simp_all add: ImageOptimization_fields_def caller_variable_def map_add_def
          split: option.splits)
qed

lemma body_without_overrides:
  "omits_bucket (fn (ServerFunction_fields pre k orig b t None True))
   \<and> receives_queue (fn (ServerFunction_fields pre k orig b t None True))"
  by (simp add: omits_bucket_def receives_queue_def ServerFunction_fields_def Let_def
        spread_environment_def map_add_def split: option.splits)

lemma added_origin_map_keeps:
  "omits_bucket f \<and> receives_queue f \<Longrightarrow>
     omits_bucket (addEnvironment f ''OPEN_NEXT_ORIGIN'' v)
     \<and> receives_queue (addEnvironment f ''OPEN_NEXT_ORIGIN'' v)"
  by (simp add: omits_bucket_def receives_queue_def addEnvironment_def)

lemma revalidation_bucket: "receives_bucket (revalidationFn (Revalidation_fields pre b t opts))"
  by (simp add: receives_bucket_def Revalidation_fields_def Let_def addEnvironment_def map_add_def
        spread_environment_def split: option.splits)

lemma revalidation_bucket_values:
  "variables (revalidationFn (Revalidation_fields pre b t None)) ''CACHE_BUCKET_NAME''
     = Some (BucketName b)
   \<and> variables (revalidationFn (Revalidation_fields pre b t None)) ''CACHE_BUCKET_KEY_PREFIX''
     = Some (Str ''_cache'')
   \<and> variables (revalidationFn (Revalidation_fields pre b t None)) ''CACHE_BUCKET_REGION''
     = Some StackRegion"
  by (simp add: Revalidation_fields_def Let_def addEnvironment_def map_add_def spread_environment_def
        split: option.splits)

text \<open>
  C3: for every valid manifest on which the constructor returns (the framework accepts
  the input) the built construct has a seeder if and only if \<open>seederEligible\<close> holds, that is, the tag cache is not disabled
  (neither by the caller's \<^verbatim>\<open>tagCache.disabled\<close> nor by the manifest's \<^verbatim>\<open>disableTagCache\<close>)
  and the manifest declares an initialization function.
\<close>

theorem seeder_iff_eligible:
  assumes "valid_manifest m" and "framework_accepts m p"
  shows "\<exists>g. new_OpenNextCdk m p now = Inr g
           \<and> ((tagCacheSeeder g \<noteq> None) = seederEligible m p)"
proof -
  from assms(1) obtain d0 where "map_of (origins m) ''default'' = Some d0" by (rule valid_obtain)
  from build_servers[OF this assms(2), of now] obtain g where
    "new_OpenNextCdk m p now = Inr g" "tagCacheSeeder g = seeder_fields m p now" by blast
  then show ?thesis using seeder_fields_iff[of m p now] by auto
qed

theorem seeder_iff_eligible_witness:
  "valid_manifest split_manifest
   \<and> framework_accepts split_manifest no_props
   \<and> framework_accepts split_manifest disabled_props
   \<and> seederEligible split_manifest no_props
   \<and> (\<exists>g. new_OpenNextCdk split_manifest no_props 0 = Inr g \<and> tagCacheSeeder g \<noteq> None)
   \<and> \<not> seederEligible split_manifest disabled_props
   \<and> (\<exists>g. new_OpenNextCdk split_manifest disabled_props 0 = Inr g \<and> tagCacheSeeder g = None)"
proof -
  have a: "seederEligible split_manifest no_props"
    by (simp add: seederEligible_def tagCacheDisabled_def split_manifest_def no_props_def)
  have b: "\<not> seederEligible split_manifest disabled_props"
    by (simp add: seederEligible_def tagCacheDisabled_def disabled_props_def no_props_def)
  from seeder_iff_eligible[OF split_valid split_accepts, of 0] a
  have 1: "\<exists>g. new_OpenNextCdk split_manifest no_props 0 = Inr g \<and> tagCacheSeeder g \<noteq> None"
    by auto
  from seeder_iff_eligible[OF split_valid split_accepts_disabled, of 0] b
  have 2: "\<exists>g. new_OpenNextCdk split_manifest disabled_props 0 = Inr g \<and> tagCacheSeeder g = None"
    by auto
  from split_valid split_accepts split_accepts_disabled a b 1 2 show ?thesis by blast
qed

lemma default_function_built:
  assumes "map_of (origins m) ''default'' = Some d0" and "framework_accepts m p"
  shows "\<exists>g. new_OpenNextCdk m p now = Inr g \<and>
     default_function g =
       Some (if non_reserved_keys m \<noteq> {}
             then addEnvironment (fn (default_server m p d0)) ''OPEN_NEXT_ORIGIN''
                    (LazyJson (\<lambda>k. if k \<in> compute_split_keys m \<and> k \<noteq> ''__proto__''
                                    then Some (ServerFunctionUrl k) else None))
             else fn (default_server m p d0))"
proof -
  from build_servers[OF assms, of now] obtain g where
    g: "new_OpenNextCdk m p now = Inr g" and
    s: "servers g =
          (if getSplitFunctionOrigins m \<noteq> [] then
             (''default'',
              (default_server m p d0)\<lparr>fn :=
                 addEnvironment (fn (default_server m p d0)) ''OPEN_NEXT_ORIGIN''
                   (LazyJson (originMap ((''default'', default_server m p d0)
                                           # split_servers m p)))\<rparr>)
             # split_servers m p
           else (''default'', default_server m p d0) # split_servers m p)" by blast
  have "default_function g =
       Some (if non_reserved_keys m \<noteq> {}
             then addEnvironment (fn (default_server m p d0)) ''OPEN_NEXT_ORIGIN''
                    (LazyJson (\<lambda>k. if k \<in> compute_split_keys m \<and> k \<noteq> ''__proto__''
                                    then Some (ServerFunctionUrl k) else None))
             else fn (default_server m p d0))"
    unfolding default_function_def s split_keys_nonempty originMap_servers by simp
  with g show ?thesis by blast
qed

lemma default_variable_built:
  assumes "map_of (origins m) ''default'' = Some d0" and "framework_accepts m p"
  shows "default_variable (new_OpenNextCdk m p now) key =
       (if non_reserved_keys m \<noteq> {} \<and> key = ''OPEN_NEXT_ORIGIN''
        then Some (LazyJson (\<lambda>k. if k \<in> compute_split_keys m \<and> k \<noteq> ''__proto__''
                                    then Some (ServerFunctionUrl k) else None))
        else variables (fn (default_server m p d0)) key)"
proof -
  from default_function_built[OF assms, of now] obtain g where
    g: "new_OpenNextCdk m p now = Inr g" and
    f: "default_function g =
       Some (if non_reserved_keys m \<noteq> {}
             then addEnvironment (fn (default_server m p d0)) ''OPEN_NEXT_ORIGIN''
                    (LazyJson (\<lambda>k. if k \<in> compute_split_keys m \<and> k \<noteq> ''__proto__''
                                    then Some (ServerFunctionUrl k) else None))
             else fn (default_server m p d0))" by blast
  show ?thesis
    unfolding default_variable_def g
    by (cases "non_reserved_keys m = {}") (simp_all add: f addEnvironment_def)
qed

lemma default_server_env:
  "existingFunction opts = None \<Longrightarrow> environment opts = Some e \<Longrightarrow> e key = Some v \<Longrightarrow>
     variables (fn (ServerFunction_fields pre k orig b t (Some opts) d)) key = Some (Str v)"
  by (simp add: ServerFunction_fields_def Let_def spread_environment_def map_add_def)

text \<open>
  C4, as the spec states it, fails: with the tag cache disabled by the caller, a
  caller who also passes \<^verbatim>\<open>CACHE_DYNAMO_TABLE\<close> in \<^verbatim>\<open>serverFunction.environment\<close> gets a
  default server function that carries that variable.
\<close>

theorem table_variable_from_caller:
  "valid_manifest basic_manifest \<and> tagCacheDisabled basic_manifest table_variable_props
   \<and> default_variable (new_OpenNextCdk basic_manifest table_variable_props 0)
        ''CACHE_DYNAMO_TABLE'' = Some (Str ''my-table'')"
proof -
  have d: "tagCacheDisabled basic_manifest table_variable_props"
    by (simp add: tagCacheDisabled_def table_variable_props_def disabled_props_def no_props_def)
  have sf: "serverFunction table_variable_props =
              Some \<lparr>environment = Some [''CACHE_DYNAMO_TABLE'' \<mapsto> ''my-table''],
                    existingFunction = None\<rparr>"
    by (simp add: table_variable_props_def disabled_props_def no_props_def)
  have "variables (fn (default_server basic_manifest table_variable_props function_origin))
          ''CACHE_DYNAMO_TABLE'' = Some (Str ''my-table'')"
    unfolding default_server_def sf
    by (rule default_server_env[where e = "[''CACHE_DYNAMO_TABLE'' \<mapsto> ''my-table'']"])
       simp_all
  with d show ?thesis
    by (simp add: basic_valid basic_no_keys
          default_variable_built[OF basic_default basic_accepts_table_variable])
qed

text \<open>
  C4, amended: for every valid manifest on which the constructor returns (the
  framework accepts the input) and where \<open>tagCacheDisabled\<close> holds (from the caller's
  override or the manifest's flag), no table and no seeder is produced,
  and the build itself puts \<^verbatim>\<open>CACHE_DYNAMO_TABLE\<close> on no function: a server function, the
  revalidation consumer or the image optimization function carries that variable only
  when the caller's own options for that function supply it (through \<^verbatim>\<open>environment\<close>, or
  on an \<^verbatim>\<open>existingFunction\<close>).
\<close>

theorem disabled_tag_cache_no_table:
  assumes "valid_manifest m" and "framework_accepts m p" and "tagCacheDisabled m p"
  shows "\<exists>g. new_OpenNextCdk m p now = Inr g
     \<and> tagCacheTable g = None
     \<and> tagCacheSeeder g = None
     \<and> (\<forall>(k, s) \<in> set (servers g).
           variables (fn s) ''CACHE_DYNAMO_TABLE''
             = caller_variable (server_options p k) ''CACHE_DYNAMO_TABLE'')
     \<and> variables (revalidationFn (revalidation g)) ''CACHE_DYNAMO_TABLE''
         = spread_environment (revalidation_options p) ''CACHE_DYNAMO_TABLE''
     \<and> variables (imageFn (imageOptimization g)) ''CACHE_DYNAMO_TABLE''
         = caller_variable (imageOptimizationFunction p) ''CACHE_DYNAMO_TABLE''"
proof -
  from assms(1) obtain d0 where d0: "map_of (origins m) ''default'' = Some d0"
    by (rule valid_obtain)
  have t: "tagCache_table m p = None" using assms(3) by (simp add: tagCache_table_None)
  from build_servers[OF d0 assms(2), of now] obtain g where
    g: "new_OpenNextCdk m p now = Inr g" and
    tb: "tagCacheTable g = tagCache_table m p" and
    sd: "tagCacheSeeder g = seeder_fields m p now" and
    rv: "revalidation g =
           Revalidation_fields (prefix_of p) (createAssetsBucket p) (tagCache_table m p)
             (OpenNextCdkProps.revalidation p)" and
    im: "imageOptimization g =
           ImageOptimization_fields (prefix_of p) (createAssetsBucket p)
             (imageOptimizationFunction p) (getS3OriginPath m)" by blast
  have dflt: "variables (fn (default_server m p d0)) ''CACHE_DYNAMO_TABLE''
       = caller_variable (serverFunction p) ''CACHE_DYNAMO_TABLE''"
    unfolding default_server_def t by (rule body_table_variable)
  have each: "variables (fn s) ''CACHE_DYNAMO_TABLE''
                = caller_variable (server_options p k) ''CACHE_DYNAMO_TABLE''"
    if ks: "(k, s) \<in> set (servers g)" for k s
  proof -
    from servers_cases[OF d0 g ks] consider
      (a) "k = ''default''" "s = default_server m p d0"
      | (b) "k = ''default''"
            "s = (default_server m p d0)\<lparr>fn :=
                    addEnvironment (fn (default_server m p d0)) ''OPEN_NEXT_ORIGIN''
                      (LazyJson (originMap ((''default'', default_server m p d0)
                                              # split_servers m p)))\<rparr>"
      | (c) "k \<in> compute_split_keys m" "(k, s) \<in> set (split_servers m p)" by blast
    then show ?thesis
    proof cases
      case a
      then show ?thesis using dflt by (simp add: server_options_def)
    next
      case b
      then show ?thesis using dflt by (simp add: server_options_def addEnvironment_def)
    next
      case c
      from split_servers_body[OF c(2)] obtain orig where
        "s = ServerFunction_fields (prefix_of p) k orig (createAssetsBucket p)
               (tagCache_table m p) (splitFnOpts p k) (disableIncrementalCache_of m)" by blast
      then show ?thesis
        unfolding t server_options_split[OF c(1)] by (simp only: body_table_variable)
    qed
  qed
  have sn: "seeder_fields m p now = None" by (simp add: seeder_fields_def t)
  have r: "variables (revalidationFn (revalidation g)) ''CACHE_DYNAMO_TABLE''
         = spread_environment (revalidation_options p) ''CACHE_DYNAMO_TABLE''"
    unfolding rv t revalidation_options_def by (rule revalidation_table_variable)
  have i: "variables (imageFn (imageOptimization g)) ''CACHE_DYNAMO_TABLE''
         = caller_variable (imageOptimizationFunction p) ''CACHE_DYNAMO_TABLE''"
    unfolding im by (rule image_table_variable)
  from g tb sd t sn each r i show ?thesis by auto
qed

theorem disabled_tag_cache_no_table_witness:
  "valid_manifest split_manifest \<and> framework_accepts split_manifest disabled_props
   \<and> tagCacheDisabled split_manifest disabled_props
   \<and> (\<exists>g. new_OpenNextCdk split_manifest disabled_props 0 = Inr g
         \<and> tagCacheTable g = None
         \<and> tagCacheSeeder g = None
         \<and> (\<forall>(k, s) \<in> set (servers g). variables (fn s) ''CACHE_DYNAMO_TABLE'' = None)
         \<and> variables (revalidationFn (revalidation g)) ''CACHE_DYNAMO_TABLE'' = None
         \<and> variables (imageFn (imageOptimization g)) ''CACHE_DYNAMO_TABLE'' = None)"
proof -
  have d: "tagCacheDisabled split_manifest disabled_props"
    by (simp add: tagCacheDisabled_def disabled_props_def no_props_def)
  have c: "caller_variable (server_options disabled_props k) ''CACHE_DYNAMO_TABLE'' = None" for k
    by (simp add: caller_variable_def server_options_def splitFnOpts_def disabled_props_def
          no_props_def)
  have i: "caller_variable (imageOptimizationFunction disabled_props) ''CACHE_DYNAMO_TABLE'' = None"
    by (simp add: caller_variable_def disabled_props_def no_props_def)
  have r: "spread_environment (revalidation_options disabled_props) ''CACHE_DYNAMO_TABLE'' = None"
    by (simp add: spread_environment_def revalidation_options_def disabled_props_def no_props_def)
  from disabled_tag_cache_no_table[OF split_valid split_accepts_disabled d, of 0]
    split_valid split_accepts_disabled d show ?thesis
    unfolding c i r by blast
qed

text \<open>
  C5: for every valid manifest on which the constructor returns (the framework accepts
  the input) the revalidation consumer receives the cache-bucket variables and the bucket read-write grant whatever the
  flags are (with the bucket's own values when the caller passes no revalidation
  options). When the manifest sets \<^verbatim>\<open>disableIncrementalCache\<close> and the caller passes no
  override for the server functions (neither \<^verbatim>\<open>serverFunction\<close> nor an entry of
  \<^verbatim>\<open>splitFunctions\<close>), every default or split server function omits the three
  cache-bucket variables and the bucket read-write grant, and still receives the queue
  URL and region variables and the send-message grant.
\<close>

theorem incremental_cache_asymmetry:
  assumes "valid_manifest m" and "framework_accepts m p"
  shows "\<exists>g. new_OpenNextCdk m p now = Inr g
     \<and> receives_bucket (revalidationFn (revalidation g))
     \<and> (OpenNextCdkProps.revalidation p = None \<longrightarrow>
          variables (revalidationFn (revalidation g)) ''CACHE_BUCKET_NAME''
            = Some (BucketName (bucket g))
          \<and> variables (revalidationFn (revalidation g)) ''CACHE_BUCKET_KEY_PREFIX''
            = Some (Str ''_cache'')
          \<and> variables (revalidationFn (revalidation g)) ''CACHE_BUCKET_REGION''
            = Some StackRegion)
     \<and> (disableIncrementalCache_of m \<and> serverFunction p = None
          \<and> (\<forall>k. splitFnOpts p k = None) \<longrightarrow>
          (\<forall>(k, s) \<in> set (servers g). omits_bucket (fn s) \<and> receives_queue (fn s)))"
proof -
  from assms(1) obtain d0 where d0: "map_of (origins m) ''default'' = Some d0"
    by (rule valid_obtain)
  from build_servers[OF d0 assms(2), of now] obtain g where
    g: "new_OpenNextCdk m p now = Inr g" and
    bk: "bucket g = createAssetsBucket p" and
    rv: "revalidation g =
           Revalidation_fields (prefix_of p) (createAssetsBucket p) (tagCache_table m p)
             (OpenNextCdkProps.revalidation p)" by blast
  have r1: "receives_bucket (revalidationFn (revalidation g))"
    unfolding rv by (rule revalidation_bucket)
  have r2: "OpenNextCdkProps.revalidation p = None \<longrightarrow>
          variables (revalidationFn (revalidation g)) ''CACHE_BUCKET_NAME''
            = Some (BucketName (bucket g))
          \<and> variables (revalidationFn (revalidation g)) ''CACHE_BUCKET_KEY_PREFIX''
            = Some (Str ''_cache'')
          \<and> variables (revalidationFn (revalidation g)) ''CACHE_BUCKET_REGION''
            = Some StackRegion"
    unfolding rv bk using revalidation_bucket_values by simp
  have r3: "omits_bucket (fn s) \<and> receives_queue (fn s)"
    if flag: "disableIncrementalCache_of m" and nd: "serverFunction p = None"
      and ns: "\<forall>k. splitFnOpts p k = None" and ks: "(k, s) \<in> set (servers g)" for k s
  proof -
    have dflt: "default_server m p d0 =
        ServerFunction_fields (prefix_of p) ''default'' d0 (createAssetsBucket p)
          (tagCache_table m p) None True"
      using flag nd by (simp add: default_server_def)
    from servers_cases[OF d0 g ks] consider
      (a) "s = default_server m p d0"
      | (b) "s = (default_server m p d0)\<lparr>fn :=
                    addEnvironment (fn (default_server m p d0)) ''OPEN_NEXT_ORIGIN''
                      (LazyJson (originMap ((''default'', default_server m p d0)
                                              # split_servers m p)))\<rparr>"
      | (c) "(k, s) \<in> set (split_servers m p)" by blast
    then show ?thesis
    proof cases
      case a
      show ?thesis unfolding a dflt by (rule body_without_overrides)
    next
      case b
      have "fn s = addEnvironment (fn (default_server m p d0)) ''OPEN_NEXT_ORIGIN''
                      (LazyJson (originMap ((''default'', default_server m p d0)
                                              # split_servers m p)))"
        unfolding b by simp
      then show ?thesis
        using added_origin_map_keeps[OF body_without_overrides] by (simp add: dflt)
    next
      case c
      from split_servers_body[OF c] obtain orig where
        "s = ServerFunction_fields (prefix_of p) k orig (createAssetsBucket p)
               (tagCache_table m p) (splitFnOpts p k) (disableIncrementalCache_of m)" by blast
      then have s: "s = ServerFunction_fields (prefix_of p) k orig (createAssetsBucket p)
               (tagCache_table m p) None True" using flag ns by simp
      show ?thesis unfolding s by (rule body_without_overrides)
    qed
  qed
  have r4: "disableIncrementalCache_of m \<and> serverFunction p = None
          \<and> (\<forall>k. splitFnOpts p k = None) \<longrightarrow>
          (\<forall>(k, s) \<in> set (servers g). omits_bucket (fn s) \<and> receives_queue (fn s))"
    using r3 by auto
  show ?thesis
    by (rule exI[of _ g]) (intro conjI g r1 r2 r4)
qed

theorem incremental_cache_asymmetry_witness:
  "valid_manifest split_manifest \<and> framework_accepts split_manifest no_props
   \<and> disableIncrementalCache_of split_manifest
   \<and> serverFunction no_props = None
   \<and> (\<forall>k. splitFnOpts no_props k = None)
   \<and> OpenNextCdkProps.revalidation no_props = None
   \<and> (\<exists>g. new_OpenNextCdk split_manifest no_props 0 = Inr g
         \<and> receives_bucket (revalidationFn (revalidation g))
         \<and> variables (revalidationFn (revalidation g)) ''CACHE_BUCKET_NAME''
             = Some (BucketName (bucket g))
         \<and> (\<forall>(k, s) \<in> set (servers g). omits_bucket (fn s) \<and> receives_queue (fn s)))"
proof -
  have a: "disableIncrementalCache_of split_manifest"
    by (simp add: disableIncrementalCache_of_def split_manifest_def)
  have b: "serverFunction no_props = None" "\<forall>k. splitFnOpts no_props k = None"
     "OpenNextCdkProps.revalidation no_props = None"
    by (simp_all add: no_props_def splitFnOpts_def)
  from incremental_cache_asymmetry[OF split_valid split_accepts, of 0] split_valid
    split_accepts a b
  show ?thesis by blast
qed

section \<open>The split functions and the origin map of the default function\<close>

lemma default_server_variable:
  "variables (fn (default_server m p d0)) ''OPEN_NEXT_ORIGIN''
     = caller_variable (serverFunction p) ''OPEN_NEXT_ORIGIN''"
proof (cases "serverFunction p")
  case None
  then show ?thesis
    by (simp add: default_server_def ServerFunction_fields_def caller_variable_def Let_def
          spread_environment_def map_add_def split: option.splits)
next
  case (Some opts)
  then show ?thesis
    by (cases "existingFunction opts")
       (simp_all add: default_server_def ServerFunction_fields_def caller_variable_def Let_def
          map_add_def split: option.splits)
qed

lemma split_resources_built:
  assumes "map_of (origins m) ''default'' = Some d0" and "new_OpenNextCdk m p now = Inr g"
  shows "split_resources g = split_servers m p"
proof -
  from build_servers[OF assms(1) build_accepts(2)[OF assms(2)], of now] assms(2)
  have s: "servers g =
          (if getSplitFunctionOrigins m \<noteq> [] then
             (''default'',
              (default_server m p d0)\<lparr>fn :=
                 addEnvironment (fn (default_server m p d0)) ''OPEN_NEXT_ORIGIN''
                   (LazyJson (originMap ((''default'', default_server m p d0)
                                           # split_servers m p)))\<rparr>)
             # split_servers m p
           else (''default'', default_server m p d0) # split_servers m p)" by auto
  have "\<forall>x \<in> set (split_servers m p). fst x \<noteq> ''default''"
    using split_servers_set[of m p] default_not_split[of m] by force
  then have "filter (\<lambda>(k, s). k \<noteq> ''default'') (split_servers m p) = split_servers m p"
    by (intro filter_True) auto
  then show ?thesis unfolding split_resources_def s by simp
qed

text \<open>
  C2, as the spec states it, fails: for the manifest with the default origin only,
  \<open>N = 0\<close>, the constructor returns and no split function is built, but the default
  function has no \<^verbatim>\<open>OPEN_NEXT_ORIGIN\<close> variable at all, so there is no JSON object with
  zero keys to decode.
\<close>

theorem origin_map_absent_without_keys:
  "valid_manifest basic_manifest \<and> card (compute_split_keys basic_manifest) = 0
   \<and> \<not> isl (new_OpenNextCdk basic_manifest no_props 0)
   \<and> default_variable (new_OpenNextCdk basic_manifest no_props 0) ''OPEN_NEXT_ORIGIN'' = None"
proof -
  have "default_variable (new_OpenNextCdk basic_manifest no_props 0) ''OPEN_NEXT_ORIGIN''
          = caller_variable (serverFunction no_props) ''OPEN_NEXT_ORIGIN''"
    by (simp add: default_variable_built[OF basic_default basic_accepts] basic_no_keys
          default_server_variable)
  then have "default_variable (new_OpenNextCdk basic_manifest no_props 0) ''OPEN_NEXT_ORIGIN''
          = None"
    by (simp add: caller_variable_def no_props_def)
  moreover from build_Inr[OF basic_default basic_accepts, of 0]
  have "\<not> isl (new_OpenNextCdk basic_manifest no_props 0)" by auto
  ultimately show ?thesis by (simp add: basic_valid basic_compute_keys)
qed

text \<open>
  C2, amended: for every valid manifest with exactly \<open>N\<close> compute-typed origin keys
  other than the three reserved ones, on an input that the framework accepts (every
  function the construct creates gets a name that \<^verbatim>\<open>new lambda.Function\<close> allows, among
  them \<^verbatim>\<open>prefix-key\<close> for each split key; no two split keys get the same construct id; the
  default function is no imported one when there is a key beyond the reserved ones),
  the build produces exactly \<open>N\<close> split server functions, one under each of those
  keys. If the manifest has at least one origin
  key beyond the reserved ones, the default function's \<^verbatim>\<open>OPEN_NEXT_ORIGIN\<close> decodes to
  an object whose keys are among those \<open>N\<close> keys, include each of them (a key named
  \<^verbatim>\<open>__proto__\<close> aside) and never include \<^verbatim>\<open>default\<close>; with no such key the build sets no
  \<^verbatim>\<open>OPEN_NEXT_ORIGIN\<close>, and the variable is what the caller's own options supply, if
  anything.
\<close>

theorem split_functions_and_origin_map:
  assumes "valid_manifest m" and "framework_accepts m p"
  shows "\<exists>g f. new_OpenNextCdk m p now = Inr g \<and> default_function g = Some f
     \<and> length (split_resources g) = card (compute_split_keys m)
     \<and> fst ` set (split_resources g) = compute_split_keys m
     \<and> (non_reserved_keys m \<noteq> {} \<longrightarrow>
          (\<exists>decoded. variables f ''OPEN_NEXT_ORIGIN'' = Some (LazyJson decoded)
             \<and> dom decoded \<subseteq> compute_split_keys m
             \<and> compute_split_keys m - {''__proto__''} \<subseteq> dom decoded
             \<and> ''default'' \<notin> dom decoded))
     \<and> (non_reserved_keys m = {} \<longrightarrow>
          variables f ''OPEN_NEXT_ORIGIN''
            = caller_variable (serverFunction p) ''OPEN_NEXT_ORIGIN'')"
proof -
  from assms(1) obtain d0 where d0: "map_of (origins m) ''default'' = Some d0"
    by (rule valid_obtain)
  let ?om = "\<lambda>k. if k \<in> compute_split_keys m \<and> k \<noteq> ''__proto__''
                  then Some (ServerFunctionUrl k) else None"
  from default_function_built[OF d0 assms(2), of now] obtain g where
    g: "new_OpenNextCdk m p now = Inr g" and
    f: "default_function g =
       Some (if non_reserved_keys m \<noteq> {}
             then addEnvironment (fn (default_server m p d0)) ''OPEN_NEXT_ORIGIN'' (LazyJson ?om)
             else fn (default_server m p d0))" by blast
  have sr: "split_resources g = split_servers m p" by (rule split_resources_built[OF d0 g])
  have dom: "dom ?om = compute_split_keys m - {''__proto__''}"
    by (auto simp: dom_def)
  have nd: "''default'' \<notin> dom ?om" using default_not_split[of m] by (simp add: dom)
  show ?thesis
  proof (cases "non_reserved_keys m = {}")
    case True
    with g f sr show ?thesis
      by (simp add: split_servers_length split_servers_set default_server_variable)
  next
    case False
    have "variables (addEnvironment (fn (default_server m p d0)) ''OPEN_NEXT_ORIGIN''
                       (LazyJson ?om)) ''OPEN_NEXT_ORIGIN'' = Some (LazyJson ?om)"
      by (simp add: addEnvironment_def)
    moreover have "dom ?om \<subseteq> compute_split_keys m"
      "compute_split_keys m - {''__proto__''} \<subseteq> dom ?om"
      using dom by auto
    ultimately show ?thesis
      using False g f sr nd by (auto simp: split_servers_length split_servers_set)
  qed
qed

theorem split_functions_and_origin_map_witness:
  "valid_manifest split_manifest \<and> framework_accepts split_manifest no_props
   \<and> non_reserved_keys split_manifest \<noteq> {}
   \<and> compute_split_keys split_manifest = {''api''}
   \<and> (\<exists>g f decoded. new_OpenNextCdk split_manifest no_props 0 = Inr g
         \<and> default_function g = Some f
         \<and> length (split_resources g) = 1
         \<and> fst ` set (split_resources g) = {''api''}
         \<and> variables f ''OPEN_NEXT_ORIGIN'' = Some (LazyJson decoded)
         \<and> dom decoded = {''api''})"
proof -
  from split_functions_and_origin_map[OF split_valid split_accepts, of 0] split_manifest_keys
  obtain g f decoded where
    "new_OpenNextCdk split_manifest no_props 0 = Inr g" "default_function g = Some f"
    "length (split_resources g) = card {''api''}"
    "fst ` set (split_resources g) = {''api''}"
    "variables f ''OPEN_NEXT_ORIGIN'' = Some (LazyJson decoded)"
    "dom decoded \<subseteq> {''api''}" "{''api''} - {''__proto__''} \<subseteq> dom decoded"
    by auto
  moreover from this have "dom decoded = {''api''}" by auto
  ultimately show ?thesis using split_valid split_accepts split_manifest_keys by auto
qed

text \<open>
  C10, as stated, fails in its last part: with no origin key beyond the reserved ones
  the build injects nothing, but a caller who passes \<^verbatim>\<open>OPEN_NEXT_ORIGIN\<close> in
  \<^verbatim>\<open>serverFunction.environment\<close> gets a default function that has the variable.
\<close>

theorem origin_variable_from_caller:
  "valid_manifest basic_manifest \<and> non_reserved_keys basic_manifest = {}
   \<and> default_variable (new_OpenNextCdk basic_manifest origin_variable_props 0)
        ''OPEN_NEXT_ORIGIN'' = Some (Str ''mine'')"
proof -
  have "default_variable (new_OpenNextCdk basic_manifest origin_variable_props 0)
          ''OPEN_NEXT_ORIGIN''
        = caller_variable (serverFunction origin_variable_props) ''OPEN_NEXT_ORIGIN''"
    by (simp add: default_variable_built[OF basic_default basic_accepts_origin_variable]
          basic_no_keys default_server_variable)
  then show ?thesis
    by (simp add: basic_valid basic_no_keys caller_variable_def origin_variable_props_def
          no_props_def spread_environment_def)
qed

text \<open>
  C10, amended: whether the build injects \<^verbatim>\<open>OPEN_NEXT_ORIGIN\<close> into the default
  function is decided by the existence of an origin key beyond the three reserved
  ones, not by the creation of a split function. For every valid manifest with such a
  key, on an input that the framework accepts (function names that
  \<^verbatim>\<open>new lambda.Function\<close> allows, distinct construct ids of the split functions, a default
  function that is no imported one), the default function has the variable, whose JSON value maps only compute-typed
  non-reserved keys, each (a key named \<^verbatim>\<open>__proto__\<close> aside) to the URL of its split
  function, and is the empty object when none of the keys is compute-typed. With no
  such key the build injects nothing: the variable is absent unless the caller's own
  \<^verbatim>\<open>serverFunction\<close> options supply it.
\<close>

theorem origin_map_presence:
  assumes "valid_manifest m" and "framework_accepts m p"
  shows "\<exists>g f. new_OpenNextCdk m p now = Inr g \<and> default_function g = Some f
     \<and> (non_reserved_keys m \<noteq> {} \<longrightarrow>
          (\<exists>decoded. variables f ''OPEN_NEXT_ORIGIN'' = Some (LazyJson decoded)
             \<and> dom decoded \<subseteq> compute_split_keys m
             \<and> (\<forall>k \<in> compute_split_keys m.
                   k \<noteq> ''__proto__'' \<longrightarrow> decoded k = Some (ServerFunctionUrl k))))
     \<and> (non_reserved_keys m = {} \<longrightarrow>
          variables f ''OPEN_NEXT_ORIGIN''
            = caller_variable (serverFunction p) ''OPEN_NEXT_ORIGIN'')"
proof -
  from assms(1) obtain d0 where d0: "map_of (origins m) ''default'' = Some d0"
    by (rule valid_obtain)
  let ?om = "\<lambda>k. if k \<in> compute_split_keys m \<and> k \<noteq> ''__proto__''
                  then Some (ServerFunctionUrl k) else None"
  from default_function_built[OF d0 assms(2), of now] obtain g where
    g: "new_OpenNextCdk m p now = Inr g" and
    f: "default_function g =
       Some (if non_reserved_keys m \<noteq> {}
             then addEnvironment (fn (default_server m p d0)) ''OPEN_NEXT_ORIGIN'' (LazyJson ?om)
             else fn (default_server m p d0))" by blast
  show ?thesis
  proof (cases "non_reserved_keys m = {}")
    case True
    with g f show ?thesis by (simp add: default_server_variable)
  next
    case False
    have "variables (addEnvironment (fn (default_server m p d0)) ''OPEN_NEXT_ORIGIN''
                       (LazyJson ?om)) ''OPEN_NEXT_ORIGIN'' = Some (LazyJson ?om)"
      by (simp add: addEnvironment_def)
    moreover have "dom ?om \<subseteq> compute_split_keys m" by (auto simp: dom_def)
    moreover have "\<forall>k \<in> compute_split_keys m.
                     k \<noteq> ''__proto__'' \<longrightarrow> ?om k = Some (ServerFunctionUrl k)" by simp
    ultimately show ?thesis using False g f by auto
  qed
qed

theorem origin_map_presence_witness:
  "valid_manifest static_extra_manifest
   \<and> framework_accepts static_extra_manifest no_props
   \<and> non_reserved_keys static_extra_manifest \<noteq> {}
   \<and> compute_split_keys static_extra_manifest = {}
   \<and> (\<exists>g f decoded. new_OpenNextCdk static_extra_manifest no_props 0 = Inr g
         \<and> default_function g = Some f
         \<and> variables f ''OPEN_NEXT_ORIGIN'' = Some (LazyJson decoded)
         \<and> dom decoded = {})
   \<and> valid_manifest basic_manifest
   \<and> framework_accepts basic_manifest no_props
   \<and> non_reserved_keys basic_manifest = {}
   \<and> (\<exists>g f. new_OpenNextCdk basic_manifest no_props 0 = Inr g
         \<and> default_function g = Some f
         \<and> variables f ''OPEN_NEXT_ORIGIN'' = None)"
proof -
  from origin_map_presence[OF static_extra_keys(1) static_extra_accepts, of 0]
    static_extra_keys(2,3)
  have 1: "\<exists>g f decoded. new_OpenNextCdk static_extra_manifest no_props 0 = Inr g
         \<and> default_function g = Some f
         \<and> variables f ''OPEN_NEXT_ORIGIN'' = Some (LazyJson decoded)
         \<and> dom decoded = {}" by auto
  have c: "caller_variable (serverFunction no_props) ''OPEN_NEXT_ORIGIN'' = None"
    by (simp add: caller_variable_def no_props_def)
  from origin_map_presence[OF basic_valid basic_accepts, of 0] basic_no_keys c
  have 2: "\<exists>g f. new_OpenNextCdk basic_manifest no_props 0 = Inr g
         \<and> default_function g = Some f
         \<and> variables f ''OPEN_NEXT_ORIGIN'' = None" by auto
  from static_extra_keys static_extra_accepts basic_valid basic_accepts basic_no_keys 1 2
  show ?thesis by blast
qed

section \<open>The clock\<close>

lemma seeder_erased:
  "map_option (\<lambda>s. s\<lparr>deployTimestamp := 0\<rparr>) (seeder_fields m p t1)
     = map_option (\<lambda>s. s\<lparr>deployTimestamp := 0\<rparr>) (seeder_fields m p t2)"
  by (simp add: seeder_fields_def TagCacheSeeder_fields_def split: option.splits)

lemma seeder_timestamp: "seeder_fields m p t = Some s \<Longrightarrow> deployTimestamp s = t"
  by (auto simp: seeder_fields_def TagCacheSeeder_fields_def split: option.splits if_splits)

lemma build_seeder:
  assumes "map_of (origins m) ''default'' = Some d0" and "framework_accepts m p"
  shows "\<exists>g. new_OpenNextCdk m p t1 = Inr (g\<lparr>tagCacheSeeder := seeder_fields m p t1\<rparr>)
           \<and> new_OpenNextCdk m p t2 = Inr (g\<lparr>tagCacheSeeder := seeder_fields m p t2\<rparr>)"
proof -
  from build_Inr[OF assms, of t1] obtain x where
    x: "new_DistributionComponent (prefix_of p) m (createAssetsBucket p)
          (map (\<lambda>(key, s). (key, functionUrl s))
             ((''default'', default_server m p d0) # split_servers m p))
          (imageFunctionUrl
             (ImageOptimization_fields (prefix_of p) (createAssetsBucket p)
                (imageOptimizationFunction p) (getS3OriginPath m)))
          (OpenNextCdkProps.distribution p) (getS3OriginPath m) = Inr x" by blast
  let ?g = "\<lambda>t. \<lparr>bucket = createAssetsBucket p,
            tagCacheTable = tagCache_table m p,
            revalidation =
              Revalidation_fields (prefix_of p) (createAssetsBucket p) (tagCache_table m p)
                (OpenNextCdkProps.revalidation p),
            tagCacheSeeder = seeder_fields m p t,
            warnings = edge_warnings m,
            servers =
              (if getSplitFunctionOrigins m \<noteq> [] then
                 (''default'',
                  (default_server m p d0)\<lparr>fn :=
                     addEnvironment (fn (default_server m p d0)) ''OPEN_NEXT_ORIGIN''
                       (LazyJson (originMap ((''default'', default_server m p d0)
                                               # split_servers m p)))\<rparr>)
                 # split_servers m p
               else (''default'', default_server m p d0) # split_servers m p),
            imageOptimization =
              ImageOptimization_fields (prefix_of p) (createAssetsBucket p)
                (imageOptimizationFunction p) (getS3OriginPath m),
            distribution = x\<rparr>"
  have "new_OpenNextCdk m p t = Inr (?g t)" for t
    using build_Inr[OF assms, of t] x by auto
  then have "new_OpenNextCdk m p t1 = Inr ((?g 0)\<lparr>tagCacheSeeder := seeder_fields m p t1\<rparr>)"
    "new_OpenNextCdk m p t2 = Inr ((?g 0)\<lparr>tagCacheSeeder := seeder_fields m p t2\<rparr>)"
    by simp_all
  then show ?thesis by blast
qed

text \<open>
  C9, as the spec states it, fails: the seeder's custom resource takes the property
  \<^verbatim>\<open>deployTimestamp\<close> from \<^verbatim>\<open>Date.now()\<close>, so two builds from the same manifest and props
  that read the clock at 0 and at 1 differ.
\<close>

theorem builds_differ_with_clock:
  "new_OpenNextCdk split_manifest no_props 0 \<noteq> new_OpenNextCdk split_manifest no_props 1"
proof
  assume eq: "new_OpenNextCdk split_manifest no_props 0 = new_OpenNextCdk split_manifest no_props 1"
  have "map_of (origins split_manifest) ''default'' = Some function_origin"
    by (simp add: split_manifest_def)
  from build_seeder[OF this split_accepts, of 0 1] eq
  have s: "seeder_fields split_manifest no_props 0 = seeder_fields split_manifest no_props 1"
    by (metis OpenNextCdk.select_convs(4) OpenNextCdk.surjective OpenNextCdk.update_convs(4)
          sum.inject(2))
  have "seederEligible split_manifest no_props"
    by (simp add: seederEligible_def tagCacheDisabled_def split_manifest_def no_props_def)
  then obtain x where x: "seeder_fields split_manifest no_props 0 = Some x"
    using seeder_fields_iff[of split_manifest no_props 0] by auto
  from seeder_timestamp[OF x] seeder_timestamp[OF x[unfolded s]] show False by simp
qed

text \<open>
  C9, amended: the build is a function of the manifest, the caller's props and the
  reading of the clock, and the clock reaches nothing but the seeder's
  \<^verbatim>\<open>deployTimestamp\<close>: two builds from the same manifest and props agree once that
  property is blanked, and agree outright when no seeder is eligible. A constructor
  that throws does so with the same error whatever the clock reads.
\<close>

theorem build_depends_on_clock_only_through_seeder:
  "erase_deployTimestamp (new_OpenNextCdk m p t1) = erase_deployTimestamp (new_OpenNextCdk m p t2)
   \<and> (\<not> seederEligible m p \<longrightarrow> new_OpenNextCdk m p t1 = new_OpenNextCdk m p t2)"
proof (cases "new_OpenNextCdk m p t1")
  case (Inl e)
  then have "new_OpenNextCdk m p t2 = Inl e" by (rule build_clock_error)
  with Inl show ?thesis by simp
next
  case (Inr g1)
  from build_accepts[OF Inr] obtain d0 where
    d0: "map_of (origins m) ''default'' = Some d0" and acc: "framework_accepts m p"
    by (auto elim: valid_obtain)
  from build_seeder[OF d0 acc, of t1 t2] obtain g where
    r1: "new_OpenNextCdk m p t1 = Inr (g\<lparr>tagCacheSeeder := seeder_fields m p t1\<rparr>)" and
    r2: "new_OpenNextCdk m p t2 = Inr (g\<lparr>tagCacheSeeder := seeder_fields m p t2\<rparr>)" by blast
  show ?thesis
    unfolding r1 r2 erase_deployTimestamp_def
    using seeder_erased[of m p t1 t2] by (auto simp: seeder_none)
qed

theorem build_depends_on_clock_only_through_seeder_witness:
  "\<not> seederEligible basic_manifest no_props
   \<and> new_OpenNextCdk basic_manifest no_props 0 = new_OpenNextCdk basic_manifest no_props 1
   \<and> erase_deployTimestamp (new_OpenNextCdk split_manifest no_props 0)
       = erase_deployTimestamp (new_OpenNextCdk split_manifest no_props 1)"
proof -
  have a: "\<not> seederEligible basic_manifest no_props"
    by (simp add: seederEligible_def basic_manifest_def)
  from build_depends_on_clock_only_through_seeder[of basic_manifest no_props 0 1] a
  have 1: "new_OpenNextCdk basic_manifest no_props 0 = new_OpenNextCdk basic_manifest no_props 1"
    by blast
  from build_depends_on_clock_only_through_seeder[of split_manifest no_props 0 1]
  have 2: "erase_deployTimestamp (new_OpenNextCdk split_manifest no_props 0)
       = erase_deployTimestamp (new_OpenNextCdk split_manifest no_props 1)" by blast
  from a 1 2 show ?thesis by blast
qed

end
